(* ===== verification/Prelude.thy ===== *)
theory Prelude
  imports Complex_Main "HOL-Library.AList" "HOL-Library.Char_ord"
begin

text \<open>
  The vocabulary the components share: the built-in Python exceptions, the error monad every
  fallible operation returns in, the operations of Python's \<open>str\<close> that the sources use, and
  small facts on lists and association lists.

  A Python \<open>str\<close> is modelled by \<^typ>\<open>string\<close>, one \<^typ>\<open>char\<close> per code point,
  which covers the code points below 256.  Character classes (white space, letter case,
  digits) are those of Python on that range.
\<close>

section \<open>Hint collections\<close>

named_theorems py_simps \<open>unfoldings of the Python operations on concrete values\<close>
named_theorems dict_simps \<open>lookup laws of dictionaries\<close>
named_theorems res_simps \<open>laws of the error monad\<close>

section \<open>Exceptions of the language, and the error monad\<close>

datatype builtin_error =
    ValueError
  | TypeError
  | KeyError
  | IndexError
  | AttributeError
  | OverflowError
  | ZeroDivisionError
  | CancelledError

text \<open>A computation that may raise: \<open>Inl\<close> the exception, \<open>Inr\<close> the value.\<close>

definition res_bind :: "'e + 'a \<Rightarrow> ('a \<Rightarrow> 'e + 'b) \<Rightarrow> 'e + 'b" where
  "res_bind m f = (case m of Inl e \<Rightarrow> Inl e | Inr x \<Rightarrow> f x)"

definition res_map :: "('a \<Rightarrow> 'b) \<Rightarrow> 'e + 'a \<Rightarrow> 'e + 'b" where
  "res_map f m = (case m of Inl e \<Rightarrow> Inl e | Inr x \<Rightarrow> Inr (f x))"

text \<open>\<open>try: m except: d\<close> for a handler that catches whatever \<open>m\<close> raises.\<close>

definition res_else :: "'e + 'a \<Rightarrow> 'a \<Rightarrow> 'a" where
  "res_else m d = (case m of Inl _ \<Rightarrow> d | Inr x \<Rightarrow> x)"

lemma res_bind_simps [simp, res_simps]:
  "res_bind (Inl e) f = Inl e"
  "res_bind (Inr x) f = f x"
  by (simp_all add: res_bind_def)

lemma res_map_simps [simp, res_simps]:
  "res_map g (Inl e) = Inl e"
  "res_map g (Inr x) = Inr (g x)"
  by (simp_all add: res_map_def)

lemma res_else_simps [simp, res_simps]:
  "res_else (Inl e) d = d"
  "res_else (Inr x) d = x"
  by (simp_all add: res_else_def)

lemma res_bind_Inr_iff [res_simps]:
  "res_bind m f = Inr y \<longleftrightarrow> (\<exists>x. m = Inr x \<and> f x = Inr y)"
  by (cases m) auto

lemma res_map_Inr_iff [res_simps]:
  "res_map g m = Inr y \<longleftrightarrow> (\<exists>x. m = Inr x \<and> y = g x)"
  by (cases m) auto

lemma res_bind_assoc: "res_bind (res_bind m f) g = res_bind m (\<lambda>x. res_bind (f x) g)"
  by (cases m) auto

text \<open>A \<open>for\<close> loop whose body may raise: the first exception ends it.\<close>

fun res_fold :: "('a \<Rightarrow> 's \<Rightarrow> 'e + 's) \<Rightarrow> 'a list \<Rightarrow> 's \<Rightarrow> 'e + 's" where
  "res_fold f [] s = Inr s"
| "res_fold f (x # xs) s = res_bind (f x s) (res_fold f xs)"

text \<open>A list comprehension whose element expression may raise.\<close>

fun res_list :: "('e + 'a) list \<Rightarrow> 'e + 'a list" where
  "res_list [] = Inr []"
| "res_list (m # ms) = res_bind m (\<lambda>x. res_map ((#) x) (res_list ms))"

lemma res_fold_Inr:
  "(\<And>x s. f x s = Inr (g x s)) \<Longrightarrow> res_fold f xs s = Inr (fold g xs s)"
  by (induction xs arbitrary: s) auto

lemma res_fold_append:
  "res_fold f (xs @ ys) s = res_bind (res_fold f xs s) (res_fold f ys)"
proof (induction xs arbitrary: s)
  case Nil
  show ?case by simp
next
  case (Cons x xs)
  then have "res_fold f (xs @ ys) = (\<lambda>s. res_bind (res_fold f xs s) (res_fold f ys))"
    by (intro ext)
  then show ?case by (simp add: res_bind_assoc)
qed

lemma res_fold_invariant:
  assumes "res_fold f xs s = Inr t" and "P s"
    and "\<And>x u v. x \<in> set xs \<Longrightarrow> P u \<Longrightarrow> f x u = Inr v \<Longrightarrow> P v"
  shows "P t"
  using assms
proof (induction xs arbitrary: s)
  case Nil
  then show ?case by simp
next
  case (Cons x xs)
  then obtain u where u: "f x s = Inr u" "res_fold f xs u = Inr t"
    by (auto simp: res_simps)
  show ?case
    by (rule Cons.IH [OF u(2)]) (use Cons.prems u(1) in auto)
qed

section \<open>Lists\<close>

lemma fold_invariant:
  assumes "P s" and "\<And>x u. x \<in> set xs \<Longrightarrow> P u \<Longrightarrow> P (f x u)"
  shows "P (fold f xs s)"
  using assms by (induction xs arbitrary: s) auto

lemma find_SomeD: "List.find P xs = Some x \<Longrightarrow> x \<in> set xs \<and> P x"
  by (induction xs) (auto split: if_splits)

text \<open>\<open>needle in haystack\<close> for strings (and \<open>a in b\<close> as a contiguous sublist).\<close>

fun starts_with :: "'a list \<Rightarrow> 'a list \<Rightarrow> bool" where
  "starts_with [] ys = True"
| "starts_with (x # xs) [] = False"
| "starts_with (x # xs) (y # ys) = (x = y \<and> starts_with xs ys)"

definition ends_with :: "'a list \<Rightarrow> 'a list \<Rightarrow> bool" where
  "ends_with xs ys = starts_with (rev xs) (rev ys)"

fun contains :: "'a list \<Rightarrow> 'a list \<Rightarrow> bool" where
  "contains needle [] = (needle = [])"
| "contains needle (y # ys) = (starts_with needle (y # ys) \<or> contains needle ys)"

lemma starts_with_iff: "starts_with xs ys \<longleftrightarrow> (\<exists>zs. ys = xs @ zs)"
  by (induction xs ys rule: starts_with.induct) auto

lemma starts_with_append [simp]: "starts_with xs (xs @ zs)"
  by (auto simp: starts_with_iff)

lemma contains_iff: "contains needle ys \<longleftrightarrow> (\<exists>us vs. ys = us @ needle @ vs)"
proof (induction ys)
  case Nil
  then show ?case by auto
next
  case (Cons y ys)
  show ?case
  proof
    assume "contains needle (y # ys)"
    then show "\<exists>us vs. y # ys = us @ needle @ vs"
      using Cons.IH by (auto simp: starts_with_iff) (metis append_Cons append_Nil)+
  next
    assume "\<exists>us vs. y # ys = us @ needle @ vs"
    then obtain us vs where eq: "y # ys = us @ needle @ vs" by auto
    show "contains needle (y # ys)"
    proof (cases us)
      case Nil
      with eq have "starts_with needle (y # ys)" by (auto simp: starts_with_iff)
      then show ?thesis by simp
    next
      case (Cons u us')
      with eq have "contains needle ys" using Cons.IH by auto
      then show ?thesis by simp
    qed
  qed
qed

section \<open>Operations of \<open>str\<close>\<close>

text \<open>\<open>s.split(sep)\<close> for a one-character separator: never empty, keeps empty fields.\<close>

fun split_on :: "'a \<Rightarrow> 'a list \<Rightarrow> 'a list list" where
  "split_on c [] = [[]]"
| "split_on c (x # xs) =
     (if x = c then [] # split_on c xs
      else (case split_on c xs of [] \<Rightarrow> [[x]] | w # ws \<Rightarrow> (x # w) # ws))"

lemma split_on_not_Nil [simp]: "split_on c xs \<noteq> []"
  by (induction xs) (auto split: list.splits)

lemma split_on_absent: "c \<notin> set xs \<Longrightarrow> split_on c xs = [xs]"
  by (induction xs) auto

text \<open>\<open>s.split(sep, 1)\<close>: the part before the first separator and the rest, if there is one.\<close>

fun split_first :: "'a \<Rightarrow> 'a list \<Rightarrow> 'a list \<times> 'a list option" where
  "split_first c [] = ([], None)"
| "split_first c (x # xs) =
     (if x = c then ([], Some xs)
      else (case split_first c xs of (a, b) \<Rightarrow> (x # a, b)))"

lemma split_first_SomeD: "split_first c xs = (a, Some b) \<Longrightarrow> xs = a @ c # b \<and> c \<notin> set a"
  by (induction xs arbitrary: a) (auto split: if_splits prod.splits)

lemma split_first_NoneD: "split_first c xs = (a, None) \<Longrightarrow> a = xs \<and> c \<notin> set xs"
  by (induction xs arbitrary: a) (auto split: if_splits prod.splits)

text \<open>\<open>str.isspace\<close> on one character, \<open>str.strip()\<close> and \<open>str.lower()\<close>.\<close>

definition is_space :: "char \<Rightarrow> bool" where
  "is_space c = (let n = of_char c :: nat in
     (9 \<le> n \<and> n \<le> 13) \<or> (28 \<le> n \<and> n \<le> 32) \<or> n = 133 \<or> n = 160)"

definition strip :: "string \<Rightarrow> string" where
  "strip s = rev (dropWhile is_space (rev (dropWhile is_space s)))"

definition lower_char :: "char \<Rightarrow> char" where
  "lower_char c = (let n = of_char c :: nat in
     if (65 \<le> n \<and> n \<le> 90) \<or> (192 \<le> n \<and> n \<le> 222 \<and> n \<noteq> 215) then char_of (n + 32) else c)"

definition lower :: "string \<Rightarrow> string" where
  "lower s = map lower_char s"

definition is_digit :: "char \<Rightarrow> bool" where
  "is_digit c = (let n = of_char c :: nat in 48 \<le> n \<and> n \<le> 57)"

definition digit_val :: "char \<Rightarrow> nat" where
  "digit_val c = of_char c - 48"

text \<open>The value of a string of decimal digits, most significant first.\<close>

definition digits_val :: "string \<Rightarrow> int" where
  "digits_val s = foldl (\<lambda>n c. 10 * n + int (digit_val c)) 0 s"

lemma lower_length [simp]: "length (lower s) = length s"
  by (simp add: lower_def)

lemma digit_val_less: "is_digit c \<Longrightarrow> digit_val c < 10"
  by (auto simp: is_digit_def digit_val_def Let_def)

lemma foldl_digits_bound:
  assumes "\<forall>c \<in> set s. is_digit c" and "0 \<le> k"
  shows "0 \<le> foldl (\<lambda>n c. 10 * n + int (digit_val c)) k s
    \<and> foldl (\<lambda>n c. 10 * n + int (digit_val c)) k s < (k + 1) * 10 ^ length s"
  using assms
proof (induction s arbitrary: k)
  case Nil
  then show ?case by simp
next
  case (Cons c s)
  let ?k = "10 * k + int (digit_val c)"
  have d: "int (digit_val c) < 10" using Cons.prems digit_val_less [of c] by simp
  have "(?k + 1) * 10 ^ length s \<le> (10 * k + 10) * 10 ^ length s"
    by (rule mult_right_mono) (use d in auto)
  moreover have "(10 * k + 10) * 10 ^ length s = (k + 1) * 10 ^ length (c # s)"
    by (simp add: algebra_simps)
  moreover have "0 \<le> foldl (\<lambda>n c. 10 * n + int (digit_val c)) ?k s
      \<and> foldl (\<lambda>n c. 10 * n + int (digit_val c)) ?k s < (?k + 1) * 10 ^ length s"
    by (rule Cons.IH) (use Cons.prems in auto)
  ultimately have "0 \<le> foldl (\<lambda>n c. 10 * n + int (digit_val c)) ?k s
      \<and> foldl (\<lambda>n c. 10 * n + int (digit_val c)) ?k s < (k + 1) * 10 ^ length (c # s)"
    by linarith
  then show ?case by simp
qed

lemma digits_val_bound:
  "\<forall>c \<in> set s. is_digit c \<Longrightarrow> 0 \<le> digits_val s \<and> digits_val s < 10 ^ length s"
  using foldl_digits_bound [of s 0] by (simp add: digits_val_def)

text \<open>The decimal digits of a non-negative int, as \<open>str(n)\<close> prints them.\<close>

function nat_digits :: "int \<Rightarrow> string" where
  "nat_digits n = (if n < 10 then [char_of (48 + nat n)]
     else nat_digits (n div 10) @ [char_of (48 + nat (n mod 10))])"
  by pat_completeness auto
termination
  by (relation "measure nat") auto

declare nat_digits.simps [simp del]

definition int_str :: "int \<Rightarrow> string" where
  "int_str i = (if i < 0 then ''-'' @ nat_digits (- i) else nat_digits i)"

lemma nat_digits_not_Nil [simp]: "nat_digits n \<noteq> []"
  by (subst nat_digits.simps) simp

lemma of_char_digit: "d < 10 \<Longrightarrow> (of_char (char_of (48 + d) :: char) :: nat) = 48 + d"
  by simp

lemma digit_char:
  assumes "0 \<le> d" "d < 10"
  shows "is_digit (char_of (48 + nat d)) \<and> digit_val (char_of (48 + nat d)) = nat d"
  using of_char_digit [of "nat d"] assms by (simp add: is_digit_def digit_val_def Let_def)

lemma nat_digits_correct:
  "0 \<le> n \<Longrightarrow> (\<forall>c \<in> set (nat_digits n). is_digit c) \<and> digits_val (nat_digits n) = n"
proof (induction n rule: nat_digits.induct)
  case (1 n)
  show ?case
  proof (cases "n < 10")
    case True
    then show ?thesis
      using digit_char [of n] 1 by (simp add: nat_digits.simps [of n] digits_val_def)
  next
    case False
    with 1 have "(\<forall>c \<in> set (nat_digits (n div 10)). is_digit c)
        \<and> digits_val (nat_digits (n div 10)) = n div 10" by simp
    moreover have "10 * (n div 10) + n mod 10 = n" by (rule mult_div_mod_eq)
    ultimately show ?thesis
      using False digit_char [of "n mod 10"]
      by (simp add: nat_digits.simps [of n] digits_val_def)
  qed
qed

end
