(* ===== verification/PyFloat.thy ===== *)
theory PyFloat
  imports Prelude "HOL-Library.Log_Nat"
begin

text \<open>
  Python's numbers.  An \<open>int\<close> is unbounded.  A \<open>float\<close> is an IEEE 754 binary64 value: a
  finite one is the rational it denotes (\<open>-0.0\<close> and \<open>0.0\<close> are one value here, they differ
  in none of the operations the sources use), and every arithmetic operation rounds its exact
  result to nearest, ties to even, overflowing to an infinity.  The operations are those of the
  interpreter: true division of two ints is rounded once, mixed operands convert the int first
  (\<open>OverflowError\<close> if it does not fit), \<open>round\<close> is exact in decimal and ties to even, and
  \<open>sum\<close> is the compensated summation Python 3.13 uses.
\<close>

section \<open>Rounding to an integer, ties to even\<close>

definition rhe :: "rat \<Rightarrow> int" where
  "rhe x = (let f = \<lfloor>x\<rfloor>; d = x - of_int f in
     if d < 1 / 2 then f else if d > 1 / 2 then f + 1 else if even f then f else f + 1)"

lemma rhe_of_int [simp]: "rhe (of_int n) = n"
  by (simp add: rhe_def)

lemma rhe_numeral [simp]: "rhe 0 = 0" "rhe 1 = 1" "rhe (numeral k) = numeral k"
  using rhe_of_int [of 0] rhe_of_int [of 1] rhe_of_int [of "numeral k"] by simp_all

lemma rhe_bounds: "\<lfloor>x\<rfloor> \<le> rhe x \<and> rhe x \<le> \<lfloor>x\<rfloor> + 1"
  by (simp add: rhe_def Let_def)

lemma rhe_mono: "x \<le> y \<Longrightarrow> rhe x \<le> rhe y"
proof (cases "\<lfloor>x\<rfloor> = \<lfloor>y\<rfloor>")
  case True
  assume "x \<le> y"
  with True show ?thesis by (auto simp: rhe_def Let_def)
next
  case False
  assume "x \<le> y"
  with False have "\<lfloor>x\<rfloor> + 1 \<le> \<lfloor>y\<rfloor>"
    using floor_mono by fastforce
  with rhe_bounds [of x] rhe_bounds [of y] show ?thesis by linarith
qed

lemma rhe_le: "x \<le> of_int n \<Longrightarrow> rhe x \<le> n"
  using rhe_mono [of x "of_int n"] by simp

lemma rhe_ge: "of_int n \<le> x \<Longrightarrow> n \<le> rhe x"
  using rhe_mono [of "of_int n" x] by simp

lemma rhe_error: "\<bar>of_int (rhe x) - x\<bar> \<le> 1 / 2"
proof -
  have "of_int \<lfloor>x\<rfloor> \<le> x" "x < of_int \<lfloor>x\<rfloor> + 1"
    by linarith+
  then show ?thesis
    unfolding rhe_def Let_def by (simp split: if_splits)
qed

section \<open>The binary exponent of a positive rational\<close>

definition flog2 :: "rat \<Rightarrow> int" where
  "flog2 x = (let (p, q) = quotient_of x;
                  k = bitlen p - bitlen q in
              if 2 powi k \<le> x then k else k - 1)"

lemma bitlen_range:
  assumes "0 < n"
  shows "2 ^ (nat (bitlen n) - 1) \<le> n \<and> n < 2 ^ nat (bitlen n)" and "0 < bitlen n"
proof -
  show pos: "0 < bitlen n"
    using assms bitlen_nonneg [of n] bitlen_eq_zero_iff [of n] by linarith
  then show "2 ^ (nat (bitlen n) - 1) \<le> n \<and> n < 2 ^ nat (bitlen n)"
    using bitlen_bounds [OF assms] by (simp add: nat_diff_distrib)
qed

lemma powi_diff_nat:
  "(2::rat) powi (int a - int b) = 2 ^ a / 2 ^ b"
  by (simp add: power_int_diff)

lemma flog2_bounds:
  assumes "0 < x"
  shows "2 powi flog2 x \<le> x" and "x < 2 powi (flog2 x + 1)"
proof -
  obtain p q where pq: "quotient_of x = (p, q)" by force
  have q: "0 < q" using pq by (rule quotient_of_denom_pos)
  have x: "x = of_int p / of_int q" using pq by (rule quotient_of_div)
  have p: "0 < p" using assms x q by (simp add: zero_less_divide_iff)
  define a where "a = nat (bitlen p)"
  define b where "b = nat (bitlen q)"
  have ab: "0 < a" "0 < b" "bitlen p = int a" "bitlen q = int b"
    using bitlen_range(2) [OF p] bitlen_range(2) [OF q] by (simp_all add: a_def b_def)
  have "2 ^ (a - 1) \<le> p" "p < 2 ^ a" "2 ^ (b - 1) \<le> q" "q < 2 ^ b"
    using bitlen_range(1) [OF p] bitlen_range(1) [OF q] by (simp_all add: a_def b_def)
  then have bnd: "2 ^ (a - 1) \<le> rat_of_int p" "rat_of_int p < 2 ^ a"
      "2 ^ (b - 1) \<le> rat_of_int q" "rat_of_int q < 2 ^ b"
    by (metis of_int_le_iff of_int_less_iff of_int_numeral of_int_power)+
  have a2: "(2::rat) ^ a = 2 * 2 ^ (a - 1)" and b2: "(2::rat) ^ b = 2 * 2 ^ (b - 1)"
    using ab by (simp_all add: power_eq_if)
  have q0: "0 < rat_of_int q" using q by simp
  have "rat_of_int p * 2 ^ b < 2 ^ a * (2 * rat_of_int q)"
  proof -
    have "rat_of_int p * 2 ^ b < 2 ^ a * 2 ^ b" using bnd by simp
    also have "\<dots> = 2 ^ a * (2 * 2 ^ (b - 1))" by (simp add: b2)
    also have "\<dots> \<le> 2 ^ a * (2 * rat_of_int q)" using bnd by simp
    finally show ?thesis .
  qed
  then have up: "x < 2 * 2 powi (int a - int b)"
    using q0 by (simp add: x powi_diff_nat field_simps)
  have "2 ^ a * rat_of_int q < 2 * rat_of_int p * 2 ^ b"
  proof -
    have "2 ^ a * rat_of_int q < 2 ^ a * 2 ^ b" using bnd by simp
    also have "\<dots> = 2 * 2 ^ (a - 1) * 2 ^ b" by (simp add: a2)
    also have "\<dots> \<le> 2 * rat_of_int p * 2 ^ b" using bnd by simp
    finally show ?thesis .
  qed
  then have lo: "2 powi (int a - int b) < 2 * x"
    using q0 by (simp add: x powi_diff_nat field_simps)
  define k where "k = int a - int b"
  have fl: "flog2 x = (if 2 powi k \<le> x then k else k - 1)"
    by (simp add: flog2_def pq ab(3,4) k_def Let_def)
  have k1: "(2::rat) powi (k - 1) = 2 powi k / 2" and k2: "(2::rat) powi (k + 1) = 2 * 2 powi k"
    by (simp_all add: power_int_diff power_int_add)
  show "2 powi flog2 x \<le> x" and "x < 2 powi (flog2 x + 1)"
    using up lo by (auto simp: fl k1 k2 k_def [symmetric])
qed

lemma powi2_less_iff: "(2::rat) powi a < 2 powi b \<longleftrightarrow> a < b"
  using power_int_strict_increasing [of _ _ "2::rat"] by (metis linorder_neqE not_less_iff_gr_or_eq one_less_numeral_iff semiring_norm(76))

lemma powi2_le_iff: "(2::rat) powi a \<le> 2 powi b \<longleftrightarrow> a \<le> b"
  using powi2_less_iff [of b a] by (meson not_le)

lemma flog2_mono:
  assumes "0 < x" "x \<le> y"
  shows "flog2 x \<le> flog2 y"
proof -
  have "2 powi flog2 x < (2::rat) powi (flog2 y + 1)"
    using flog2_bounds(1) [of x] flog2_bounds(2) [of y] assms by linarith
  then show ?thesis by (simp add: powi2_less_iff)
qed

lemma flog2_unique:
  assumes "2 powi k \<le> x" "x < 2 powi (k + 1)"
  shows "flog2 x = k"
proof -
  have "0 < x" using assms(1) by (rule less_le_trans [rotated]) simp
  then have "k < flog2 x + 1" "flog2 x < k + 1"
    using flog2_bounds [of x] assms powi2_less_iff
    by (meson le_less_trans)+
  then show ?thesis by simp
qed

section \<open>Rounding to binary64\<close>

definition ulp_exp :: "rat \<Rightarrow> int" where
  "ulp_exp x = max (flog2 \<bar>x\<bar> - 52) (-1074)"

definition fl64 :: "rat \<Rightarrow> rat" where
  "fl64 x = (if x = 0 then 0 else of_int (rhe (x / 2 powi ulp_exp x)) * 2 powi ulp_exp x)"

text \<open>The values with at most 53 significant bits above the least subnormal.\<close>

definition representable :: "rat \<Rightarrow> bool" where
  "representable y \<longleftrightarrow> (\<exists>m e. y = of_int m * 2 powi e \<and> \<bar>m\<bar> \<le> 2 ^ 53 \<and> -1074 \<le> e)"

lemma representable_int: "\<bar>n\<bar> \<le> 2 ^ 53 \<Longrightarrow> representable (of_int n)"
  unfolding representable_def by (rule exI [of _ n], rule exI [of _ 0]) simp

lemma representable_powi: "-1074 \<le> k \<Longrightarrow> representable (2 powi k)"
  unfolding representable_def by (rule exI [of _ 1], rule exI [of _ k]) simp

lemma ulp_exp_ge: "-1074 \<le> ulp_exp x"
  by (simp add: ulp_exp_def)

lemma powi2_pos [simp]: "0 < (2::rat) powi k"
  by simp

lemma powi2_shift: "a \<le> b \<Longrightarrow> (2::rat) powi b = of_int (2 ^ nat (b - a)) * 2 powi a"
proof -
  assume "a \<le> b"
  then have "(2::rat) powi (b - a) = 2 ^ nat (b - a)"
    by (simp add: power_int_def)
  moreover have "(2::rat) powi b = 2 powi (b - a) * 2 powi a"
    using power_int_add [of "2::rat" "b - a" a] by simp
  ultimately show ?thesis by simp
qed

lemma fl64_nonzero:
  "x \<noteq> 0 \<Longrightarrow> fl64 x = of_int (rhe (x / 2 powi ulp_exp x)) * 2 powi ulp_exp x"
  by (simp add: fl64_def)

lemma fl64_le_mult:
  assumes "x \<noteq> 0" "x \<le> of_int n * 2 powi ulp_exp x"
  shows "fl64 x \<le> of_int n * 2 powi ulp_exp x"
proof -
  have "x / 2 powi ulp_exp x \<le> of_int n"
    by (subst pos_divide_le_eq) (simp, rule assms(2))
  then have "rat_of_int (rhe (x / 2 powi ulp_exp x)) \<le> of_int n"
    by (subst of_int_le_iff) (rule rhe_le)
  then show ?thesis
    unfolding fl64_nonzero [OF assms(1)] by (rule mult_right_mono) (simp add: less_imp_le)
qed

lemma fl64_ge_mult:
  assumes "x \<noteq> 0" "of_int n * 2 powi ulp_exp x \<le> x"
  shows "of_int n * 2 powi ulp_exp x \<le> fl64 x"
proof -
  have "of_int n \<le> x / 2 powi ulp_exp x"
    by (subst pos_le_divide_eq) (simp, rule assms(2))
  then have "rat_of_int n \<le> of_int (rhe (x / 2 powi ulp_exp x))"
    by (subst of_int_le_iff) (rule rhe_ge)
  then show ?thesis
    unfolding fl64_nonzero [OF assms(1)] by (rule mult_right_mono) (simp add: less_imp_le)
qed

lemma representable_boundary:
  assumes "\<bar>m\<bar> \<le> 2 ^ 53" "e < u"
  shows "of_int m * 2 powi e \<le> of_int (2 ^ 52) * (2::rat) powi u"
proof -
  have "m \<le> 2 ^ 53" using assms(1) by simp
  then have "rat_of_int m \<le> of_int (2 ^ 53)" by (subst of_int_le_iff)
  then have "of_int m * (2::rat) powi e \<le> of_int (2 ^ 53) * 2 powi e"
    by (rule mult_right_mono) (simp add: less_imp_le)
  also have "\<dots> = of_int (2 ^ 52) * 2 powi (e + 1)" by (simp add: power_int_add)
  also have "\<dots> \<le> of_int (2 ^ 52) * 2 powi u"
    by (rule mult_left_mono) (use assms(2) powi2_le_iff in simp_all)
  finally show ?thesis .
qed

lemma fl64_normal_lower:
  assumes "0 < x" "-1074 < ulp_exp x"
  shows "of_int (2 ^ 52) * 2 powi ulp_exp x \<le> x"
proof -
  have u: "ulp_exp x = flog2 x - 52" using assms by (auto simp: ulp_exp_def)
  have "of_int (2 ^ 52) * (2::rat) powi (flog2 x - 52) = 2 powi flog2 x"
    using powi2_shift [of "flog2 x - 52" "flog2 x"] by simp
  then show ?thesis using flog2_bounds(1) [OF assms(1)] by (simp add: u)
qed

lemma fl64_le_representable:
  assumes "0 < x" "x \<le> y" "representable y"
  shows "fl64 x \<le> y"
proof -
  obtain m e where y: "y = of_int m * 2 powi e" "\<bar>m\<bar> \<le> 2 ^ 53" "-1074 \<le> e"
    using assms(3) unfolding representable_def by blast
  have x0: "x \<noteq> 0" using assms(1) by simp
  show ?thesis
  proof (cases "ulp_exp x \<le> e")
    case True
    have yu: "y = of_int (m * 2 ^ nat (e - ulp_exp x)) * 2 powi ulp_exp x"
      unfolding y(1) powi2_shift [OF True] by simp
    show ?thesis
      using assms(2) unfolding yu by (rule fl64_le_mult [OF x0])
  next
    case False
    then have "of_int (2 ^ 52) * 2 powi ulp_exp x \<le> x" "y \<le> of_int (2 ^ 52) * 2 powi ulp_exp x"
      using fl64_normal_lower [OF assms(1)] y representable_boundary [OF y(2)] by simp_all
    with assms(2) have "x = of_int (2 ^ 52) * 2 powi ulp_exp x" "y = x" by linarith+
    then show ?thesis using fl64_le_mult [OF x0, of "2 ^ 52"] by linarith
  qed
qed

lemma fl64_ge_representable:
  assumes "0 < x" "y \<le> x" "representable y"
  shows "y \<le> fl64 x"
proof -
  obtain m e where y: "y = of_int m * 2 powi e" "\<bar>m\<bar> \<le> 2 ^ 53" "-1074 \<le> e"
    using assms(3) unfolding representable_def by blast
  have x0: "x \<noteq> 0" using assms(1) by simp
  show ?thesis
  proof (cases "ulp_exp x \<le> e")
    case True
    have yu: "y = of_int (m * 2 ^ nat (e - ulp_exp x)) * 2 powi ulp_exp x"
      unfolding y(1) powi2_shift [OF True] by simp
    show ?thesis
      using assms(2) unfolding yu by (rule fl64_ge_mult [OF x0])
  next
    case False
    then have "of_int (2 ^ 52) * 2 powi ulp_exp x \<le> x" "y \<le> of_int (2 ^ 52) * 2 powi ulp_exp x"
      using fl64_normal_lower [OF assms(1)] y representable_boundary [OF y(2)] by simp_all
    then show ?thesis using fl64_ge_mult [OF x0, of "2 ^ 52"] by linarith
  qed
qed

lemma rhe_minus: "rhe (- x) = - rhe x"
proof (cases "x = of_int \<lfloor>x\<rfloor>")
  case True
  then show ?thesis by (metis of_int_minus rhe_of_int)
next
  case False
  then have "\<lfloor>- x\<rfloor> = - \<lfloor>x\<rfloor> - 1" by linarith
  then show ?thesis by (auto simp: rhe_def Let_def)
qed

lemma fl64_minus: "fl64 (- x) = - fl64 x"
  by (simp add: fl64_def ulp_exp_def rhe_minus)

lemma fl64_zero [simp]: "fl64 0 = 0"
  by (simp add: fl64_def)

lemma fl64_nonneg: "0 \<le> x \<Longrightarrow> 0 \<le> fl64 x"
  using fl64_ge_representable [of x 0] representable_int [of 0] by (cases "x = 0") auto

lemma fl64_mono_pos:
  assumes "0 < x" "x \<le> y"
  shows "fl64 x \<le> fl64 y"
proof (cases "ulp_exp x = ulp_exp y")
  case True
  have "rhe (x / 2 powi ulp_exp x) \<le> rhe (y / 2 powi ulp_exp x)"
    by (rule rhe_mono) (use assms in \<open>simp add: divide_right_mono\<close>)
  then have "rat_of_int (rhe (x / 2 powi ulp_exp x)) \<le> of_int (rhe (y / 2 powi ulp_exp x))"
    by (subst of_int_le_iff)
  then have "of_int (rhe (x / 2 powi ulp_exp x)) * (2::rat) powi ulp_exp x
      \<le> of_int (rhe (y / 2 powi ulp_exp x)) * 2 powi ulp_exp x"
    by (rule mult_right_mono) (simp add: less_imp_le)
  with True assms show ?thesis
    using fl64_nonzero [of x] fl64_nonzero [of y] by simp
next
  case False
  have fl: "flog2 x \<le> flog2 y" using flog2_mono assms by blast
  with False assms have k: "flog2 x < flog2 y" "-1074 \<le> flog2 y"
    by (auto simp: ulp_exp_def)
  have "x \<le> 2 powi flog2 y"
  proof -
    have "x < 2 powi (flog2 x + 1)" using flog2_bounds assms by blast
    also have "\<dots> \<le> 2 powi flog2 y" using k by (subst powi2_le_iff) simp
    finally show ?thesis by simp
  qed
  then have "fl64 x \<le> 2 powi flog2 y"
    using fl64_le_representable assms representable_powi k by blast
  also have "\<dots> \<le> fl64 y"
    using fl64_ge_representable [of y] flog2_bounds(1) [of y] representable_powi k assms by simp
  finally show ?thesis .
qed

lemma fl64_mono:
  assumes "x \<le> y"
  shows "fl64 x \<le> fl64 y"
proof -
  consider "0 < x" | "x \<le> 0" "0 \<le> y" | "y < 0" using assms by linarith
  then show ?thesis
  proof cases
    case 1
    with assms show ?thesis by (intro fl64_mono_pos)
  next
    case 2
    then have "0 \<le> fl64 (- x)" "0 \<le> fl64 y" using fl64_nonneg by simp_all
    then show ?thesis by (simp add: fl64_minus)
  next
    case 3
    with assms have "fl64 (- y) \<le> fl64 (- x)" by (intro fl64_mono_pos) auto
    then show ?thesis by (simp add: fl64_minus)
  qed
qed

lemma fl64_representable:
  assumes "representable x"
  shows "fl64 x = x"
proof -
  have pos: "fl64 z = z" if "0 < z" "representable z" for z
    using fl64_le_representable [of z z] fl64_ge_representable [of z z] that by simp
  obtain m e where "x = of_int m * 2 powi e" "\<bar>m\<bar> \<le> 2 ^ 53" "-1074 \<le> e"
    using assms unfolding representable_def by blast
  then have "- x = of_int (- m) * 2 powi e" "\<bar>- m\<bar> \<le> 2 ^ 53" by simp_all
  with \<open>-1074 \<le> e\<close> have neg: "representable (- x)"
    unfolding representable_def by blast
  consider "0 < x" | "x = 0" | "0 < - x" by linarith
  then show ?thesis
    by cases (use pos [of x] pos [of "- x"] neg assms in \<open>simp_all add: fl64_minus\<close>)
qed

lemma fl64_int: "\<bar>n\<bar> \<le> 2 ^ 53 \<Longrightarrow> fl64 (of_int n) = of_int n"
  by (rule fl64_representable) (rule representable_int)

section \<open>The type \<open>float\<close>\<close>

datatype pyfloat = Fin rat | PosInf | NegInf | NaN

text \<open>A rounded value of magnitude \<open>2 ^ 1024\<close> or more overflows.\<close>

definition float_overflows :: "rat \<Rightarrow> bool" where
  "float_overflows y = (y \<noteq> 0 \<and> 1024 \<le> flog2 \<bar>y\<bar>)"

definition to_float :: "rat \<Rightarrow> pyfloat" where
  "to_float x = (let y = fl64 x in
     if float_overflows y then (if y > 0 then PosInf else NegInf) else Fin y)"

fun float_neg :: "pyfloat \<Rightarrow> pyfloat" where
  "float_neg (Fin a) = Fin (- a)"
| "float_neg PosInf = NegInf"
| "float_neg NegInf = PosInf"
| "float_neg NaN = NaN"

fun float_add :: "pyfloat \<Rightarrow> pyfloat \<Rightarrow> pyfloat" where
  "float_add (Fin a) (Fin b) = to_float (a + b)"
| "float_add NaN _ = NaN"
| "float_add _ NaN = NaN"
| "float_add PosInf NegInf = NaN"
| "float_add NegInf PosInf = NaN"
| "float_add PosInf _ = PosInf"
| "float_add _ PosInf = PosInf"
| "float_add NegInf _ = NegInf"
| "float_add _ NegInf = NegInf"

definition float_sub :: "pyfloat \<Rightarrow> pyfloat \<Rightarrow> pyfloat" where
  "float_sub x y = float_add x (float_neg y)"

definition inf_of_sign :: "rat \<Rightarrow> pyfloat" where
  "inf_of_sign a = (if a > 0 then PosInf else if a < 0 then NegInf else NaN)"

fun float_sign :: "pyfloat \<Rightarrow> rat" where
  "float_sign (Fin a) = sgn a"
| "float_sign PosInf = 1"
| "float_sign NegInf = -1"
| "float_sign NaN = 0"

fun float_mul :: "pyfloat \<Rightarrow> pyfloat \<Rightarrow> pyfloat" where
  "float_mul (Fin a) (Fin b) = to_float (a * b)"
| "float_mul NaN _ = NaN"
| "float_mul _ NaN = NaN"
| "float_mul x y = inf_of_sign (float_sign x * float_sign y)"

fun float_div :: "pyfloat \<Rightarrow> pyfloat \<Rightarrow> builtin_error + pyfloat" where
  "float_div x (Fin b) =
     (if b = 0 then Inl ZeroDivisionError
      else Inr (case x of Fin a \<Rightarrow> to_float (a / b) | NaN \<Rightarrow> NaN
                | y \<Rightarrow> inf_of_sign (float_sign y * sgn b)))"
| "float_div x NaN = Inr NaN"
| "float_div x y = Inr (case x of Fin a \<Rightarrow> Fin 0 | _ \<Rightarrow> NaN)"

fun float_less :: "pyfloat \<Rightarrow> pyfloat \<Rightarrow> bool" where
  "float_less (Fin a) (Fin b) = (a < b)"
| "float_less NaN _ = False"
| "float_less _ NaN = False"
| "float_less PosInf _ = False"
| "float_less _ PosInf = True"
| "float_less _ NegInf = False"
| "float_less NegInf _ = True"

fun float_finite :: "pyfloat \<Rightarrow> bool" where
  "float_finite (Fin _) = True"
| "float_finite _ = False"

section \<open>Numbers: \<open>int\<close> or \<open>float\<close>\<close>

datatype pynum = NInt int | NFloat pyfloat

text \<open>The exact value, for comparisons: Python compares an int with a float exactly.\<close>

fun num_exact :: "pynum \<Rightarrow> pyfloat" where
  "num_exact (NInt i) = Fin (of_int i)"
| "num_exact (NFloat x) = x"

definition num_less :: "pynum \<Rightarrow> pynum \<Rightarrow> bool" where
  "num_less x y = float_less (num_exact x) (num_exact y)"

definition num_eq :: "pynum \<Rightarrow> pynum \<Rightarrow> bool" where
  "num_eq x y = (num_exact x = num_exact y \<and> num_exact x \<noteq> NaN)"

definition num_le :: "pynum \<Rightarrow> pynum \<Rightarrow> bool" where
  "num_le x y = (num_less x y \<or> num_eq x y)"

text \<open>\<open>float(x)\<close>: an int too large for a float raises.\<close>

fun num_float :: "pynum \<Rightarrow> builtin_error + pyfloat" where
  "num_float (NInt i) =
     (case to_float (of_int i) of Fin y \<Rightarrow> Inr (Fin y) | _ \<Rightarrow> Inl OverflowError)"
| "num_float (NFloat x) = Inr x"

definition num_lift ::
  "(int \<Rightarrow> int \<Rightarrow> int) \<Rightarrow> (pyfloat \<Rightarrow> pyfloat \<Rightarrow> pyfloat) \<Rightarrow> pynum \<Rightarrow> pynum
    \<Rightarrow> builtin_error + pynum" where
  "num_lift fi ff x y =
     (case (x, y) of (NInt a, NInt b) \<Rightarrow> Inr (NInt (fi a b))
      | _ \<Rightarrow> res_bind (num_float x) (\<lambda>a. res_map (\<lambda>b. NFloat (ff a b)) (num_float y)))"

definition num_add :: "pynum \<Rightarrow> pynum \<Rightarrow> builtin_error + pynum" where
  "num_add = num_lift (+) float_add"

definition num_sub :: "pynum \<Rightarrow> pynum \<Rightarrow> builtin_error + pynum" where
  "num_sub = num_lift (-) float_sub"

definition num_mul :: "pynum \<Rightarrow> pynum \<Rightarrow> builtin_error + pynum" where
  "num_mul = num_lift (*) float_mul"

text \<open>\<open>x / y\<close>: the quotient of two ints is correctly rounded.\<close>

definition num_div :: "pynum \<Rightarrow> pynum \<Rightarrow> builtin_error + pynum" where
  "num_div x y =
     (case (x, y) of
        (NInt a, NInt b) \<Rightarrow>
          (if b = 0 then Inl ZeroDivisionError
           else (case to_float (of_int a / of_int b) of
                   Fin q \<Rightarrow> Inr (NFloat (Fin q)) | _ \<Rightarrow> Inl OverflowError))
      | _ \<Rightarrow> res_bind (num_float x) (\<lambda>a. res_bind (num_float y)
               (\<lambda>b. res_map NFloat (float_div a b))))"

text \<open>\<open>round(x)\<close>, \<open>round(x, n)\<close> for \<open>n \<ge> 0\<close>, and \<open>int(x)\<close>.\<close>

fun num_round :: "pynum \<Rightarrow> builtin_error + int" where
  "num_round (NInt i) = Inr i"
| "num_round (NFloat (Fin q)) = Inr (rhe q)"
| "num_round (NFloat NaN) = Inl ValueError"
| "num_round (NFloat _) = Inl OverflowError"

text \<open>
  Decimal rounding cannot overflow for \<open>n \<ge> 0\<close>: a float of magnitude \<open>2 ^ 53\<close> or more is
  an integer and rounds to itself.
\<close>

fun float_round_to :: "nat \<Rightarrow> pyfloat \<Rightarrow> pyfloat" where
  "float_round_to n (Fin q) = to_float (of_int (rhe (q * 10 ^ n)) / 10 ^ n)"
| "float_round_to n x = x"

fun num_round_to :: "nat \<Rightarrow> pynum \<Rightarrow> pynum" where
  "num_round_to n (NInt i) = NInt i"
| "num_round_to n (NFloat x) = NFloat (float_round_to n x)"

definition rat_trunc :: "rat \<Rightarrow> int" where
  "rat_trunc q = (if q < 0 then \<lceil>q\<rceil> else \<lfloor>q\<rfloor>)"

fun num_int :: "pynum \<Rightarrow> builtin_error + int" where
  "num_int (NInt i) = Inr i"
| "num_int (NFloat (Fin q)) = Inr (rat_trunc q)"
| "num_int (NFloat NaN) = Inl ValueError"
| "num_int (NFloat _) = Inl OverflowError"

definition num_finite :: "pynum \<Rightarrow> bool" where
  "num_finite x = (case num_float x of Inr y \<Rightarrow> float_finite y | Inl _ \<Rightarrow> False)"

section \<open>\<open>sum\<close>\<close>

text \<open>
  \<open>sum\<close> adds ints exactly while they fit a C \<open>long\<close>; from the first float on it keeps the
  running sum and a correction term; an int beyond \<open>long\<close> ends either phase, after which
  the items are added one by one.
\<close>

definition fits_long :: "int \<Rightarrow> bool" where
  "fits_long i = (- (2 ^ 63) \<le> i \<and> i < 2 ^ 63)"

definition sum_generic :: "pynum \<Rightarrow> pynum list \<Rightarrow> builtin_error + pynum" where
  "sum_generic r xs = res_fold (\<lambda>x acc. num_add acc x) xs r"

definition float_abs_le :: "pyfloat \<Rightarrow> pyfloat \<Rightarrow> bool" where
  "float_abs_le x y =
     (case (x, y) of (Fin a, Fin b) \<Rightarrow> \<bar>a\<bar> \<le> \<bar>b\<bar>
      | (NaN, _) \<Rightarrow> False | (_, NaN) \<Rightarrow> False | (_, Fin _) \<Rightarrow> False | _ \<Rightarrow> True)"

definition cs_add :: "pyfloat \<times> pyfloat \<Rightarrow> pyfloat \<Rightarrow> pyfloat \<times> pyfloat" where
  "cs_add s x = (case s of (hi, lo) \<Rightarrow>
     let t = float_add hi x in
     (t, float_add lo (if float_abs_le x hi then float_add (float_sub hi t) x
                       else float_add (float_sub x t) hi)))"

definition cs_result :: "pyfloat \<times> pyfloat \<Rightarrow> pyfloat" where
  "cs_result s = (case s of (hi, lo) \<Rightarrow>
     if lo \<noteq> Fin 0 \<and> float_finite lo then float_add hi lo else hi)"

fun sum_float :: "pyfloat \<times> pyfloat \<Rightarrow> pynum list \<Rightarrow> builtin_error + pynum" where
  "sum_float s [] = Inr (NFloat (cs_result s))"
| "sum_float s (NFloat x # xs) = sum_float (cs_add s x) xs"
| "sum_float s (NInt i # xs) =
     (if fits_long i then sum_float (float_add (fst s) (Fin (fl64 (of_int i))), snd s) xs
      else sum_generic (NFloat (cs_result s)) (NInt i # xs))"

fun sum_int :: "int \<Rightarrow> pynum list \<Rightarrow> builtin_error + pynum" where
  "sum_int r [] = Inr (NInt r)"
| "sum_int r (NInt i # xs) =
     (if fits_long i \<and> fits_long (r + i) then sum_int (r + i) xs
      else sum_generic (NInt r) (NInt i # xs))"
| "sum_int r (NFloat x # xs) =
     res_bind (num_add (NInt r) (NFloat x))
       (\<lambda>s. case s of NFloat y \<Rightarrow> sum_float (y, Fin 0) xs | NInt _ \<Rightarrow> sum_generic s xs)"

definition py_sum :: "pynum list \<Rightarrow> builtin_error + pynum" where
  "py_sum xs = sum_int 0 xs"

text \<open>\<open>sum(xs) / len(xs)\<close>.\<close>

definition py_mean :: "pynum list \<Rightarrow> builtin_error + pynum" where
  "py_mean xs = res_bind (py_sum xs) (\<lambda>s. num_div s (NInt (int (length xs))))"

section \<open>Bounds on rounded results\<close>

lemma flog2_less:
  assumes "0 < y" "y < 2 powi k"
  shows "flog2 y < k"
  using flog2_bounds(1) [OF assms(1)] assms(2) powi2_less_iff by (meson le_less_trans)

lemma not_float_overflows: "\<bar>y\<bar> < 2 powi 1024 \<Longrightarrow> \<not> float_overflows y"
  using flog2_less [of "\<bar>y\<bar>" 1024] by (auto simp: float_overflows_def)

lemma to_float_Fin: "\<bar>fl64 x\<bar> < 2 powi 1024 \<Longrightarrow> to_float x = Fin (fl64 x)"
  by (simp add: to_float_def not_float_overflows)

lemma powi_1024_large: "(2::rat) ^ 53 < 2 powi 1024"
  using powi2_less_iff [of 53 1024] by (simp add: power_int_def)

lemma to_float_bounded:
  assumes "of_int (- (2 ^ 53)) \<le> x" "x \<le> of_int (2 ^ 53)"
  shows "to_float x = Fin (fl64 x)"
proof -
  have "of_int (- (2 ^ 53)) \<le> fl64 x" "fl64 x \<le> of_int (2 ^ 53)"
    using fl64_mono [OF assms(1)] fl64_mono [OF assms(2)] fl64_int [of "- (2 ^ 53)"] fl64_int [of "2 ^ 53"]
    by (simp_all del: of_int_minus of_int_power of_int_numeral)
  then have "\<bar>fl64 x\<bar> \<le> 2 ^ 53" by simp
  then show ?thesis using powi_1024_large by (intro to_float_Fin) linarith
qed

lemma to_float_int: "\<bar>n\<bar> \<le> 2 ^ 53 \<Longrightarrow> to_float (of_int n) = Fin (of_int n)"
proof -
  assume n: "\<bar>n\<bar> \<le> 2 ^ 53"
  then have "- (2 ^ 53) \<le> n" "n \<le> 2 ^ 53" by linarith+
  then have "of_int (- (2 ^ 53)) \<le> rat_of_int n" "rat_of_int n \<le> of_int (2 ^ 53)"
    by (simp_all only: of_int_le_iff)
  then show ?thesis using to_float_bounded fl64_int [OF n] by metis
qed

text \<open>
  What the percentage computations rely on: a rounding that is monotone and exact on the ints
  up to 100.
\<close>

locale rounding =
  fixes rnd :: "rat \<Rightarrow> rat"
  assumes rnd_mono: "x \<le> y \<Longrightarrow> rnd x \<le> rnd y"
    and rnd_exact: "0 \<le> n \<Longrightarrow> n \<le> 100 \<Longrightarrow> rnd (of_int n) = of_int n"
begin

lemma rnd_between:
  assumes "of_int l \<le> x" "x \<le> of_int u" "0 \<le> l" "u \<le> 100" "l \<le> u"
  shows "of_int l \<le> rnd x \<and> rnd x \<le> of_int u"
  using rnd_mono [OF assms(1)] rnd_mono [OF assms(2)] rnd_exact [of l] rnd_exact [of u] assms
  by auto

lemma ratio_bounds:
  assumes "0 \<le> a" "a \<le> b" "0 < b"
  shows "0 \<le> rnd (of_int a / of_int b) \<and> rnd (of_int a / of_int b) \<le> 1"
  using rnd_between [of 0 "of_int a / of_int b" 1] assms by simp

lemma percent_bounds:
  assumes "0 \<le> q" "q \<le> 1"
  shows "0 \<le> rnd (q * 100) \<and> rnd (q * 100) \<le> 100"
  using rnd_between [of 0 "q * 100" 100] assms by simp

lemma percent_mono: "p \<le> q \<Longrightarrow> rnd (rnd p * 100) \<le> rnd (rnd q * 100)"
  by (intro rnd_mono mult_right_mono) simp_all

end

interpretation b64: rounding fl64
  by unfold_locales (simp_all add: fl64_mono fl64_int)

text \<open>\<open>round((b - a) / b * 100)\<close>-like expressions never raise on a part of a whole.\<close>

lemma num_div_part:
  assumes "0 \<le> a" "a \<le> b" "0 < b"
  shows "num_div (NInt a) (NInt b) = Inr (NFloat (Fin (fl64 (of_int a / of_int b))))"
proof -
  have "0 \<le> rat_of_int a / of_int b" "rat_of_int a / of_int b \<le> 1" using assms by simp_all
  then have "to_float (of_int a / of_int b) = Fin (fl64 (of_int a / of_int b))"
    by (intro to_float_bounded) auto
  with assms show ?thesis by (simp add: num_div_def)
qed

lemma num_mul_100:
  assumes "0 \<le> q" "q \<le> 1"
  shows "num_mul (NFloat (Fin q)) (NInt 100) = Inr (NFloat (Fin (fl64 (q * 100))))"
proof -
  have "to_float (of_int 100) = Fin (of_int 100)" by (rule to_float_int) simp
  moreover have "to_float (q * 100) = Fin (fl64 (q * 100))"
    by (rule to_float_bounded) (use assms in auto)
  ultimately show ?thesis by (simp add: num_mul_def num_lift_def)
qed

end
