(* ===== verification/PyValue.thy ===== *)
theory PyValue
  imports PyFloat
begin

text \<open>
  The values the library handles: what \<open>json.loads\<close> produces, plus the UTC \<open>datetime\<close>s
  the normalizer converts timestamps into (\<open>PDate\<close>, in microseconds since the epoch).  A
  dictionary is the list of its items in insertion order, and looks a key up by Python's key
  equality (\<open>1\<close>, \<open>1.0\<close> and \<open>True\<close> are one key).  Values are immutable here: where
  the code mutates a dictionary in place, the model returns the new one, so \<open>copy.deepcopy\<close>
  is the identity.
\<close>

datatype pyval =
    PNone
  | PBool bool
  | PInt int
  | PFloat pyfloat
  | PStr string
  | PDate int
  | PList "pyval list"
  | PDict "(pyval \<times> pyval) list"

type_synonym pydict = "(pyval \<times> pyval) list"

section \<open>Classes of values\<close>

fun is_dict :: "pyval \<Rightarrow> bool" where
  "is_dict (PDict _) = True"
| "is_dict _ = False"

fun is_list :: "pyval \<Rightarrow> bool" where
  "is_list (PList _) = True"
| "is_list _ = False"

fun is_str :: "pyval \<Rightarrow> bool" where
  "is_str (PStr _) = True"
| "is_str _ = False"

text \<open>\<open>isinstance(v, Hashable)\<close>: every value but a list or a dictionary.\<close>

fun hashable :: "pyval \<Rightarrow> bool" where
  "hashable (PList _) = False"
| "hashable (PDict _) = False"
| "hashable _ = True"

text \<open>\<open>bool(v)\<close>.\<close>

fun truthy :: "pyval \<Rightarrow> bool" where
  "truthy PNone = False"
| "truthy (PBool b) = b"
| "truthy (PInt i) = (i \<noteq> 0)"
| "truthy (PFloat x) = (x \<noteq> Fin 0)"
| "truthy (PStr s) = (s \<noteq> [])"
| "truthy (PDate _) = True"
| "truthy (PList xs) = (xs \<noteq> [])"
| "truthy (PDict d) = (d \<noteq> [])"

text \<open>The value as a number, for \<open>isinstance(v, (int, float)) and not isinstance(v, bool)\<close>.\<close>

fun as_num :: "pyval \<Rightarrow> pynum option" where
  "as_num (PInt i) = Some (NInt i)"
| "as_num (PFloat x) = Some (NFloat x)"
| "as_num _ = None"

fun of_num :: "pynum \<Rightarrow> pyval" where
  "of_num (NInt i) = PInt i"
| "of_num (NFloat x) = PFloat x"

text \<open>For \<open>isinstance(v, (int, float))\<close> alone, where a \<open>bool\<close> is the int 0 or 1.\<close>

fun as_num_bool :: "pyval \<Rightarrow> pynum option" where
  "as_num_bool (PBool b) = Some (NInt (if b then 1 else 0))"
| "as_num_bool v = as_num v"

lemma as_num_of_num [simp]: "as_num (of_num n) = Some n"
  by (cases n) auto

lemma hashable_simps [simp]: "hashable v \<longleftrightarrow> \<not> is_list v \<and> \<not> is_dict v"
  by (cases v) auto

lemma is_dict_iff: "is_dict v \<longleftrightarrow> (\<exists>d. v = PDict d)"
  by (cases v) auto

section \<open>Keys and equality\<close>

text \<open>
  Two hashable values are one dictionary key iff they have one \<open>key_norm\<close>: numbers by value,
  everything else by itself.
\<close>

fun key_norm :: "pyval \<Rightarrow> pyval" where
  "key_norm (PBool b) = PInt (if b then 1 else 0)"
| "key_norm (PFloat (Fin q)) = (if q = of_int \<lfloor>q\<rfloor> then PInt \<lfloor>q\<rfloor> else PFloat (Fin q))"
| "key_norm v = v"

definition same_key :: "pyval \<Rightarrow> pyval \<Rightarrow> bool" where
  "same_key a b = (key_norm a = key_norm b)"

lemma key_norm_str [simp]: "key_norm v = PStr s \<longleftrightarrow> v = PStr s"
  by (cases v rule: key_norm.cases) auto

lemma key_norm_idem [simp]: "key_norm (key_norm v) = key_norm v"
  by (cases v rule: key_norm.cases) auto

lemma same_key_equivp: "equivp same_key"
  by (rule equivpI) (auto simp: same_key_def reflp_def symp_def transp_def)

lemma same_key_refl [simp]: "same_key a a"
  by (simp add: same_key_def)

lemma same_key_sym: "same_key a b \<longleftrightarrow> same_key b a"
  by (auto simp: same_key_def)

lemma same_key_str [simp]:
  "same_key (PStr s) (PStr t) \<longleftrightarrow> s = t"
  "same_key v (PStr t) \<longleftrightarrow> v = PStr t"
  "same_key (PStr t) v \<longleftrightarrow> v = PStr t"
  by (auto simp: same_key_def) (metis key_norm_str)

section \<open>Dictionaries\<close>

fun dget :: "pydict \<Rightarrow> pyval \<Rightarrow> pyval option" where
  "dget [] k = None"
| "dget ((k', v) # d) k = (if same_key k' k then Some v else dget d k)"

text \<open>\<open>d[k] = v\<close>: an existing item keeps its place (and its key), a new one comes last.\<close>

fun dset :: "pydict \<Rightarrow> pyval \<Rightarrow> pyval \<Rightarrow> pydict" where
  "dset [] k v = [(k, v)]"
| "dset ((k', w) # d) k v = (if same_key k' k then (k', v) # d else (k', w) # dset d k v)"

definition ddel :: "pydict \<Rightarrow> pyval \<Rightarrow> pydict" where
  "ddel d k = filter (\<lambda>(k', _). \<not> same_key k' k) d"

definition has_key :: "pydict \<Rightarrow> pyval \<Rightarrow> bool" where
  "has_key d k = (dget d k \<noteq> None)"

text \<open>No two items of one key: what every Python dictionary satisfies.\<close>

definition dict_ok :: "pydict \<Rightarrow> bool" where
  "dict_ok d = distinct (map (key_norm \<circ> fst) d)"

text \<open>Access by a string key, as in \<open>entry["name"]\<close> and \<open>entry.get("name")\<close>.\<close>

abbreviation sget :: "pydict \<Rightarrow> string \<Rightarrow> pyval option" where
  "sget d s \<equiv> dget d (PStr s)"

abbreviation sset :: "pydict \<Rightarrow> string \<Rightarrow> pyval \<Rightarrow> pydict" where
  "sset d s v \<equiv> dset d (PStr s) v"

definition get_or :: "pydict \<Rightarrow> string \<Rightarrow> pyval \<Rightarrow> pyval" where
  "get_or d s v = (case sget d s of Some w \<Rightarrow> w | None \<Rightarrow> v)"

text \<open>\<open>v.get(s)\<close> where \<open>v\<close> is a dictionary, \<open>None\<close> for anything else.\<close>

fun field :: "pyval \<Rightarrow> string \<Rightarrow> pyval" where
  "field (PDict d) s = get_or d s PNone"
| "field _ s = PNone"

lemma dget_dset [simp, dict_simps]:
  "dget (dset d k v) k' = (if same_key k k' then Some v else dget d k')"
  by (induction d k v rule: dset.induct) (auto simp: same_key_def)

lemma dget_ddel [simp, dict_simps]:
  "dget (ddel d k) k' = (if same_key k k' then None else dget d k')"
  by (induction d) (auto simp: ddel_def same_key_def)

lemma dget_same_key: "same_key k k' \<Longrightarrow> dget d k = dget d k'"
  by (induction d) (auto simp: same_key_def)

lemma dget_None_iff: "dget d k = None \<longleftrightarrow> key_norm k \<notin> set (map (key_norm \<circ> fst) d)"
  by (induction d) (auto simp: same_key_def split: if_splits)

lemma has_key_iff: "has_key d k \<longleftrightarrow> (\<exists>k' \<in> fst ` set d. same_key k' k)"
  unfolding has_key_def dget_None_iff by (force simp: same_key_def)

lemma dget_SomeD: "dget d k = Some v \<Longrightarrow> \<exists>k'. (k', v) \<in> set d \<and> same_key k' k"
  by (induction d) (auto split: if_splits)

lemma dset_keys:
  "set (map (key_norm \<circ> fst) (dset d k v)) = insert (key_norm k) (set (map (key_norm \<circ> fst) d))"
  by (induction d k v rule: dset.induct) (auto simp: same_key_def)

lemma dict_ok_dset: "dict_ok d \<Longrightarrow> dict_ok (dset d k v)"
proof (induction d k v rule: dset.induct)
  case (1 k v)
  then show ?case by (simp add: dict_ok_def)
next
  case (2 k' w d k v)
  show ?case
  proof (cases "same_key k' k")
    case True
    with 2 show ?thesis by (simp add: dict_ok_def)
  next
    case False
    with 2 have "dict_ok (dset d k v)" by (simp add: dict_ok_def)
    with False 2 show ?thesis
      using dset_keys [of d k v] by (auto simp: dict_ok_def same_key_def)
  qed
qed

lemma dict_ok_ddel: "dict_ok d \<Longrightarrow> dict_ok (ddel d k)"
  by (auto simp: dict_ok_def ddel_def distinct_map_filter)

lemma dict_ok_lookup: "dict_ok d \<Longrightarrow> (k, v) \<in> set d \<Longrightarrow> dget d k = Some v"
proof (induction d)
  case Nil
  then show ?case by simp
next
  case (Cons e d)
  show ?case
  proof (cases "e = (k, v)")
    case True
    then show ?thesis by simp
  next
    case False
    with Cons.prems have mem: "(k, v) \<in> set d" and ok: "dict_ok d"
      by (auto simp: dict_ok_def)
    have "key_norm k \<in> (key_norm \<circ> fst) ` set d"
      by (rule rev_image_eqI [OF mem]) simp
    moreover have "key_norm (fst e) \<notin> (key_norm \<circ> fst) ` set d"
      using Cons.prems(1) by (simp add: dict_ok_def)
    ultimately have "\<not> same_key (fst e) k" by (metis same_key_def)
    with Cons.IH [OF ok mem] show ?thesis by (cases e) simp
  qed
qed

lemma get_or_dset [simp, dict_simps]:
  "get_or (dset d k v) s w = (if k = PStr s then v else get_or d s w)"
  by (simp add: get_or_def)

section \<open>The dictionary interface\<close>

text \<open>
  What the clients of a dictionary rely on: a lookup after an update and after a deletion.
  The laws about sequences of operations follow from these alone.
\<close>

locale dict_laws =
  fixes lookup :: "'m \<Rightarrow> 'k \<Rightarrow> 'v option"
    and update :: "'m \<Rightarrow> 'k \<Rightarrow> 'v \<Rightarrow> 'm"
    and remove :: "'m \<Rightarrow> 'k \<Rightarrow> 'm"
    and same :: "'k \<Rightarrow> 'k \<Rightarrow> bool"
  assumes lookup_update: "lookup (update m k v) k' = (if same k k' then Some v else lookup m k')"
    and lookup_remove: "lookup (remove m k) k' = (if same k k' then None else lookup m k')"
    and same_equiv: "equivp same"
begin

lemma update_keeps: "lookup m k' \<noteq> None \<Longrightarrow> lookup (update m k v) k' \<noteq> None"
  by (simp add: lookup_update)

lemma update_twice: "lookup (update (update m k v) k w) k' = lookup (update m k w) k'"
  by (simp add: lookup_update)

lemma update_commute:
  "\<not> same k l \<Longrightarrow> lookup (update (update m k v) l w) k' = lookup (update (update m l w) k v) k'"
  using same_equiv by (auto simp: lookup_update dest: equivp_symp equivp_transp)

lemma remove_all:
  "lookup (fold (\<lambda>k m. remove m k) ks m) k' =
     (if \<exists>k \<in> set ks. same k k' then None else lookup m k')"
  by (induction ks arbitrary: m) (auto simp: lookup_remove)

lemma update_all_other:
  "\<forall>(k, v) \<in> set kvs. \<not> same k k' \<Longrightarrow>
    lookup (fold (\<lambda>(k, v) m. update m k v) kvs m) k' = lookup m k'"
  by (induction kvs arbitrary: m) (auto simp: lookup_update)

lemma update_all_dom:
  "(lookup (fold (\<lambda>(k, v) m. update m k v) kvs m) k' \<noteq> None) \<longleftrightarrow>
     lookup m k' \<noteq> None \<or> (\<exists>(k, v) \<in> set kvs. same k k')"
  by (induction kvs arbitrary: m) (auto simp: lookup_update split: if_splits)

lemma update_all_keeps:
  "lookup m k' \<noteq> None \<Longrightarrow> lookup (fold (\<lambda>(k, v) m. update m k v) kvs m) k' \<noteq> None"
  unfolding update_all_dom by simp

end

interpretation pd: dict_laws dget dset ddel same_key
  by unfold_locales (simp_all add: same_key_equivp)

section \<open>Equality\<close>

text \<open>
  \<open>a == b\<close>: numbers by value (a NaN equals nothing), lists elementwise, dictionaries by
  looking every key of one up in the other.
\<close>

fun py_eq :: "pyval \<Rightarrow> pyval \<Rightarrow> bool" where
  "py_eq (PList xs) (PList ys) = list_all2 py_eq xs ys"
| "py_eq (PDict xs) (PDict ys) =
     (length xs = length ys \<and>
      list_all (\<lambda>(k, v). case dget ys k of None \<Rightarrow> False | Some w \<Rightarrow> py_eq v w) xs)"
| "py_eq a b = (a \<noteq> PFloat NaN \<and> same_key a b)"

lemma py_eq_PStr_right [simp]: "py_eq v (PStr s) \<longleftrightarrow> v = PStr s"
  by (cases v) simp_all

lemma py_eq_PStr_left [simp]: "py_eq (PStr s) v \<longleftrightarrow> v = PStr s"
  by (cases v) auto

text \<open>\<open>v in xs\<close> for a list.\<close>

definition py_in :: "pyval \<Rightarrow> pyval list \<Rightarrow> bool" where
  "py_in v xs = list_ex (\<lambda>x. py_eq x v) xs"

lemma py_in_PStr: "py_in (PStr s) xs \<longleftrightarrow> PStr s \<in> set xs"
  by (induction xs) (auto simp: py_in_def)

section \<open>\<open>int(v)\<close>\<close>

definition is_c_space :: "char \<Rightarrow> bool" where
  "is_c_space c = (let n = of_char c :: nat in (9 \<le> n \<and> n \<le> 13) \<or> n = 32)"

definition strip_by :: "(char \<Rightarrow> bool) \<Rightarrow> string \<Rightarrow> string" where
  "strip_by P s = rev (dropWhile P (rev (dropWhile P s)))"

text \<open>
  The digits of an int literal: groups of digits separated by single underscores, at most 4300
  digits (Python's default limit).
\<close>

definition parse_nat_literal :: "string \<Rightarrow> int option" where
  "parse_nat_literal s = (let groups = split_on CHR ''_'' s; ds = concat groups in
     if list_all (\<lambda>g. g \<noteq> [] \<and> list_all is_digit g) groups \<and> length ds \<le> 4300
     then Some (digits_val ds) else None)"

definition parse_int :: "string \<Rightarrow> int option" where
  "parse_int s =
     (let t = (if list_all (\<lambda>c. (of_char c :: nat) < 128) s then strip_by is_c_space s else strip s)
      in case t of
           [] \<Rightarrow> None
         | c # r \<Rightarrow>
             if c = CHR ''-'' then map_option uminus (parse_nat_literal r)
             else if c = CHR ''+'' then parse_nat_literal r
             else parse_nat_literal t)"

fun py_int :: "pyval \<Rightarrow> builtin_error + int" where
  "py_int (PBool b) = Inr (if b then 1 else 0)"
| "py_int (PInt i) = Inr i"
| "py_int (PFloat x) = num_int (NFloat x)"
| "py_int (PStr s) = (case parse_int s of Some i \<Rightarrow> Inr i | None \<Rightarrow> Inl ValueError)"
| "py_int _ = Inl TypeError"

text \<open>An int printed by \<open>str\<close> reads back, up to the digit limit.\<close>

lemma nat_digits_ascii:
  assumes "0 \<le> n"
  shows "\<forall>c \<in> set (nat_digits n). (of_char c :: nat) < 128 \<and> \<not> is_c_space c
    \<and> c \<noteq> CHR ''_'' \<and> c \<noteq> CHR ''-'' \<and> c \<noteq> CHR ''+''"
  using nat_digits_correct [OF assms] by (auto simp: is_digit_def is_c_space_def Let_def)

lemma parse_nat_literal_digits:
  assumes "0 \<le> n" "length (nat_digits n) \<le> 4300"
  shows "parse_nat_literal (nat_digits n) = Some n"
proof -
  have "CHR ''_'' \<notin> set (nat_digits n)" using nat_digits_ascii [OF assms(1)] by auto
  then have "split_on CHR ''_'' (nat_digits n) = [nat_digits n]" by (rule split_on_absent)
  with assms show ?thesis
    using nat_digits_correct [OF assms(1)] by (simp add: parse_nat_literal_def list_all_iff)
qed

lemma strip_by_id: "\<forall>c \<in> set s. \<not> P c \<Longrightarrow> strip_by P s = s"
  by (simp add: strip_by_def dropWhile_eq_self_iff)
    (metis dropWhile_eq_self_iff hd_in_set list.set_sel(1) rev_rev_ident set_rev)

lemma parse_int_int_str:
  assumes "length (int_str i) \<le> 4300"
  shows "parse_int (int_str i) = Some i"
proof (cases "i < 0")
  case True
  let ?d = "nat_digits (- i)"
  have ok: "\<forall>c \<in> set (CHR ''-'' # ?d). \<not> is_c_space c \<and> (of_char c :: nat) < 128"
    using nat_digits_ascii [of "- i"] True by (auto simp: is_c_space_def)
  then have "strip_by is_c_space (CHR ''-'' # ?d) = CHR ''-'' # ?d" by (intro strip_by_id) simp
  moreover have "parse_nat_literal ?d = Some (- i)"
    using parse_nat_literal_digits [of "- i"] assms True by (simp add: int_str_def)
  ultimately show ?thesis
    using True ok by (simp add: parse_int_def int_str_def list_all_iff)
next
  case False
  let ?d = "nat_digits i"
  have ok: "\<forall>c \<in> set ?d. \<not> is_c_space c \<and> (of_char c :: nat) < 128"
    using nat_digits_ascii [of i] False by auto
  then have "strip_by is_c_space ?d = ?d" by (intro strip_by_id) simp
  moreover have "parse_nat_literal ?d = Some i"
    using parse_nat_literal_digits [of i] assms False by (simp add: int_str_def)
  moreover obtain c r where d: "?d = c # r" by (cases ?d) auto
  moreover have "c \<noteq> CHR ''-''" "c \<noteq> CHR ''+''" using nat_digits_ascii [of i] d False by auto
  ultimately show ?thesis
    using False ok by (simp add: parse_int_def int_str_def list_all_iff)
qed

end
