(* ===== verification/PyTime.thy ===== *)
theory PyTime
  imports PyValue
begin

text \<open>
  The parts of \<open>datetime\<close> the library uses, for aware datetimes in UTC: a datetime is its
  number of microseconds since 1970-01-01, in the range of the years 1 to 9999.  Conversion from
  a timestamp rounds to a microsecond, ties to even; \<open>strptime\<close> is modelled for the one format
  the code parses, \<open>%a %b %d %H:%M:%S %Y\<close>.
\<close>

section \<open>The proleptic Gregorian calendar\<close>

definition is_leap :: "int \<Rightarrow> bool" where
  "is_leap y = (y mod 4 = 0 \<and> (y mod 100 \<noteq> 0 \<or> y mod 400 = 0))"

definition days_before_year :: "int \<Rightarrow> int" where
  "days_before_year y = 365 * (y - 1) + (y - 1) div 4 - (y - 1) div 100 + (y - 1) div 400"

definition days_in_month :: "int \<Rightarrow> int \<Rightarrow> int" where
  "days_in_month y m =
     (if m = 2 then (if is_leap y then 29 else 28)
      else if m = 4 \<or> m = 6 \<or> m = 9 \<or> m = 11 then 30 else 31)"

definition days_before_month :: "int \<Rightarrow> int \<Rightarrow> int" where
  "days_before_month y m = sum_list (map (days_in_month y) [1 .. m - 1])"

definition valid_date :: "int \<Rightarrow> int \<Rightarrow> int \<Rightarrow> bool" where
  "valid_date y m d =
     (1 \<le> y \<and> y \<le> 9999 \<and> 1 \<le> m \<and> m \<le> 12 \<and> 1 \<le> d \<and> d \<le> days_in_month y m)"

definition epoch_days :: "int \<Rightarrow> int \<Rightarrow> int \<Rightarrow> int" where
  "epoch_days y m d = days_before_year y + days_before_month y m + d - 719163"

definition utc_micros :: "int \<Rightarrow> int \<Rightarrow> int \<Rightarrow> int \<Rightarrow> int \<Rightarrow> int \<Rightarrow> int" where
  "utc_micros y mo d h mi s =
     (((epoch_days y mo d * 24 + h) * 60 + mi) * 60 + s) * 1000000"

definition date_min :: int where
  "date_min = -62135596800000000"

definition date_max :: int where
  "date_max = 253402300799999999"

lemma div_pred:
  fixes k :: int
  assumes "0 < k"
  shows "y div k = (y - 1) div k + (if y mod k = 0 then 1 else 0)"
proof (cases "y mod k = 0")
  case True
  have "y - 1 = k * (y div k - 1) + (k - 1)"
    using True mult_div_mod_eq [of k y] by (simp add: algebra_simps)
  then have "(y - 1) div k = y div k - 1" by (rule int_div_pos_eq) (use assms in auto)
  with True show ?thesis by simp
next
  case False
  have "y - 1 = k * (y div k) + (y mod k - 1)"
    using mult_div_mod_eq [of k y] by simp
  moreover have "0 \<le> y mod k" "y mod k < k" using assms by simp_all
  ultimately have "(y - 1) div k = y div k"
    by (intro int_div_pos_eq [where r = "y mod k - 1"]) (use False in auto)
  with False show ?thesis by simp
qed

lemma mod_multiple: "y mod (k * l) = 0 \<Longrightarrow> y mod k = (0::int)"
  by (metis dvd_mult_left mod_eq_0_iff_dvd)

lemma days_before_year_Suc: "days_before_year (y + 1) = days_before_year y + (if is_leap y then 366 else 365)"
proof -
  define a b c where "a = y div 4" and "b = y div 100" and "c = y div 400"
  define a' b' c' where "a' = (y - 1) div 4" and "b' = (y - 1) div 100" and "c' = (y - 1) div 400"
  have "a = a' + (if y mod 4 = 0 then 1 else 0)" "b = b' + (if y mod 100 = 0 then 1 else 0)"
      "c = c' + (if y mod 400 = 0 then 1 else 0)"
    unfolding a_def b_def c_def a'_def b'_def c'_def by (rule div_pred; simp)+
  moreover have "y mod 100 = 0 \<Longrightarrow> y mod 4 = 0" "y mod 400 = 0 \<Longrightarrow> y mod 100 = 0"
    using mod_multiple [of y 4 25] mod_multiple [of y 100 4] by simp_all
  moreover have "days_before_year (y + 1) = 365 * y + a - b + c"
      "days_before_year y = 365 * (y - 1) + a' - b' + c'"
    by (simp_all add: days_before_year_def a_def b_def c_def a'_def b'_def c'_def)
  ultimately show ?thesis
    by (cases "y mod 4 = 0"; cases "y mod 100 = 0"; cases "y mod 400 = 0")
      (simp_all add: is_leap_def)
qed

section \<open>\<open>datetime.fromtimestamp(t, tz=UTC)\<close>\<close>

definition date_of_micros :: "int \<Rightarrow> builtin_error + pyval" where
  "date_of_micros us =
     (if date_min \<le> us \<and> us \<le> date_max then Inr (PDate us)
      else if fits_long us then Inl ValueError else Inl OverflowError)"

fun from_timestamp :: "pynum \<Rightarrow> builtin_error + pyval" where
  "from_timestamp (NInt i) = date_of_micros (i * 1000000)"
| "from_timestamp (NFloat (Fin q)) =
     (let ip = rat_trunc q; us = rhe (fl64 ((q - of_int ip) * 1000000))
      in date_of_micros (ip * 1000000 + us))"
| "from_timestamp (NFloat NaN) = Inl ValueError"
| "from_timestamp (NFloat _) = Inl OverflowError"

lemma date_of_micros_InrD: "date_of_micros us = Inr v \<Longrightarrow> v = PDate us \<and> date_min \<le> us \<and> us \<le> date_max"
  by (auto simp: date_of_micros_def split: if_splits)

lemma from_timestamp_InrD:
  "from_timestamp n = Inr v \<Longrightarrow> \<exists>us. v = PDate us \<and> date_min \<le> us \<and> us \<le> date_max"
  by (cases n rule: from_timestamp.cases) (auto simp: Let_def dest: date_of_micros_InrD)

lemma from_timestamp_small:
  "0 \<le> i \<Longrightarrow> i \<le> 253402300799 \<Longrightarrow> from_timestamp (NInt i) = Inr (PDate (i * 1000000))"
  by (simp add: date_of_micros_def date_min_def date_max_def)

section \<open>\<open>strptime\<close>\<close>

text \<open>The fields between runs of white space; \<open>None\<close> for a string with white space at an end.\<close>

function words_by :: "(char \<Rightarrow> bool) \<Rightarrow> string \<Rightarrow> string list" where
  "words_by P [] = []"
| "words_by P (c # s) =
     (if P c then words_by P s
      else (c # takeWhile (\<lambda>x. \<not> P x) s) # words_by P (dropWhile (\<lambda>x. \<not> P x) s))"
  by pat_completeness auto
termination
  by (relation "measure (\<lambda>(P, s). length s)") (auto simp: le_imp_less_Suc length_dropWhile_le)

definition month_names :: "string list" where
  "month_names = [''jan'', ''feb'', ''mar'', ''apr'', ''may'', ''jun'',
                  ''jul'', ''aug'', ''sep'', ''oct'', ''nov'', ''dec'']"

definition weekday_names :: "string list" where
  "weekday_names = [''mon'', ''tue'', ''wed'', ''thu'', ''fri'', ''sat'', ''sun'']"

definition month_number :: "string \<Rightarrow> int option" where
  "month_number s = map_option (\<lambda>i. int i + 1)
     (List.find (\<lambda>i. month_names ! i = lower s) [0..<length month_names])"

text \<open>One or two digits.\<close>

definition short_number :: "string \<Rightarrow> int option" where
  "short_number s =
     (if (length s = 1 \<or> length s = 2) \<and> list_all is_digit s then Some (digits_val s) else None)"

definition clock_fields :: "string \<Rightarrow> (int \<times> int \<times> int) option" where
  "clock_fields s =
     (case map short_number (split_on CHR '':'' s) of
        [Some h, Some mi, Some sec] \<Rightarrow>
          if h \<le> 23 \<and> mi \<le> 59 \<and> sec \<le> 59 then Some (h, mi, sec) else None
      | _ \<Rightarrow> None)"

definition strptime_utc :: "string \<Rightarrow> int option" where
  "strptime_utc s =
     (if s = [] \<or> is_space (hd s) \<or> is_space (last s) then None
      else case words_by is_space s of
        [wd, mon, day, clock, year] \<Rightarrow>
          (case (month_number mon, short_number day, clock_fields clock) of
             (Some m, Some d, Some (h, mi, sec)) \<Rightarrow>
               (if lower wd \<in> set weekday_names \<and> length year = 4 \<and> list_all is_digit year
                   \<and> valid_date (digits_val year) m d
                then Some (utc_micros (digits_val year) m d h mi sec) else None)
           | _ \<Rightarrow> None)
      | _ \<Rightarrow> None)"

lemma short_number_nonneg: "short_number s = Some n \<Longrightarrow> 0 \<le> n"
  using digits_val_bound [of s] by (auto simp: short_number_def list_all_iff split: if_splits)

lemma days_before_month_bounds:
  assumes "1 \<le> m" "m \<le> 12"
  shows "0 \<le> days_before_month y m \<and> days_before_month y m + days_in_month y m \<le> (if is_leap y then 366 else 365)"
proof -
  have "m = 1 \<or> m = 2 \<or> m = 3 \<or> m = 4 \<or> m = 5 \<or> m = 6 \<or> m = 7 \<or> m = 8 \<or> m = 9
      \<or> m = 10 \<or> m = 11 \<or> m = 12"
    using assms by arith
  then show ?thesis
    by (auto simp: days_before_month_def days_in_month_def upto_rec1)
qed

lemma days_before_year_mono: "y \<le> z \<Longrightarrow> days_before_year y \<le> days_before_year z"
proof (induction z rule: int_ge_induct)
  case (step z)
  then show ?case using days_before_year_Suc [of z] by (auto split: if_splits)
qed simp

lemma epoch_days_range:
  assumes "valid_date y m d"
  shows "-719162 \<le> epoch_days y m d \<and> epoch_days y m d \<le> 2932896"
proof -
  have y: "1 \<le> y" "y + 1 \<le> 10000" and md: "1 \<le> m" "m \<le> 12" "1 \<le> d" "d \<le> days_in_month y m"
    using assms by (auto simp: valid_date_def)
  have "days_before_year 1 \<le> days_before_year y" "days_before_year (y + 1) \<le> days_before_year 10000"
    using days_before_year_mono y by blast+
  moreover have "days_before_year 1 = 0" "days_before_year 10000 = 3652059"
    by (simp_all add: days_before_year_def)
  ultimately show ?thesis
    using days_before_month_bounds [OF md(1,2), of y] days_before_year_Suc [of y] md(3,4)
    by (simp add: epoch_days_def)
qed

lemma strptime_utc_range:
  assumes "strptime_utc s = Some us"
  shows "date_min \<le> us \<and> us \<le> date_max"
proof -
  obtain y m d h mi sec where v: "valid_date y m d" and us: "us = utc_micros y m d h mi sec"
    and hms: "0 \<le> h" "h \<le> 23" "0 \<le> mi" "mi \<le> 59" "0 \<le> sec" "sec \<le> 59"
    using assms short_number_nonneg
    by (auto simp: strptime_utc_def clock_fields_def split: if_splits list.splits option.splits)
  show ?thesis
    using epoch_days_range [OF v] hms
    by (simp add: us utc_micros_def date_min_def date_max_def)
qed

section \<open>Calendar date of a day number, and \<open>str\<close> of a datetime\<close>

definition year_of_day :: "int \<Rightarrow> int" where
  "year_of_day n = (let g = (n * 400) div 146097 + 1 in
     if days_before_year (g + 1) \<le> n then g + 1
     else if n < days_before_year g then g - 1 else g)"

definition civil_of_epoch_days :: "int \<Rightarrow> int \<times> int \<times> int" where
  "civil_of_epoch_days e = (let n = e + 719162; y = year_of_day n; r = n - days_before_year y in
     case List.find (\<lambda>m. r < days_before_month y m + days_in_month y m) [1 .. 12] of
       Some m \<Rightarrow> (y, m, r - days_before_month y m + 1)
     | None \<Rightarrow> (y, 12, r - days_before_month y 12 + 1))"

definition pad :: "nat \<Rightarrow> int \<Rightarrow> string" where
  "pad w n = (let s = int_str n in replicate (w - length s) CHR ''0'' @ s)"

definition date_str :: "int \<Rightarrow> string" where
  "date_str us = (case civil_of_epoch_days (us div 86400000000) of (y, m, d) \<Rightarrow>
     let t = us mod 86400000000; sec = t div 1000000; frac = t mod 1000000 in
     pad 4 y @ ''-'' @ pad 2 m @ ''-'' @ pad 2 d @ '' '' @
     pad 2 (sec div 3600) @ '':'' @ pad 2 (sec div 60 mod 60) @ '':'' @ pad 2 (sec mod 60) @
     (if frac = 0 then [] else ''.'' @ pad 6 frac) @ ''+00:00'')"

end
