(* ===== verification/PyText.thy ===== *)
theory PyText
  imports PyTime
begin

text \<open>\<open>str(v)\<close> and \<open>repr(v)\<close>, which the code applies to identifiers, labels and alert fields.\<close>

section \<open>Floats\<close>

definition dec_exp :: "rat \<Rightarrow> int" where
  "dec_exp q = (case List.find (\<lambda>k. q < 10 powi (k + 1)) [-324 .. 308] of Some k \<Rightarrow> k | None \<Rightarrow> 308)"

text \<open>The decimal of \<open>n\<close> significant digits that reads back as \<open>q\<close>, the nearest if two do.\<close>

definition dec_candidate :: "rat \<Rightarrow> nat \<Rightarrow> int option" where
  "dec_candidate q n = (let s = 10 powi (dec_exp q - int n + 1); lo = \<lfloor>q / s\<rfloor> in
     case filter (\<lambda>c. fl64 (of_int c * s) = q) [lo, lo + 1] of
       [] \<Rightarrow> None
     | [c] \<Rightarrow> Some c
     | _ \<Rightarrow> Some (rhe (q / s)))"

definition shortest_digits :: "rat \<Rightarrow> string \<times> int" where
  "shortest_digits q =
     (case List.find (\<lambda>n. dec_candidate q n \<noteq> None) [1 ..< 18] of
        Some n \<Rightarrow> (let c = the (dec_candidate q n) in
          if c = 10 ^ n then (''1'', dec_exp q + 2) else (int_str c, dec_exp q + 1))
      | None \<Rightarrow> (int_str \<lfloor>q\<rfloor>, dec_exp q + 1))"

definition pos_float_repr :: "rat \<Rightarrow> string" where
  "pos_float_repr q = (case shortest_digits q of (ds, pt) \<Rightarrow>
     let n = int (length ds); zeros = (\<lambda>k. replicate (nat k) CHR ''0'') in
     if -4 < pt \<and> pt \<le> 16 then
       (if pt \<le> 0 then ''0.'' @ zeros (- pt) @ ds
        else if n \<le> pt then ds @ zeros (pt - n) @ ''.0''
        else take (nat pt) ds @ ''.'' @ drop (nat pt) ds)
     else
       take 1 ds @ (if n > 1 then ''.'' @ drop 1 ds else []) @ ''e'' @
       (if pt - 1 < 0 then ''-'' else ''+'') @ pad 2 \<bar>pt - 1\<bar>)"

fun float_repr :: "pyfloat \<Rightarrow> string" where
  "float_repr (Fin q) =
     (if q = 0 then ''0.0'' else if q < 0 then ''-'' @ pos_float_repr (- q) else pos_float_repr q)"
| "float_repr PosInf = ''inf''"
| "float_repr NegInf = ''-inf''"
| "float_repr NaN = ''nan''"

section \<open>Strings\<close>

definition hex_digit :: "nat \<Rightarrow> char" where
  "hex_digit n = char_of (if n < 10 then 48 + n else 87 + n)"

definition repr_char :: "char \<Rightarrow> char \<Rightarrow> string" where
  "repr_char quote c = (let n = of_char c :: nat in
     if c = CHR 0x5C \<or> c = quote then [CHR 0x5C, c]
     else if n = 10 then [CHR 0x5C, CHR ''n'']
     else if n = 13 then [CHR 0x5C, CHR ''r'']
     else if n = 9 then [CHR 0x5C, CHR ''t'']
     else if n < 32 \<or> (127 \<le> n \<and> n \<le> 160) \<or> n = 173
       then [CHR 0x5C, CHR ''x'', hex_digit (n div 16), hex_digit (n mod 16)]
     else [c])"

definition str_repr :: "string \<Rightarrow> string" where
  "str_repr s = (let q = (if CHR 0x27 \<in> set s \<and> CHR 0x22 \<notin> set s then CHR 0x22 else CHR 0x27)
     in [q] @ concat (map (repr_char q) s) @ [q])"

section \<open>Values\<close>

definition join :: "string \<Rightarrow> string list \<Rightarrow> string" where
  "join sep xs = concat (case xs of [] \<Rightarrow> [] | y # ys \<Rightarrow> y # map (\<lambda>z. sep @ z) ys)"

definition date_repr :: "int \<Rightarrow> string" where
  "date_repr us = (case civil_of_epoch_days (us div 86400000000) of (y, m, d) \<Rightarrow>
     let t = us mod 86400000000; sec = t div 1000000; frac = t mod 1000000 in
     ''datetime.datetime('' @
     join '', '' (map int_str ([y, m, d, sec div 3600, sec div 60 mod 60] @
       (if sec mod 60 = 0 \<and> frac = 0 then [] else [sec mod 60]) @
       (if frac = 0 then [] else [frac]))) @
     '', tzinfo=datetime.timezone.utc)'')"

fun py_repr :: "pyval \<Rightarrow> string" where
  "py_repr PNone = ''None''"
| "py_repr (PBool b) = (if b then ''True'' else ''False'')"
| "py_repr (PInt i) = int_str i"
| "py_repr (PFloat x) = float_repr x"
| "py_repr (PStr s) = str_repr s"
| "py_repr (PDate us) = date_repr us"
| "py_repr (PList xs) = ''['' @ join '', '' (map py_repr xs) @ '']''"
| "py_repr (PDict d) =
     ''{'' @ join '', '' (map (\<lambda>(k, v). py_repr k @ '': '' @ py_repr v) d) @ ''}''"

fun py_str :: "pyval \<Rightarrow> string" where
  "py_str (PStr s) = s"
| "py_str (PDate us) = date_str us"
| "py_str v = py_repr v"

end
