(* ===== verification/Exceptions.thy ===== *)
theory Exceptions
  imports PyText
begin

text \<open>
  The exception hierarchy of \<open>exceptions.py\<close> and the classification of low-level failures of
  \<open>_errors.py\<close>.  A raised exception is a value of \<open>py_exn\<close>: one of the library's classes with
  its attributes, or a built-in exception.  \<open>isinstance\<close> tests are predicates on it.
\<close>

section \<open>The hierarchy\<close>

datatype close_phase = LoginPhase | CallPhase | DisconnectPhase

record call_error =
  ce_message :: pyval
  ce_code :: pyval
  ce_errname :: pyval
  ce_reason :: pyval
  ce_data :: pyval

datatype truenas_error =
    TrueNASCertificateVerificationError string
  | TrueNASHttpSchemeError string
  | TrueNASUnsupportedTlsVersionError string
  | TrueNASWebSocketUnsupportedError string
  | TrueNASHostUnknownError string
  | TrueNASConnectionRefusedError string
  | TrueNASProxyInterceptedError string
  | TrueNASEndpointNotFoundError string
  | TrueNASHandshakeTimeoutError string
  | TrueNASCallTimeoutError string
  | TrueNASAuthenticationError string
  | TrueNASConnectionClosedError string close_phase
  | TrueNASConnectionError string
  | TrueNASMalformedResponseError string
  | TrueNASCallError call_error
  | TrueNASUnknownError string

datatype py_exn = TrueNAS truenas_error | Builtin builtin_error

text \<open>\<open>isinstance(e, TrueNASConnectionError)\<close> and \<open>isinstance(e, TrueNASTimeoutError)\<close>.\<close>

fun is_connection_error :: "truenas_error \<Rightarrow> bool" where
  "is_connection_error (TrueNASCallTimeoutError _) = False"
| "is_connection_error (TrueNASAuthenticationError _) = False"
| "is_connection_error (TrueNASMalformedResponseError _) = False"
| "is_connection_error (TrueNASCallError _) = False"
| "is_connection_error _ = True"

fun is_timeout_error :: "truenas_error \<Rightarrow> bool" where
  "is_timeout_error (TrueNASHandshakeTimeoutError _) = True"
| "is_timeout_error (TrueNASCallTimeoutError _) = True"
| "is_timeout_error _ = False"

section \<open>JSON-RPC error objects\<close>

definition py_or :: "pyval \<Rightarrow> pyval \<Rightarrow> pyval" where
  "py_or a b = (if truthy a then a else b)"

definition build_call_error :: "pyval \<Rightarrow> truenas_error" where
  "build_call_error err =
     (case err of
        PDict d \<Rightarrow>
          (let code = get_or d ''code'' PNone; message = get_or d ''message'' PNone;
               data = get_or d ''data'' PNone;
               errname = field data ''errname''; reason = field data ''reason'';
               txt = py_or reason (py_or message (PStr ''TrueNAS returned an RPC error''))
           in TrueNASCallError \<lparr>ce_message = txt, ce_code = code, ce_errname = errname,
                ce_reason = reason, ce_data = data\<rparr>)
      | _ \<Rightarrow> TrueNASCallError \<lparr>ce_message = PStr (py_str err), ce_code = PNone, ce_errname = PNone,
                ce_reason = PNone, ce_data = PNone\<rparr>)"

section \<open>Connection failures\<close>

text \<open>
  A low-level exception of the connection setup, by the class the classifier tests for.  The
  \<open>errno\<close> values are those of Linux.
\<close>

datatype connect_kind =
    SSLCertVerificationError
  | GaiError
  | ConnectionRefusedError
  | OSTimeoutError
  | OtherOSError
  | InvalidStatus int
  | OtherException

record connect_exn =
  cx_kind :: connect_kind
  cx_errno :: "int option"
  cx_text :: string
  cx_type_name :: string

definition EAI_NONAME :: int where "EAI_NONAME = -2"
definition EAI_NODATA :: int where "EAI_NODATA = -5"
definition ECONNREFUSED :: int where "ECONNREFUSED = 111"
definition ETIMEDOUT :: int where "ETIMEDOUT = 110"
definition EHOSTUNREACH :: int where "EHOSTUNREACH = 113"

lemmas errno_defs = EAI_NONAME_def EAI_NODATA_def ECONNREFUSED_def ETIMEDOUT_def EHOSTUNREACH_def

definition REDIRECT_STATUS_CODES :: "int list" where
  "REDIRECT_STATUS_CODES = [301, 302, 303, 307, 308]"

definition AUTH_REJECTED_STATUS_CODES :: "int list" where
  "AUTH_REJECTED_STATUS_CODES = [401, 403]"

fun status_code :: "connect_exn \<Rightarrow> int option" where
  "status_code exc = (case cx_kind exc of InvalidStatus c \<Rightarrow> Some c | _ \<Rightarrow> None)"

definition classify_by_type :: "connect_exn \<Rightarrow> truenas_error option" where
  "classify_by_type exc =
     (case cx_kind exc of
        SSLCertVerificationError \<Rightarrow> Some (TrueNASCertificateVerificationError (cx_text exc))
      | GaiError \<Rightarrow>
          (if cx_errno exc = Some EAI_NONAME \<or> cx_errno exc = Some EAI_NODATA
           then Some (TrueNASHostUnknownError (cx_text exc)) else None)
      | ConnectionRefusedError \<Rightarrow> Some (TrueNASConnectionRefusedError (cx_text exc))
      | OSTimeoutError \<Rightarrow> Some (TrueNASHandshakeTimeoutError (cx_text exc))
      | OtherOSError \<Rightarrow>
          (if cx_errno exc = Some ECONNREFUSED then Some (TrueNASConnectionRefusedError (cx_text exc))
           else if cx_errno exc = Some ETIMEDOUT then Some (TrueNASHandshakeTimeoutError (cx_text exc))
           else if cx_errno exc = Some EHOSTUNREACH then Some (TrueNASConnectionRefusedError (cx_text exc))
           else None)
      | _ \<Rightarrow> None)"

definition classify_by_status_code :: "connect_exn \<Rightarrow> truenas_error option" where
  "classify_by_status_code exc =
     (case status_code exc of
        None \<Rightarrow> None
      | Some c \<Rightarrow>
          if c \<in> set REDIRECT_STATUS_CODES \<or> c \<in> set AUTH_REJECTED_STATUS_CODES
          then Some (TrueNASProxyInterceptedError (cx_text exc))
          else if c = 404 then Some (TrueNASEndpointNotFoundError (cx_text exc)) else None)"

definition TEXT_FRAGMENT_RULES :: "(string \<times> (string \<Rightarrow> truenas_error)) list" where
  "TEXT_FRAGMENT_RULES =
    [(''certificate_verify_failed'', TrueNASCertificateVerificationError),
     (''plain http request was sent to https port'', TrueNASHttpSchemeError),
     (''tlsv1_unrecognized_name'', TrueNASUnsupportedTlsVersionError),
     (''no websocket upgrade'', TrueNASWebSocketUnsupportedError),
     (''connection refused'', TrueNASConnectionRefusedError),
     (''no route to host'', TrueNASConnectionRefusedError),
     (''timed out while waiting for handshake response'', TrueNASHandshakeTimeoutError)]"

definition classify_by_text :: "connect_exn \<Rightarrow> truenas_error option" where
  "classify_by_text exc =
     (let normalized = lower (strip (cx_text exc)) in
      map_option (\<lambda>(fragment, error_cls). error_cls (cx_text exc))
        (List.find (\<lambda>(fragment, error_cls). contains fragment normalized) TEXT_FRAGMENT_RULES))"

definition classify_connect_exception :: "connect_exn \<Rightarrow> truenas_error" where
  "classify_connect_exception exc =
     (case classify_by_type exc of Some e \<Rightarrow> e
      | None \<Rightarrow> (case classify_by_status_code exc of Some e \<Rightarrow> e
        | None \<Rightarrow> (case classify_by_text exc of Some e \<Rightarrow> e
          | None \<Rightarrow> TrueNASUnknownError (if cx_text exc \<noteq> [] then cx_text exc else cx_type_name exc))))"

section \<open>What the classification promises\<close>

text \<open>Every class the three classifiers construct is a connection error that is no call timeout.\<close>

definition setup_error :: "truenas_error \<Rightarrow> bool" where
  "setup_error e = (is_connection_error e \<and> (is_timeout_error e \<longrightarrow> (\<exists>m. e = TrueNASHandshakeTimeoutError m)))"

lemma classify_by_type_setup: "classify_by_type exc = Some e \<Longrightarrow> setup_error e"
  by (auto simp: classify_by_type_def setup_error_def split: connect_kind.splits if_splits)

lemma classify_by_status_setup: "classify_by_status_code exc = Some e \<Longrightarrow> setup_error e"
  by (auto simp: classify_by_status_code_def setup_error_def split: option.splits if_splits)

lemma text_rules_setup: "list_all (\<lambda>(f, c). \<forall>s. setup_error (c s)) TEXT_FRAGMENT_RULES"
  by (simp add: TEXT_FRAGMENT_RULES_def setup_error_def)

lemma classify_by_text_setup: "classify_by_text exc = Some e \<Longrightarrow> setup_error e"
  using text_rules_setup by (fastforce simp: classify_by_text_def Let_def list_all_iff dest: find_SomeD)

text \<open>
  C35: every failure of the connection setup is reported as a connection error (so that
  \<open>except TrueNASConnectionError\<close> around \<open>connect\<close> catches it).  Whatever the text of the
  exception says, a failed certificate, an unknown host, a refused connection and a timeout are
  reported by their class or \<open>errno\<close>, and an HTTP status by its code: a redirect or rejection
  as a proxy, a 404 as a missing endpoint.
\<close>

theorem classify_connect_sound:
  "is_connection_error (classify_connect_exception exc)
    \<and> (cx_kind exc = SSLCertVerificationError \<longrightarrow>
         classify_connect_exception exc = TrueNASCertificateVerificationError (cx_text exc))
    \<and> (cx_kind exc = GaiError \<and> cx_errno exc \<in> {Some (-2), Some (-5)} \<longrightarrow>
         classify_connect_exception exc = TrueNASHostUnknownError (cx_text exc))
    \<and> (cx_kind exc = ConnectionRefusedError \<or> cx_kind exc = OtherOSError \<and> cx_errno exc \<in> {Some 111, Some 113} \<longrightarrow>
         classify_connect_exception exc = TrueNASConnectionRefusedError (cx_text exc))
    \<and> (cx_kind exc = OSTimeoutError \<or> cx_kind exc = OtherOSError \<and> cx_errno exc = Some 110 \<longrightarrow>
         classify_connect_exception exc = TrueNASHandshakeTimeoutError (cx_text exc))
    \<and> (\<forall>c. cx_kind exc = InvalidStatus c \<longrightarrow>
         (c \<in> {301, 302, 303, 307, 308, 401, 403} \<longrightarrow>
            classify_connect_exception exc = TrueNASProxyInterceptedError (cx_text exc))
         \<and> (c = 404 \<longrightarrow> classify_connect_exception exc = TrueNASEndpointNotFoundError (cx_text exc)))"
proof -
  note defs = classify_connect_exception_def classify_by_type_def classify_by_status_code_def errno_defs
    REDIRECT_STATUS_CODES_def AUTH_REJECTED_STATUS_CODES_def
  have "is_connection_error (classify_connect_exception exc)"
    using classify_by_type_setup [of exc] classify_by_status_setup [of exc] classify_by_text_setup [of exc]
    by (auto simp: classify_connect_exception_def setup_error_def split: option.splits)
  moreover have "classify_connect_exception exc = TrueNASProxyInterceptedError (cx_text exc)"
    if "cx_kind exc = InvalidStatus c" "c \<in> {301, 302, 303, 307, 308, 401, 403}" for c
    using that by (auto simp: defs)
  moreover have "classify_connect_exception exc = TrueNASEndpointNotFoundError (cx_text exc)"
    if "cx_kind exc = InvalidStatus 404" using that by (simp add: defs)
  ultimately show ?thesis by (auto simp: defs)
qed

theorem classify_connect_sound_witness:
  "classify_connect_exception \<lparr>cx_kind = InvalidStatus 404, cx_errno = None,
     cx_text = ''server rejected: connection refused'', cx_type_name = ''InvalidStatus''\<rparr>
   = TrueNASEndpointNotFoundError ''server rejected: connection refused''"
  using classify_connect_sound [of "\<lparr>cx_kind = InvalidStatus 404, cx_errno = None,
     cx_text = ''server rejected: connection refused'', cx_type_name = ''InvalidStatus''\<rparr>"]
  by simp

end
