(* ===== verification/Actions.thy ===== *)
theory Actions
  imports Exceptions
begin

text \<open>
  Stateful code: an action runs on a state and ends with a value or an exception, in either case
  in a state (what was written before a \<open>raise\<close> stays written).  An \<open>await\<close>ed method of the
  sources that holds its lock from its first to its last access of the state is one action.
\<close>

type_synonym ('s, 'a) action = "'s \<Rightarrow> (py_exn + 'a) \<times> 's"

definition ret :: "'a \<Rightarrow> ('s, 'a) action" where
  "ret x s = (Inr x, s)"

definition raise :: "py_exn \<Rightarrow> ('s, 'a) action" where
  "raise e s = (Inl e, s)"

definition seq :: "('s, 'a) action \<Rightarrow> ('a \<Rightarrow> ('s, 'b) action) \<Rightarrow> ('s, 'b) action" where
  "seq m f s = (case m s of (Inl e, t) \<Rightarrow> (Inl e, t) | (Inr x, t) \<Rightarrow> f x t)"

definition asks :: "('s \<Rightarrow> 'a) \<Rightarrow> ('s, 'a) action" where
  "asks f s = (Inr (f s), s)"

definition modify :: "('s \<Rightarrow> 's) \<Rightarrow> ('s, unit) action" where
  "modify f s = (Inr (), f s)"

text \<open>A computation without state, that may raise a built-in exception, or any.\<close>

definition pure :: "builtin_error + 'a \<Rightarrow> ('s, 'a) action" where
  "pure m s = (case m of Inl e \<Rightarrow> (Inl (Builtin e), s) | Inr x \<Rightarrow> (Inr x, s))"

definition answer :: "py_exn + 'a \<Rightarrow> ('s, 'a) action" where
  "answer r s = (r, s)"

text \<open>\<open>try: m except TrueNASError as err: h\<close>.\<close>

definition catching :: "('s, 'a) action \<Rightarrow> (truenas_error \<Rightarrow> ('s, 'a) action) \<Rightarrow> ('s, 'a) action" where
  "catching m h s = (case m s of (Inl (TrueNAS e), t) \<Rightarrow> h e t | r \<Rightarrow> r)"

text \<open>An action on a part of the state.\<close>

definition zoom :: "('s \<Rightarrow> 'p) \<Rightarrow> ('p \<Rightarrow> 's \<Rightarrow> 's) \<Rightarrow> ('p, 'a) action \<Rightarrow> ('s, 'a) action" where
  "zoom get put m s = (case m (get s) of (r, p) \<Rightarrow> (r, put p s))"

text \<open>\<open>for x in xs: f(x)\<close>.\<close>

fun for_each :: "'x list \<Rightarrow> ('x \<Rightarrow> ('s, unit) action) \<Rightarrow> ('s, unit) action" where
  "for_each [] f = ret ()"
| "for_each (x # xs) f = seq (f x) (\<lambda>_. for_each xs f)"

named_theorems action_simps \<open>running an action\<close>

lemma ret_run [simp, action_simps]: "ret x s = (Inr x, s)"
  by (simp add: ret_def)

lemma raise_run [simp, action_simps]: "raise e s = (Inl e, s)"
  by (simp add: raise_def)

lemma asks_run [simp, action_simps]: "asks f s = (Inr (f s), s)"
  by (simp add: asks_def)

lemma modify_run [simp, action_simps]: "modify f s = (Inr (), f s)"
  by (simp add: modify_def)

lemma answer_run [simp, action_simps]: "answer r s = (r, s)"
  by (simp add: answer_def)

lemma pure_Inr [simp, action_simps]: "pure (Inr x) = ret x"
  by (rule ext) (simp add: pure_def)

lemma pure_Inl [simp, action_simps]: "pure (Inl e) = raise (Builtin e)"
  by (rule ext) (simp add: pure_def)

lemma seq_ret [simp]: "seq (ret x) f = f x"
  by (rule ext) (simp add: seq_def)

lemma seq_raise [simp]: "seq (raise e) f = raise e"
  by (rule ext) (simp add: seq_def)

lemma seq_asks [simp]: "seq (asks g) f s = f (g s) s"
  by (simp add: seq_def)

lemma seq_modify [simp]: "seq (modify g) f s = f () (g s)"
  by (simp add: seq_def)

section \<open>What an action keeps\<close>

text \<open>Every run from a state of \<open>P\<close> ends, with a value or an exception, in a state of \<open>P\<close>.\<close>

definition keeps :: "('s \<Rightarrow> bool) \<Rightarrow> ('s, 'a) action \<Rightarrow> bool" where
  "keeps P m \<longleftrightarrow> (\<forall>s. P s \<longrightarrow> P (snd (m s)))"

named_theorems keeps_intros \<open>composition rules for invariants of actions\<close>

lemma keepsI: "(\<And>s. P s \<Longrightarrow> P (snd (m s))) \<Longrightarrow> keeps P m"
  by (simp add: keeps_def)

lemma keepsD: "keeps P m \<Longrightarrow> P s \<Longrightarrow> P (snd (m s))"
  by (simp add: keeps_def)

lemma keeps_seq [keeps_intros]:
  assumes "keeps P m" "\<And>x. keeps P (f x)"
  shows "keeps P (seq m f)"
proof (rule keepsI)
  fix s
  assume "P s"
  then have m: "P (snd (m s))" using assms(1) by (rule keepsD [rotated])
  show "P (snd (seq m f s))"
    using m assms(2) by (cases "m s"; cases "fst (m s)") (auto simp: seq_def keeps_def)
qed

lemma keeps_basic [keeps_intros]:
  "keeps P (ret x)" "keeps P (raise e)" "keeps P (asks g)" "keeps P (answer r)" "keeps P (pure p)"
  by (auto simp: keeps_def pure_def split: sum.splits)

lemma keeps_modify: "(\<And>s. P s \<Longrightarrow> P (g s)) \<Longrightarrow> keeps P (modify g)"
  by (simp add: keeps_def)

lemma keeps_catching [keeps_intros]:
  assumes "keeps P m" "\<And>e. keeps P (h e)"
  shows "keeps P (catching m h)"
proof (rule keepsI)
  fix s
  assume "P s"
  then have m: "P (snd (m s))" using assms(1) by (rule keepsD [rotated])
  show "P (snd (catching m h s))"
    using m assms(2) by (auto simp: catching_def keeps_def split: prod.splits sum.splits py_exn.splits)
qed

lemma keeps_for_each [keeps_intros]: "(\<And>x. keeps P (f x)) \<Longrightarrow> keeps P (for_each xs f)"
  by (induction xs) (auto intro: keeps_intros)

lemma keeps_if [keeps_intros]:
  "(b \<Longrightarrow> keeps P m) \<Longrightarrow> (\<not> b \<Longrightarrow> keeps P n) \<Longrightarrow> keeps P (if b then m else n)"
  by simp

lemma keeps_zoom:
  assumes "\<And>s. P s \<Longrightarrow> Q (get s)" "keeps Q m" "\<And>s p. P s \<Longrightarrow> Q p \<Longrightarrow> P (put p s)"
  shows "keeps P (zoom get put m)"
  using assms by (auto simp: keeps_def zoom_def split: prod.splits) (metis snd_conv)

end
