(* ===== verification/Helpers.thy ===== *)
theory Helpers
  imports PyText
begin

text \<open>
  The computations of \<open>domain/_helpers.py\<close>: defensive number coercion, medians, the error
  totals of a pool topology, the extraction of means from netdata graphs, cpusets, version
  strings and the damped boot time.  A dictionary of results with string keys is an association
  list, updated with \<^const>\<open>AList.update\<close>.
\<close>

section \<open>Numbers\<close>

definition stat_name_similar :: "string \<Rightarrow> string \<Rightarrow> bool" where
  "stat_name_similar a b =
     (let al = lower a; bl = lower b in
      if al = bl then False
      else if filter (\<lambda>c. c \<noteq> CHR ''_'') al = filter (\<lambda>c. c \<noteq> CHR ''_'') bl then True
      else if starts_with bl al \<or> ends_with bl al \<or> starts_with al bl \<or> ends_with al bl then True
      else \<bar>int (length al) - int (length bl)\<bar> \<le> 2 \<and> take 3 al = take 3 bl)"

text \<open>\<open>sorted\<close>: stable, by \<open><\<close>.\<close>

fun num_insort :: "pynum \<Rightarrow> pynum list \<Rightarrow> pynum list" where
  "num_insort x [] = [x]"
| "num_insort x (y # ys) = (if num_less y x then y # num_insort x ys else x # y # ys)"

definition num_sort :: "pynum list \<Rightarrow> pynum list" where
  "num_sort xs = foldr num_insort xs []"

definition median :: "pynum list \<Rightarrow> builtin_error + pynum" where
  "median vals =
     (let sorted_vals = num_sort vals; n = length sorted_vals; mid = n div 2 in
      if n = 0 then Inl IndexError
      else if n mod 2 = 1 then Inr (sorted_vals ! mid)
      else res_bind (num_add (sorted_vals ! (mid - 1)) (sorted_vals ! mid)) (\<lambda>s. num_div s (NInt 2)))"

fun as_int :: "pyval \<Rightarrow> int" where
  "as_int (PInt i) = i"
| "as_int _ = 0"

definition to_optional_int :: "pyval \<Rightarrow> int option" where
  "to_optional_int v =
     (case v of PBool _ \<Rightarrow> None
      | _ \<Rightarrow> (case py_int v of Inr i \<Rightarrow> Some i | Inl _ \<Rightarrow> None))"

definition to_int :: "pyval \<Rightarrow> int \<Rightarrow> int" where
  "to_int v dflt = (case to_optional_int v of Some i \<Rightarrow> i | None \<Rightarrow> dflt)"

definition is_finite_number :: "pyval \<Rightarrow> bool" where
  "is_finite_number v = (case as_num v of Some n \<Rightarrow> num_finite n | None \<Rightarrow> False)"

text \<open>\<open>[v for v in vs if _is_finite_number(v)]\<close>, as numbers.\<close>

fun finite_numbers :: "pyval list \<Rightarrow> pynum list" where
  "finite_numbers [] = []"
| "finite_numbers (v # vs) =
     (if is_finite_number v then the (as_num v) # finite_numbers vs else finite_numbers vs)"

section \<open>Error totals of a pool topology\<close>

record error_totals =
  tot_read :: int
  tot_write :: int
  tot_checksum :: int

definition zero_totals :: error_totals where
  "zero_totals = \<lparr>tot_read = 0, tot_write = 0, tot_checksum = 0\<rparr>"

definition add_stats :: "pyval \<Rightarrow> error_totals \<Rightarrow> error_totals" where
  "add_stats stats t =
     t\<lparr>tot_read := tot_read t + as_int (field stats ''read_errors''),
       tot_write := tot_write t + as_int (field stats ''write_errors''),
       tot_checksum := tot_checksum t + as_int (field stats ''checksum_errors'')\<rparr>"

lemma size_dget: "dget d k = Some v \<Longrightarrow> size v < size (PDict d)"
  by (induction d) (auto split: if_splits)

lemma size_child:
  "dget d k = Some (PList cs) \<Longrightarrow> c \<in> set cs \<Longrightarrow> size c < size (PDict d)"
  using size_dget [of d k "PList cs"] size_list_estimation' [of c cs "size c" size] by simp

function accumulate_vdev_errors :: "pyval \<Rightarrow> error_totals \<Rightarrow> error_totals" where
  "accumulate_vdev_errors vdev totals =
     (case vdev of
        PDict d \<Rightarrow>
          (case dget d (PStr ''children'') of
             Some (PList (c # cs)) \<Rightarrow> fold accumulate_vdev_errors (c # cs) totals
           | _ \<Rightarrow> (case sget d ''stats'' of
                Some (PDict s) \<Rightarrow> add_stats (PDict s) totals
              | _ \<Rightarrow> totals))
      | _ \<Rightarrow> totals)"
  by pat_completeness auto
termination
  by (relation "measure (size \<circ> fst)") (auto dest: size_child)

declare accumulate_vdev_errors.simps [simp del]

definition aggregate_topology_errors :: "pyval \<Rightarrow> int \<times> int \<times> int" where
  "aggregate_topology_errors topology =
     (case topology of
        PDict d \<Rightarrow>
          (let t = fold (\<lambda>category t. case category of
                       PList vdevs \<Rightarrow> fold accumulate_vdev_errors vdevs t | _ \<Rightarrow> t)
                     (map snd d) zero_totals
           in (tot_read t, tot_write t, tot_checksum t))
      | _ \<Rightarrow> (0, 0, 0))"

section \<open>Netdata graphs\<close>

text \<open>The \<open>defaultdict\<close> of samples by column, in the order the columns first gave one.\<close>

fun add_sample :: "nat \<Rightarrow> pynum \<Rightarrow> (nat \<times> pynum list) list \<Rightarrow> (nat \<times> pynum list) list" where
  "add_sample i v [] = [(i, [v])]"
| "add_sample i v ((j, vs) # s) = (if j = i then (j, vs @ [v]) # s else (j, vs) # add_sample i v s)"

definition add_point :: "pyval \<Rightarrow> (nat \<times> pynum list) list \<Rightarrow> (nat \<times> pynum list) list" where
  "add_point point series =
     (case point of
        PList (t # v # vs) \<Rightarrow>
          fold (\<lambda>(i, x) s. if is_finite_number x then add_sample i (the (as_num x)) s else s)
            (zip [0..<length (v # vs)] (v # vs)) series
      | _ \<Rightarrow> series)"

definition raw_sample_values :: "pyval \<Rightarrow> builtin_error + pynum list" where
  "raw_sample_values data =
     (case data of
        PList points \<Rightarrow> res_list (map (py_mean \<circ> snd) (fold add_point points []))
      | _ \<Rightarrow> Inr [])"

text \<open>\<open>item.get("aggregations")\<close>, and its \<open>"mean"\<close> when it is a dictionary.\<close>

definition mean_of_item :: "pyval \<Rightarrow> pyval" where
  "mean_of_item item = field (field item ''aggregations'') ''mean''"

fun dict_values :: "pyval \<Rightarrow> pyval list" where
  "dict_values (PDict d) = map snd d"
| "dict_values _ = []"

text \<open>The aggregated means of an item, or else the means of its raw samples.\<close>

definition item_values :: "pyval \<Rightarrow> builtin_error + pynum list" where
  "item_values item =
     (case finite_numbers (dict_values (mean_of_item item)) of
        [] \<Rightarrow> raw_sample_values (field item ''data'')
      | vs \<Rightarrow> Inr vs)"

fun first_item :: "pyval \<Rightarrow> pyval option" where
  "first_item (PList (PDict d # xs)) = Some (PDict d)"
| "first_item _ = None"

definition netdata_mean_value :: "pyval \<Rightarrow> builtin_error + pynum option" where
  "netdata_mean_value graph_data =
     (case first_item graph_data of
        None \<Rightarrow> Inr None
      | Some item \<Rightarrow> res_bind (item_values item)
          (\<lambda>vs. if vs = [] then Inr None else res_map (Some \<circ> num_round_to 2) (py_mean vs)))"

definition arc_value :: "pyval \<Rightarrow> builtin_error + pynum option" where
  "arc_value graph_data = netdata_mean_value graph_data"

definition ups_value :: "pyval \<Rightarrow> builtin_error + pynum option" where
  "ups_value graph_data = netdata_mean_value graph_data"

definition find_disk_temp_graph_name :: "pyval list \<Rightarrow> string" where
  "find_disk_temp_graph_name graphs =
     (case List.find
        (\<lambda>graph. case graph of
           PDict d \<Rightarrow>
             (let name = py_str (get_or d ''name'' (PStr []));
                  title = lower (py_str (get_or d ''title'' (PStr [])));
                  vertical = lower (py_str (get_or d ''vertical_label'' (PStr [])))
              in (contains ''disk'' name \<or> contains ''disk'' title)
                 \<and> (contains ''temp'' name \<or> contains ''temp'' title \<or> contains ''celsius'' vertical))
         | _ \<Rightarrow> False) graphs of
        Some (PDict d) \<Rightarrow> py_str (get_or d ''name'' (PStr []))
      | _ \<Rightarrow> [])"

definition sane_temperature :: "pynum \<Rightarrow> bool" where
  "sane_temperature v = (num_le (NFloat (Fin 0)) v \<and> num_le v (NFloat (Fin 100)))"

definition add_disk_temp ::
  "pyval \<Rightarrow> (string \<times> pynum) list \<Rightarrow> builtin_error + (string \<times> pynum) list" where
  "add_disk_temp entry temps =
     (case entry of
        PDict d \<Rightarrow>
          (let identifier = get_or d ''identifier'' PNone in
           if \<not> truthy identifier then Inr temps
           else res_bind (item_values entry) (\<lambda>vs.
             case filter sane_temperature vs of
               [] \<Rightarrow> Inr temps
             | valid_means \<Rightarrow> res_map (\<lambda>m. AList.update (py_str identifier) m temps) (median valid_means)))
      | _ \<Rightarrow> Inr temps)"

definition disk_temps_from_graph_data :: "pyval list \<Rightarrow> builtin_error + (string \<times> pynum) list" where
  "disk_temps_from_graph_data graph_data = res_fold add_disk_temp graph_data []"

definition has_disk_temp_entries :: "pyval \<Rightarrow> bool" where
  "has_disk_temp_entries graph_data =
     (case graph_data of
        PList xs \<Rightarrow> list_ex (\<lambda>entry. is_dict entry \<and> truthy (field entry ''identifier'')) xs
      | _ \<Rightarrow> False)"

definition has_netdata_series_entry :: "pyval \<Rightarrow> bool" where
  "has_netdata_series_entry graph_data =
     (case graph_data of
        PList xs \<Rightarrow> list_ex (\<lambda>entry. is_dict entry \<and>
          (truthy (field entry ''identifier'') \<or> truthy (field entry ''name''))) xs
      | _ \<Rightarrow> False)"

text \<open>\<open>float(v)\<close> of a finite number, which cannot raise.\<close>

definition finite_float :: "pyval \<Rightarrow> pyfloat" where
  "finite_float v = res_else (num_float (the (as_num v))) NaN"

definition netdata_named_means :: "pyval \<Rightarrow> string list \<Rightarrow> (string \<times> pyfloat) list" where
  "netdata_named_means graph_data names =
     (case first_item graph_data of
        None \<Rightarrow> []
      | Some item \<Rightarrow>
          (case (field item ''legend'', field item ''aggregations'') of
             (PList legend, PDict aggregations) \<Rightarrow>
               fold (\<lambda>name result.
                   if \<not> py_in (PStr name) legend then result
                   else (let v = field (get_or aggregations ''mean'' PNone) name in
                         if is_finite_number v then AList.update name (finite_float v) result else result))
                 names []
           | _ \<Rightarrow> []))"

definition max_num :: "pynum \<Rightarrow> pynum list \<Rightarrow> pynum" where
  "max_num x xs = fold (\<lambda>v m. if num_less m v then v else m) xs x"

definition netdata_max_mean :: "pyval \<Rightarrow> pynum option" where
  "netdata_max_mean graph_data =
     (case first_item graph_data of
        None \<Rightarrow> None
      | Some item \<Rightarrow>
          (case finite_numbers (dict_values (mean_of_item item)) of
             [] \<Rightarrow> None
           | v # vs \<Rightarrow> Some (num_round_to 2 (max_num v vs))))"

definition KILOBITS_TO_KIBIBYTES :: pynum where
  "KILOBITS_TO_KIBIBYTES = NFloat (Fin (1000 / 8192))"

definition NETDATA_INTERFACE_RENAME :: "(string \<times> string) list" where
  "NETDATA_INTERFACE_RENAME = [(''received'', ''rx''), (''sent'', ''tx'')]"

definition interface_item_throughput :: "pyval \<Rightarrow> builtin_error + (string \<times> pynum) list" where
  "interface_item_throughput item =
     (case (field item ''legend'', mean_of_item item) of
        (PList legend, PDict mean) \<Rightarrow>
          res_fold (\<lambda>(raw_name, short_name) throughput.
              if \<not> py_in (PStr raw_name) legend \<and> \<not> py_in (PStr short_name) legend then Inr throughput
              else (case List.find is_finite_number
                      [get_or mean raw_name PNone, get_or mean short_name PNone] of
                      None \<Rightarrow> Inr throughput
                    | Some v \<Rightarrow> res_map (\<lambda>x. AList.update short_name (num_round_to 2 x) throughput)
                        (num_mul (the (as_num v)) KILOBITS_TO_KIBIBYTES)))
            NETDATA_INTERFACE_RENAME []
      | _ \<Rightarrow> Inr [])"

definition netdata_interface_throughput ::
  "pyval \<Rightarrow> builtin_error + (string \<times> (string \<times> pynum) list) list" where
  "netdata_interface_throughput graph_data =
     (case graph_data of
        PList items \<Rightarrow>
          res_fold (\<lambda>item result.
              case field item ''identifier'' of
                PStr s \<Rightarrow> if s = [] then Inr result
                  else res_map (\<lambda>t. AList.update s t result) (interface_item_throughput item)
              | _ \<Rightarrow> Inr result)
            items []
      | _ \<Rightarrow> Inr [])"

section \<open>Cpusets, addresses, versions and boot times\<close>

definition cpuset_part :: "string \<Rightarrow> int" where
  "cpuset_part raw_part =
     (let part = strip raw_part in
      if part = [] then 0
      else (case split_first CHR ''-'' part of
          (a, Some b) \<Rightarrow> (case (parse_int a, parse_int b) of
              (Some start, Some fin) \<Rightarrow> max 0 (fin - start + 1) | _ \<Rightarrow> 0)
        | (a, None) \<Rightarrow> (case parse_int part of Some _ \<Rightarrow> 1 | None \<Rightarrow> 0)))"

definition cpuset_size :: "pyval \<Rightarrow> int" where
  "cpuset_size cpuset =
     (case cpuset of
        PStr s \<Rightarrow> if strip s = [] then 0
          else fold (\<lambda>part count. count + cpuset_part part) (split_on CHR '','' s) 0
      | _ \<Rightarrow> 0)"

definition inet_address :: "pyval \<Rightarrow> string option" where
  "inet_address alias =
     (if field alias ''type'' = PStr ''INET''
      then (case field alias ''address'' of PStr (c # s) \<Rightarrow> Some (c # s) | _ \<Rightarrow> None) else None)"

definition first_ipv4 :: "pyval \<Rightarrow> string" where
  "first_ipv4 aliases =
     (case aliases of
        PList xs \<Rightarrow> (case List.find (\<lambda>a. inet_address a \<noteq> None) xs of
            Some a \<Rightarrow> the (inet_address a) | None \<Rightarrow> ''unknown'')
      | _ \<Rightarrow> ''unknown'')"

definition VIRTUAL_MANUFACTURERS :: "string list" where
  "VIRTUAL_MANUFACTURERS = [''QEMU'', ''VMware, Inc.'', ''Microsoft Corporation'', ''Xen'']"

definition VIRTUAL_PRODUCTS :: "string list" where
  "VIRTUAL_PRODUCTS = [''VirtualBox'', ''Virtual Machine'']"

definition is_virtual_machine :: "pyval \<Rightarrow> pyval \<Rightarrow> bool" where
  "is_virtual_machine manufacturer product =
     ((case manufacturer of PStr s \<Rightarrow> s \<in> set VIRTUAL_MANUFACTURERS | _ \<Rightarrow> False)
      \<or> (case product of PStr s \<Rightarrow> s \<in> set VIRTUAL_PRODUCTS | _ \<Rightarrow> False))"

definition num_abs :: "pynum \<Rightarrow> pynum" where
  "num_abs x = (case x of NInt i \<Rightarrow> NInt \<bar>i\<bar>
     | NFloat f \<Rightarrow> NFloat (case f of Fin q \<Rightarrow> Fin \<bar>q\<bar> | NegInf \<Rightarrow> PosInf | y \<Rightarrow> y))"

definition stable_uptime_epoch :: "pyval \<Rightarrow> pyval \<Rightarrow> int \<Rightarrow> int \<Rightarrow> builtin_error + int" where
  "stable_uptime_epoch previous_epoch uptime_seconds now_epoch tolerance =
     (let previous = (case as_num_bool previous_epoch of Some n \<Rightarrow> n | None \<Rightarrow> NInt 0) in
      if \<not> is_finite_number uptime_seconds then num_int previous
      else res_bind (num_sub (NInt now_epoch) (the (as_num uptime_seconds))) (\<lambda>boot.
           res_bind (num_int boot) (\<lambda>new_epoch.
           res_bind (num_sub (NInt new_epoch) previous) (\<lambda>drift.
             if num_less (NInt tolerance) (num_abs drift) then Inr new_epoch else num_int previous))))"

text \<open>\<open>s.replace(needle, "")\<close> for a non-empty needle.\<close>

function remove_sub :: "string \<Rightarrow> string \<Rightarrow> string" where
  "remove_sub needle s =
     (case s of [] \<Rightarrow> []
      | c # r \<Rightarrow> if needle \<noteq> [] \<and> starts_with needle s then remove_sub needle (drop (length needle) s)
          else c # remove_sub needle r)"
  by pat_completeness auto
termination
  by (relation "measure (length \<circ> snd)") auto

declare remove_sub.simps [simp del]

text \<open>
  The first match of \<open>(\d{1,9})\.(\d{1,9})\<close>.  The first group cannot give a digit back to the
  dot, so a run of more than nine digits only matches from a later start.
\<close>

definition version_at :: "string \<Rightarrow> (int \<times> int) option" where
  "version_at s =
     (let major = takeWhile is_digit s; rest = dropWhile is_digit s;
          minor = take 9 (takeWhile is_digit (drop 1 rest)) in
      if 1 \<le> length major \<and> length major \<le> 9 \<and> starts_with ''.'' rest \<and> minor \<noteq> []
      then Some (digits_val major, digits_val minor) else None)"

fun search_version :: "string \<Rightarrow> (int \<times> int) option" where
  "search_version [] = None"
| "search_version (c # s) =
     (case version_at (c # s) of Some v \<Rightarrow> Some v | None \<Rightarrow> search_version s)"

definition parse_version_tuple :: "pyval \<Rightarrow> int \<times> int" where
  "parse_version_tuple version_str =
     (case version_str of
        PStr s \<Rightarrow> (case search_version (remove_sub ''SCALE-'' (remove_sub ''TrueNAS-'' s)) of
            Some v \<Rightarrow> v | None \<Rightarrow> (0, 0))
      | _ \<Rightarrow> (0, 0))"

end
