(* ===== verification/Alerts.thy ===== *)
theory Alerts
  imports Helpers
begin

text \<open>
  The alert aggregation of \<open>domain/state.py\<close> (\<open>_alert_level\<close> to \<open>_aggregate_alerts\<close>), and what
  its counters add up to.  The once-per-process warning about an unknown level only logs and is
  not modelled.
\<close>

definition ALERT_LEVELS :: "string list" where
  "ALERT_LEVELS = [''INFO'', ''NOTICE'', ''WARNING'', ''ERROR'', ''CRITICAL'', ''ALERT'', ''EMERGENCY'']"

definition ALERT_LEVEL_UNKNOWN :: string where
  "ALERT_LEVEL_UNKNOWN = ''UNKNOWN''"

text \<open>\<open>_ALERT_LEVEL_RANK.get(level, -1)\<close>.\<close>

definition ALERT_LEVEL_RANK :: "(string \<times> int) list" where
  "ALERT_LEVEL_RANK = zip ALERT_LEVELS [0 .. 6]"

definition alert_rank :: "string \<Rightarrow> int" where
  "alert_rank level = (case map_of ALERT_LEVEL_RANK level of Some r \<Rightarrow> r | None \<Rightarrow> -1)"

definition DISK_ALERT_TERMS :: "string list" where
  "DISK_ALERT_TERMS = [''disk'', ''pool'', ''smart'']"

definition alert_level :: "pydict \<Rightarrow> string" where
  "alert_level alert =
     (case get_or alert ''level'' PNone of
        PStr s \<Rightarrow> if map_of ALERT_LEVEL_RANK s \<noteq> None then s else ALERT_LEVEL_UNKNOWN
      | _ \<Rightarrow> ALERT_LEVEL_UNKNOWN)"

definition is_disk_alert :: "pydict \<Rightarrow> bool" where
  "is_disk_alert alert =
     (let klass = lower (py_str (get_or alert ''klass'' (PStr [])));
          title = lower (py_str (get_or alert ''title'' (PStr [])))
      in list_ex (\<lambda>term. contains term klass \<or> contains term title) DISK_ALERT_TERMS)"

text \<open>\<open>max(levels, key=rank)\<close>: the first of the greatest rank.\<close>

definition max_level :: "string \<Rightarrow> string list \<Rightarrow> string" where
  "max_level l ls = fold (\<lambda>x m. if alert_rank m < alert_rank x then x else m) ls l"

definition highest_level :: "string list \<Rightarrow> pyval" where
  "highest_level levels = (case levels of [] \<Rightarrow> PNone | l # ls \<Rightarrow> PStr (max_level l ls))"

definition level_counts :: "string list \<Rightarrow> pydict \<Rightarrow> pydict" where
  "level_counts levels result =
     fold (\<lambda>level r. sset r (lower level) (PInt (int (count_list levels level))))
       (ALERT_LEVELS @ [ALERT_LEVEL_UNKNOWN]) result"

definition aggregate_alerts :: "pydict list \<Rightarrow> pydict" where
  "aggregate_alerts active =
     (let levels = map alert_level active;
          result = [(PStr ''count'', PInt (int (length active))),
                    (PStr ''messages'', PList (map (\<lambda>a. get_or a ''formatted'' (PStr ''Unknown alert'')) active))];
          result = level_counts levels result;
          result = sset result ''disk_issues'' (PBool (list_ex is_disk_alert active));
          result = sset result ''uuids'' (PList (map (\<lambda>a. get_or a ''uuid'' PNone) active));
          result = sset result ''levels'' (PList (map PStr levels))
      in sset result ''highest_level'' (highest_level levels))"

section \<open>Counters\<close>

definition all_levels :: "string list" where
  "all_levels = ALERT_LEVELS @ [ALERT_LEVEL_UNKNOWN]"

lemma alert_level_known: "alert_level a \<in> set all_levels"
proof -
  have "map_of ALERT_LEVEL_RANK s \<noteq> None \<longleftrightarrow> s \<in> set ALERT_LEVELS" for s
    by (simp add: ALERT_LEVEL_RANK_def map_of_eq_None_iff ALERT_LEVELS_def upto.simps)
  then show ?thesis by (auto simp: alert_level_def all_levels_def split: pyval.split)
qed

lemma fold_sset_other:
  "k \<notin> g ` set ls \<Longrightarrow> sget (fold (\<lambda>l r. sset r (g l) (h l)) ls d) k = sget d k"
  by (induction ls arbitrary: d) auto

lemma fold_sset_get:
  "distinct (map g ls) \<Longrightarrow> l \<in> set ls \<Longrightarrow> sget (fold (\<lambda>l r. sset r (g l) (h l)) ls d) (g l) = Some (h l)"
proof (induction ls arbitrary: d)
  case (Cons x xs)
  show ?case
  proof (cases "l = x")
    case True
    with Cons.prems have "g l \<notin> g ` set xs" by auto
    with True show ?thesis by (simp add: fold_sset_other)
  next
    case False
    with Cons show ?thesis by simp
  qed
qed simp

lemma lower_levels:
  "map lower all_levels =
    [''info'', ''notice'', ''warning'', ''error'', ''critical'', ''alert'', ''emergency'', ''unknown'']"
  by code_simp

lemma level_counts_get:
  "level \<in> set all_levels \<Longrightarrow>
    sget (level_counts levels d) (lower level) = Some (PInt (int (count_list levels level)))"
  unfolding level_counts_def all_levels_def [symmetric]
  by (rule fold_sset_get) (simp_all add: lower_levels)

lemma level_counts_other:
  "k \<notin> set (map lower all_levels) \<Longrightarrow> sget (level_counts levels d) k = sget d k"
  unfolding level_counts_def all_levels_def [symmetric] by (rule fold_sset_other) simp

lemma aggregate_level:
  assumes "level \<in> set all_levels"
  shows "sget (aggregate_alerts active) (lower level)
    = Some (PInt (int (count_list (map alert_level active) level)))"
proof -
  have "lower level \<in> set (map lower all_levels)" using assms by simp
  then have "lower level \<notin> {''disk_issues'', ''uuids'', ''levels'', ''highest_level''}"
    unfolding lower_levels by auto
  then show ?thesis using level_counts_get [OF assms] by (auto simp: aggregate_alerts_def Let_def)
qed

lemma aggregate_fields:
  "sget (aggregate_alerts active) ''count'' = Some (PInt (int (length active)))"
  "sget (aggregate_alerts active) ''levels'' = Some (PList (map PStr (map alert_level active)))"
  "sget (aggregate_alerts active) ''uuids'' = Some (PList (map (\<lambda>a. get_or a ''uuid'' PNone) active))"
  "sget (aggregate_alerts active) ''messages'' =
     Some (PList (map (\<lambda>a. get_or a ''formatted'' (PStr ''Unknown alert'')) active))"
  "sget (aggregate_alerts active) ''highest_level'' = Some (highest_level (map alert_level active))"
  unfolding aggregate_alerts_def Let_def by (simp_all add: level_counts_other lower_levels)

lemma sum_zero: "x \<notin> set ys \<Longrightarrow> (\<Sum>y \<leftarrow> ys. if x = y then 1 else 0) = (0 :: nat)"
  by (induction ys) auto

lemma sum_one:
  "distinct ys \<Longrightarrow> x \<in> set ys \<Longrightarrow> (\<Sum>y \<leftarrow> ys. if x = y then 1 else 0) = (1 :: nat)"
  by (induction ys) (auto simp: sum_zero)

lemma sum_counts:
  assumes "distinct ys" "set xs \<subseteq> set ys"
  shows "(\<Sum>y \<leftarrow> ys. count_list xs y) = length xs"
  using assms(2)
proof (induction xs)
  case Nil
  show ?case by (induction ys) auto
next
  case (Cons x xs)
  have "(\<Sum>y \<leftarrow> ys. count_list (x # xs) y) = (\<Sum>y \<leftarrow> ys. count_list xs y) + (\<Sum>y \<leftarrow> ys. if x = y then 1 else 0)"
    by (induction ys) auto
  also have "(\<Sum>y \<leftarrow> ys. if x = y then 1 else 0) = (1 :: nat)"
    by (rule sum_one) (use assms(1) Cons.prems in auto)
  finally show ?case using Cons by simp
qed

lemma int_sum_list: "(\<Sum>y \<leftarrow> ys. int (f y)) = int (\<Sum>y \<leftarrow> ys. f y)"
  by (induction ys) auto

lemma max_level_ge:
  "alert_rank l \<le> alert_rank (max_level l ls) \<and> (\<forall>x \<in> set ls. alert_rank x \<le> alert_rank (max_level l ls))
    \<and> max_level l ls \<in> set (l # ls)"
proof (induction ls arbitrary: l)
  case Nil
  then show ?case by (simp add: max_level_def)
next
  case (Cons x xs)
  have "max_level l (x # xs) = max_level (if alert_rank l < alert_rank x then x else l) xs"
    by (simp add: max_level_def)
  then show ?case using Cons.IH [of "if alert_rank l < alert_rank x then x else l"]
    by (auto split: if_splits)
qed

text \<open>
  C30: the alert counters are consistent: the eight level counters sum to \<open>count\<close>, which is the
  common length of \<open>messages\<close>, \<open>uuids\<close> and \<open>levels\<close>, and \<open>highest_level\<close> is \<open>None\<close> exactly when
  there is no alert, otherwise a level of greatest rank among \<open>levels\<close>.
\<close>

theorem alert_counters_consistent:
  "\<exists>messages uuids levels counts.
     sget (aggregate_alerts active) ''count'' = Some (PInt (int (length active)))
     \<and> sget (aggregate_alerts active) ''messages'' = Some (PList messages) \<and> length messages = length active
     \<and> sget (aggregate_alerts active) ''uuids'' = Some (PList uuids) \<and> length uuids = length active
     \<and> sget (aggregate_alerts active) ''levels'' = Some (PList (map PStr levels)) \<and> length levels = length active
     \<and> list_all2 (\<lambda>level n. sget (aggregate_alerts active) (lower level) = Some (PInt n)) all_levels counts
     \<and> sum_list counts = int (length active)
     \<and> (case levels of
          [] \<Rightarrow> sget (aggregate_alerts active) ''highest_level'' = Some PNone
        | _ \<Rightarrow> \<exists>h \<in> set levels. sget (aggregate_alerts active) ''highest_level'' = Some (PStr h)
              \<and> list_all (\<lambda>l. alert_rank l \<le> alert_rank h) levels)"
proof -
  let ?levels = "map alert_level active"
  have all2: "list_all2 (\<lambda>level n. sget (aggregate_alerts active) (lower level) = Some (PInt n)) all_levels
      (map (\<lambda>l. int (count_list ?levels l)) all_levels)"
    unfolding list_all2_map2 by (rule list.rel_refl_strong) (rule aggregate_level)
  have "distinct all_levels" by (simp add: all_levels_def ALERT_LEVELS_def ALERT_LEVEL_UNKNOWN_def)
  moreover have "set ?levels \<subseteq> set all_levels" using alert_level_known by auto
  ultimately have "(\<Sum>l \<leftarrow> all_levels. count_list ?levels l) = length active"
    using sum_counts [of all_levels ?levels] by simp
  then have "sum_list (map (\<lambda>l. int (count_list ?levels l)) all_levels) = int (length active)"
    by (simp only: int_sum_list)
  moreover have "case ?levels of
          [] \<Rightarrow> sget (aggregate_alerts active) ''highest_level'' = Some PNone
        | _ \<Rightarrow> \<exists>h \<in> set ?levels. sget (aggregate_alerts active) ''highest_level'' = Some (PStr h)
              \<and> list_all (\<lambda>l. alert_rank l \<le> alert_rank h) ?levels"
    using max_level_ge [of "hd ?levels" "tl ?levels"]
    by (cases ?levels) (auto simp: aggregate_fields highest_level_def list_all_iff)
  ultimately show ?thesis
    using all2 aggregate_fields [of active] by (intro exI conjI) auto
qed

end
