(* ===== verification/Normalize.thy ===== *)
theory Normalize
  imports PyText
begin

text \<open>
  The declarative mapping engine of \<open>domain/_normalize.py\<close>: field specifications, the
  resolution and coercion of one field, and \<open>parse_api\<close>, which folds a raw payload into a
  dictionary of records keyed by an id field.  The absent value \<open>_MISSING\<close> is \<^const>\<open>None\<close>;
  absent keyword arguments and empty lists are both \<open>[]\<close> (the code treats them alike).
\<close>

section \<open>Specifications\<close>

record api_value_spec =
  sp_name :: string
  sp_type :: "string option"
  sp_source :: "string option"
  sp_default :: "pyval option"
  sp_default_val :: "string option"
  sp_reverse :: "bool option"
  sp_convert :: "string option"

text \<open>\<open>val[k]\<close>, for a key of the specification given as a string.\<close>

definition spec_item :: "api_value_spec \<Rightarrow> string \<Rightarrow> pyval option" where
  "spec_item sp k =
     (if k = ''name'' then Some (PStr (sp_name sp))
      else if k = ''type'' then map_option PStr (sp_type sp)
      else if k = ''source'' then map_option PStr (sp_source sp)
      else if k = ''default'' then sp_default sp
      else if k = ''default_val'' then map_option PStr (sp_default_val sp)
      else if k = ''reverse'' then map_option PBool (sp_reverse sp)
      else if k = ''convert'' then map_option PStr (sp_convert sp)
      else None)"

definition opt_or :: "'a option \<Rightarrow> 'a \<Rightarrow> 'a" where
  "opt_or x d = (case x of Some v \<Rightarrow> v | None \<Rightarrow> d)"

lemma opt_or_simps [simp]: "opt_or (Some v) d = v" "opt_or None d = d"
  by (simp_all add: opt_or_def)

definition is_bool_spec :: "api_value_spec \<Rightarrow> bool" where
  "is_bool_spec sp = (opt_or (sp_type sp) ''str'' = ''bool'')"

section \<open>Resolution of a field\<close>

definition MILLIS_TIMESTAMP_THRESHOLD :: int where
  "MILLIS_TIMESTAMP_THRESHOLD = 100000000000"

definition BOOL_TRUE_VALUES :: "string list" where
  "BOOL_TRUE_VALUES = [''on'', ''yes'', ''up'', ''true'', ''1'']"

definition BOOL_FALSE_VALUES :: "string list" where
  "BOOL_FALSE_VALUES = [''off'', ''no'', ''down'', ''false'', ''0'']"

definition utc_from_timestamp :: "pynum \<Rightarrow> builtin_error + pyval" where
  "utc_from_timestamp t = from_timestamp t"

fun human_date_to_utc :: "pyval \<Rightarrow> pyval" where
  "human_date_to_utc (PStr s) = (case strptime_utc s of Some us \<Rightarrow> PDate us | None \<Rightarrow> PNone)"
| "human_date_to_utc _ = PNone"

fun walk_path :: "pyval \<Rightarrow> string list \<Rightarrow> pyval option" where
  "walk_path current [] = Some current"
| "walk_path (PDict d) (p # ps) =
     (case sget d p of Some v \<Rightarrow> walk_path v ps | None \<Rightarrow> None)"
| "walk_path _ (p # ps) = None"

definition resolve_source :: "pyval \<Rightarrow> string \<Rightarrow> pyval option" where
  "resolve_source entry param =
     (if CHR ''/'' \<notin> set param
      then (case entry of PDict d \<Rightarrow> sget d param | _ \<Rightarrow> None)
      else walk_path entry (split_on CHR ''/'' param))"

definition from_entry ::
  "pyval \<Rightarrow> string \<Rightarrow> pyval \<Rightarrow> nat option \<Rightarrow> nat option \<Rightarrow> pyval" where
  "from_entry entry param dflt max_len round_digits =
     (case resolve_source entry param of
        None \<Rightarrow> dflt
      | Some ret \<Rightarrow>
          (let ret = (case (ret, round_digits) of
                        (PFloat x, Some n) \<Rightarrow> PFloat (float_round_to n x) | _ \<Rightarrow> ret)
           in case (ret, max_len) of
                (PStr s, Some n) \<Rightarrow> if length s > n then PStr (take n s) else ret
              | _ \<Rightarrow> ret))"

definition coerce_bool :: "pyval \<Rightarrow> pyval \<Rightarrow> pyval" where
  "coerce_bool value dflt =
     (case value of
        PStr s \<Rightarrow> (let normalized = lower (strip s) in
          if normalized \<in> set BOOL_TRUE_VALUES then PBool True
          else if normalized \<in> set BOOL_FALSE_VALUES then PBool False
          else dflt)
      | PBool b \<Rightarrow> PBool b
      | _ \<Rightarrow> dflt)"

definition from_entry_bool :: "pyval \<Rightarrow> string \<Rightarrow> pyval \<Rightarrow> bool \<Rightarrow> pyval" where
  "from_entry_bool entry param dflt reverse =
     (case resolve_source entry param of
        None \<Rightarrow> dflt
      | Some ret \<Rightarrow>
          (let ret = coerce_bool ret dflt
           in if reverse then PBool (\<not> truthy ret) else ret))"

definition str_default :: "api_value_spec \<Rightarrow> pyval" where
  "str_default sp =
     (case Option.bind (sp_default_val sp) (spec_item sp) of
        Some v \<Rightarrow> v
      | None \<Rightarrow> opt_or (sp_default sp) (PStr []))"

definition bool_default :: "api_value_spec \<Rightarrow> pyval" where
  "bool_default sp =
     (let dflt = opt_or (sp_default sp) (PBool False)
      in if opt_or (sp_reverse sp) False then PBool (\<not> truthy dflt) else dflt)"

definition spec_default :: "api_value_spec \<Rightarrow> pyval" where
  "spec_default sp = (if is_bool_spec sp then bool_default sp else str_default sp)"

text \<open>The timestamp and date conversions of a value already stored.\<close>

definition timestamp_to_date :: "pyval \<Rightarrow> pyval" where
  "timestamp_to_date v =
     (case v of
        PInt value \<Rightarrow>
          (if value \<le> 0 then PNone
           else res_else
             (res_bind
               (if value > MILLIS_TIMESTAMP_THRESHOLD then num_div (NInt value) (NInt 1000)
                else Inr (NInt value))
               utc_from_timestamp) PNone)
      | _ \<Rightarrow> PNone)"

definition convert_timestamp :: "pydict \<Rightarrow> string \<Rightarrow> pydict" where
  "convert_timestamp target name = sset target name (timestamp_to_date (get_or target name PNone))"

definition convert_human_date :: "pydict \<Rightarrow> string \<Rightarrow> pydict" where
  "convert_human_date target name = sset target name (human_date_to_utc (get_or target name PNone))"

definition set_val :: "pyval \<Rightarrow> api_value_spec \<Rightarrow> pydict \<Rightarrow> pydict" where
  "set_val entry sp target =
     (let name = sp_name sp; source = opt_or (sp_source sp) name;
          target = sset target name
            (if is_bool_spec sp
             then from_entry_bool entry source (bool_default sp) (opt_or (sp_reverse sp) False)
             else from_entry entry source (str_default sp) (Some 255) None)
      in if sp_convert sp = Some ''utc_from_timestamp'' then convert_timestamp target name
         else if sp_convert sp = Some ''human_date_to_utc'' then convert_human_date target name
         else target)"

section \<open>Records\<close>

text \<open>
  The dictionary a uid stands for, created anew if missing or not a dictionary; without a uid,
  the data itself.  The loops below update it in place.
\<close>

definition resolve_target :: "pydict \<Rightarrow> pyval option \<Rightarrow> pydict" where
  "resolve_target data uid =
     (case uid of None \<Rightarrow> data
      | Some u \<Rightarrow> (case dget data u of Some (PDict t) \<Rightarrow> t | _ \<Rightarrow> []))"

definition store_target :: "pydict \<Rightarrow> pyval option \<Rightarrow> pydict \<Rightarrow> pydict" where
  "store_target data uid target =
     (case uid of None \<Rightarrow> target | Some u \<Rightarrow> dset data u (PDict target))"

definition fill_vals :: "pydict \<Rightarrow> pyval \<Rightarrow> pyval option \<Rightarrow> api_value_spec list \<Rightarrow> pydict" where
  "fill_vals data entry uid vals =
     store_target data uid (fold (set_val entry) vals (resolve_target data uid))"

definition set_default :: "api_value_spec \<Rightarrow> pydict \<Rightarrow> pydict" where
  "set_default sp target =
     (if has_key target (PStr (sp_name sp)) then target
      else sset target (sp_name sp) (spec_default sp))"

definition fill_ensure_vals :: "pydict \<Rightarrow> pyval option \<Rightarrow> api_value_spec list \<Rightarrow> pydict" where
  "fill_ensure_vals data uid ensure_vals =
     store_target data uid (fold set_default ensure_vals (resolve_target data uid))"

definition fill_defaults :: "pydict \<Rightarrow> api_value_spec list \<Rightarrow> pydict" where
  "fill_defaults data vals = fold set_default vals data"

subsection \<open>Derived keys (\<open>val_proc\<close>)\<close>

record val_proc_item =
  vp_name :: "string option"
  vp_action :: "string option"
  vp_key :: "string option"
  vp_text :: "pyval option"

definition SUPPORTED_VALS_PROC_ACTIONS :: "string list" where
  "SUPPORTED_VALS_PROC_ACTIONS = [''combine'']"

definition validate_action :: "string \<Rightarrow> builtin_error + string" where
  "validate_action action =
     (if action \<notin> set SUPPORTED_VALS_PROC_ACTIONS then Inl ValueError else Inr action)"

definition append_text :: "pyval \<Rightarrow> pyval \<Rightarrow> pyval" where
  "append_text value tmp = (if truthy value then PStr (py_str value @ py_str tmp) else tmp)"

definition combine_value :: "pydict \<Rightarrow> val_proc_item \<Rightarrow> pyval \<Rightarrow> pyval" where
  "combine_value source item value =
     (let value = (case vp_key item of
                     Some k \<Rightarrow> append_text value (get_or source k (PStr ''unknown'')) | None \<Rightarrow> value)
      in case vp_text item of Some tmp \<Rightarrow> append_text value tmp | None \<Rightarrow> value)"

fun process_items ::
  "pydict \<Rightarrow> val_proc_item list \<Rightarrow> string option \<Rightarrow> string option \<Rightarrow> pyval
    \<Rightarrow> builtin_error + (string option \<times> pyval)" where
  "process_items source [] name action value = Inr (name, value)"
| "process_items source (item # items) name action value =
     (case vp_name item of
        Some n \<Rightarrow> process_items source items (Some n) action value
      | None \<Rightarrow>
          (case vp_action item of
             Some a \<Rightarrow> res_bind (validate_action a)
               (\<lambda>a. process_items source items name (Some a) value)
           | None \<Rightarrow>
               (if name = None \<or> action = None then Inr (name, value)
                else process_items source items name action
                  (if action = Some ''combine'' then combine_value source item value else value))))"

definition process_val_sub ::
  "pydict \<Rightarrow> val_proc_item list \<Rightarrow> builtin_error + (string option \<times> pyval)" where
  "process_val_sub source val_sub = process_items source val_sub None None PNone"

definition fill_vals_proc ::
  "pydict \<Rightarrow> pyval option \<Rightarrow> val_proc_item list list \<Rightarrow> builtin_error + pydict" where
  "fill_vals_proc data uid vals_proc =
     res_map (store_target data uid)
       (res_fold
         (\<lambda>val_sub target. res_map
            (\<lambda>(name, value). case name of
               Some n \<Rightarrow> if n \<noteq> [] \<and> value \<noteq> PNone then sset target n value else target
             | None \<Rightarrow> target)
            (process_val_sub target val_sub))
         vals_proc (resolve_target data uid))"

section \<open>\<open>parse_api\<close>\<close>

text \<open>The keyword arguments.  \<open>only\<close> and \<open>skip\<close> are pairs of a field and a value.\<close>

record parse_args =
  pa_key :: "string option"
  pa_key_secondary :: "string option"
  pa_key_search :: "string option"
  pa_vals :: "api_value_spec list"
  pa_val_proc :: "val_proc_item list list"
  pa_ensure_vals :: "api_value_spec list"
  pa_only :: "(string \<times> pyval) list"
  pa_skip :: "(string \<times> pyval) list"
  pa_prune :: bool

definition default_args :: parse_args where
  "default_args = \<lparr>pa_key = None, pa_key_secondary = None, pa_key_search = None, pa_vals = [],
     pa_val_proc = [], pa_ensure_vals = [], pa_only = [], pa_skip = [], pa_prune = True\<rparr>"

text \<open>\<open>bool(s)\<close> for an optional string.\<close>

definition given :: "string option \<Rightarrow> bool" where
  "given s = (s \<noteq> None \<and> s \<noteq> Some [])"

definition keyed :: "parse_args \<Rightarrow> bool" where
  "keyed a = (given (pa_key a) \<or> given (pa_key_search a))"

definition generate_keymap :: "pydict \<Rightarrow> string option \<Rightarrow> pydict option" where
  "generate_keymap data key_search =
     (if \<not> given key_search then None
      else Some (fold
        (\<lambda>(uid, entry) km. case entry of
           PDict e \<Rightarrow> (case sget e (the key_search) of
               Some v \<Rightarrow> if hashable v then dset km v uid else km
             | None \<Rightarrow> km)
         | _ \<Rightarrow> km) data []))"

text \<open>The uid of an entry; a uid of \<open>None\<close> counts as none.\<close>

definition get_uid ::
  "pyval \<Rightarrow> string option \<Rightarrow> string option \<Rightarrow> string option \<Rightarrow> pydict option \<Rightarrow> pyval option" where
  "get_uid entry key key_secondary key_search keymap =
     (case entry of
        PDict d \<Rightarrow>
          (let secondary = (case key_secondary of Some ks \<Rightarrow> get_or d ks PNone | None \<Rightarrow> PNone);
               uid =
                 (if \<not> given key_search then
                    (case key of
                       Some k \<Rightarrow> (case sget d k of Some v \<Rightarrow> v | None \<Rightarrow> secondary)
                     | None \<Rightarrow> secondary)
                  else
                    (case (keymap, sget d (the key_search)) of
                       (Some km, Some v) \<Rightarrow>
                         if km \<noteq> [] \<and> hashable v then opt_or (dget km v) PNone else PNone
                     | _ \<Rightarrow> PNone))
           in if hashable uid \<and> uid \<noteq> PNone then Some uid else None)
      | _ \<Rightarrow> None)"

definition matches_only :: "pyval \<Rightarrow> (string \<times> pyval) list \<Rightarrow> bool" where
  "matches_only entry only =
     (is_dict entry \<and> list_all (\<lambda>(k, v). py_eq (field entry k) v) only)"

definition can_skip :: "pyval \<Rightarrow> (string \<times> pyval) list \<Rightarrow> bool" where
  "can_skip entry skip =
     (case entry of
        PDict d \<Rightarrow> list_ex (\<lambda>(k, v). case sget d k of
            Some w \<Rightarrow> py_eq w v
          | None \<Rightarrow> v = PStr []) skip
      | _ \<Rightarrow> False)"

definition should_skip_entry :: "parse_args \<Rightarrow> pyval \<Rightarrow> bool" where
  "should_skip_entry a entry =
     (if pa_only a \<noteq> [] \<and> \<not> matches_only entry (pa_only a) then True
      else pa_skip a \<noteq> [] \<and> can_skip entry (pa_skip a))"

text \<open>The uid and whether the entry matched; a matched uid gets its target created.\<close>

definition resolve_entry_uid ::
  "parse_args \<Rightarrow> pydict option \<Rightarrow> pyval \<Rightarrow> pydict \<Rightarrow> pydict \<times> pyval option \<times> bool" where
  "resolve_entry_uid a keymap entry data =
     (if \<not> keyed a then (data, None, is_dict entry)
      else case get_uid entry (pa_key a) (pa_key_secondary a) (pa_key_search a) keymap of
        None \<Rightarrow> (data, None, False)
      | Some uid \<Rightarrow> (store_target data (Some uid) (resolve_target data (Some uid)), Some uid, True))"

definition apply_entry ::
  "parse_args \<Rightarrow> pyval \<Rightarrow> pyval option \<Rightarrow> pydict \<Rightarrow> builtin_error + pydict" where
  "apply_entry a entry uid data =
     (let data = (if pa_vals a \<noteq> [] then fill_vals data entry uid (pa_vals a) else data);
          data = (if pa_ensure_vals a \<noteq> [] then fill_ensure_vals data uid (pa_ensure_vals a) else data)
      in if pa_val_proc a \<noteq> [] then fill_vals_proc data uid (pa_val_proc a) else Inr data)"

definition parse_entry ::
  "parse_args \<Rightarrow> pydict option \<Rightarrow> pyval \<Rightarrow> pydict \<times> pyval list \<Rightarrow> builtin_error + (pydict \<times> pyval list)" where
  "parse_entry a keymap entry st =
     (case st of (data, seen) \<Rightarrow>
        let seen = (case get_uid entry (pa_key a) (pa_key_secondary a) (pa_key_search a) keymap of
                      Some u \<Rightarrow> u # seen | None \<Rightarrow> seen)
        in if should_skip_entry a entry then Inr (data, seen)
           else case resolve_entry_uid a keymap entry data of
             (data, uid, matched) \<Rightarrow>
               if \<not> matched then Inr (data, seen)
               else res_map (\<lambda>d. (d, seen)) (apply_entry a entry uid data))"

definition prune_stale_uids :: "pydict \<Rightarrow> parse_args \<Rightarrow> pyval list \<Rightarrow> pydict" where
  "prune_stale_uids data a seen_uids =
     (if \<not> keyed a then data
      else fold (\<lambda>stale d. ddel d stale)
             (filter (\<lambda>k. \<not> list_ex (same_key k) seen_uids) (map fst data)) data)"

definition empty_source_result :: "pydict \<Rightarrow> parse_args \<Rightarrow> bool \<Rightarrow> pydict" where
  "empty_source_result data a source_was_none =
     (if \<not> keyed a then fill_defaults data (pa_vals a)
      else if source_was_none then data else [])"

text \<open>A dictionary is one entry, a list its entries; anything else counts as no answer.\<close>

fun source_entries :: "pyval \<Rightarrow> pyval list option" where
  "source_entries (PDict d) = Some [PDict d]"
| "source_entries (PList xs) = Some xs"
| "source_entries _ = None"

definition parse_api :: "parse_args \<Rightarrow> pydict \<Rightarrow> pyval \<Rightarrow> builtin_error + pydict" where
  "parse_api a data source =
     (case source_entries source of
        None \<Rightarrow> Inr (empty_source_result data a True)
      | Some [] \<Rightarrow> Inr (empty_source_result data a False)
      | Some xs \<Rightarrow>
          res_map
            (\<lambda>(data, seen_uids).
               if pa_prune a \<and> (\<not> keyed a \<or> seen_uids \<noteq> [])
               then prune_stale_uids data a seen_uids else data)
            (res_fold (parse_entry a (generate_keymap data (pa_key_search a))) xs (data, [])))"

section \<open>Fields: what a specification yields\<close>

text \<open>
  The path walk is what \<open>_resolve_source\<close> computes on every parameter; the direct lookup of a
  parameter without \<open>/\<close> is a special case of it.
\<close>

lemma resolve_source_walk:
  "resolve_source entry param = walk_path entry (split_on CHR ''/'' param)"
  by (cases entry) (simp_all add: resolve_source_def split_on_absent split: option.splits)

text \<open>The value \<open>_set_val\<close> stores, as a function of the entry alone.\<close>

definition raw_value :: "pyval \<Rightarrow> api_value_spec \<Rightarrow> pyval" where
  "raw_value entry sp =
     (let source = opt_or (sp_source sp) (sp_name sp) in
      if is_bool_spec sp
      then from_entry_bool entry source (bool_default sp) (opt_or (sp_reverse sp) False)
      else from_entry entry source (str_default sp) (Some 255) None)"

definition spec_value :: "pyval \<Rightarrow> api_value_spec \<Rightarrow> pyval" where
  "spec_value entry sp =
     (if sp_convert sp = Some ''utc_from_timestamp'' then timestamp_to_date (raw_value entry sp)
      else if sp_convert sp = Some ''human_date_to_utc'' then human_date_to_utc (raw_value entry sp)
      else raw_value entry sp)"

lemma dset_dset_same: "dset (dset d k v) k w = dset d k w"
  by (induction d k v rule: dset.induct) auto

lemma set_val_eq: "set_val entry sp target = sset target (sp_name sp) (spec_value entry sp)"
  by (simp add: set_val_def spec_value_def raw_value_def convert_timestamp_def
      convert_human_date_def dset_dset_same Let_def)

lemma bool_default_is_bool:
  assumes "\<forall>v. sp_default sp = Some v \<longrightarrow> (\<exists>b. v = PBool b)"
  shows "\<exists>b. bool_default sp = PBool b"
  using assms by (cases "sp_default sp") (auto simp: bool_default_def Let_def)

lemma from_entry_bool_is_bool: "\<exists>b. dflt = PBool b \<Longrightarrow> \<exists>b. from_entry_bool e p dflt r = PBool b"
  by (auto simp: from_entry_bool_def coerce_bool_def Let_def split: option.splits pyval.splits)

lemma spec_value_bool:
  assumes "is_bool_spec sp" "sp_convert sp = None"
    and "\<forall>v. sp_default sp = Some v \<longrightarrow> (\<exists>b. v = PBool b)"
  shows "\<exists>b. spec_value entry sp = PBool b"
  using assms from_entry_bool_is_bool [OF bool_default_is_bool [OF assms(3)]]
  by (simp add: spec_value_def raw_value_def Let_def)

lemma timestamp_to_date_cases:
  "timestamp_to_date v = PNone \<or>
   (\<exists>us. timestamp_to_date v = PDate us \<and> date_min \<le> us \<and> us \<le> date_max)"
  by (auto simp: timestamp_to_date_def utc_from_timestamp_def res_else_def res_bind_def
      split: pyval.splits sum.splits dest: from_timestamp_InrD date_of_micros_InrD)

lemma human_date_cases:
  "human_date_to_utc v = PNone \<or>
   (\<exists>us. human_date_to_utc v = PDate us \<and> date_min \<le> us \<and> us \<le> date_max)"
  using strptime_utc_range by (cases v) (auto split: option.splits)

lemma spec_value_date:
  assumes "sp_convert sp = Some ''utc_from_timestamp'' \<or> sp_convert sp = Some ''human_date_to_utc''"
  shows "spec_value entry sp = PNone \<or>
    (\<exists>us. spec_value entry sp = PDate us \<and> date_min \<le> us \<and> us \<le> date_max)"
  using assms timestamp_to_date_cases human_date_cases by (auto simp: spec_value_def)

lemma from_entry_length:
  "from_entry e p dflt (Some n) r = PStr s \<Longrightarrow> length s \<le> n \<or> PStr s = dflt"
  by (auto simp: from_entry_def Let_def split: option.splits pyval.splits if_splits)

lemma spec_value_length:
  assumes "\<not> is_bool_spec sp" "sp_convert sp = None" "spec_value entry sp = PStr s"
  shows "length s \<le> 255 \<or> PStr s = str_default sp"
  using assms from_entry_length [of entry _ "str_default sp" 255 None s]
  by (auto simp: spec_value_def raw_value_def Let_def)

end
