(* ===== verification/Specs.thy ===== *)
theory Specs
  imports Normalize
begin

text \<open>
  The field tables of \<open>domain/_specs.py\<close>, one definition per table, in the order of the file and
  under its names.  A table entry is built from \<open>{"name": n, "default": d}\<close> by the optional keys
  it has: \<open>"source"\<close> (\<open>from_path\<close>), \<open>"type": "bool"\<close> (\<open>bool_typed\<close>), \<open>"convert"\<close>
  (\<open>converted\<close>).
\<close>

definition spec :: "string \<Rightarrow> pyval \<Rightarrow> api_value_spec" where
  "spec n d = \<lparr>sp_name = n, sp_type = None, sp_source = None, sp_default = Some d,
     sp_default_val = None, sp_reverse = None, sp_convert = None\<rparr>"

definition from_path :: "string \<Rightarrow> api_value_spec \<Rightarrow> api_value_spec" where
  "from_path p s = s\<lparr>sp_source := Some p\<rparr>"

definition bool_typed :: "api_value_spec \<Rightarrow> api_value_spec" where
  "bool_typed s = s\<lparr>sp_type := Some ''bool''\<rparr>"

definition converted :: "string \<Rightarrow> api_value_spec \<Rightarrow> api_value_spec" where
  "converted c s = s\<lparr>sp_convert := Some c\<rparr>"

lemmas spec_defs [py_simps] = spec_def from_path_def bool_typed_def converted_def

lemma spec_fields [simp]:
  "sp_name (spec n d) = n" "sp_name (from_path p s) = sp_name s"
  "sp_name (bool_typed s) = sp_name s" "sp_name (converted c s) = sp_name s"
  "is_bool_spec (spec n d) = False" "is_bool_spec (from_path p s) = is_bool_spec s"
  "is_bool_spec (bool_typed s)" "is_bool_spec (converted c s) = is_bool_spec s"
  "sp_convert (spec n d) = None" "sp_convert (from_path p s) = sp_convert s"
  "sp_convert (bool_typed s) = sp_convert s" "sp_convert (converted c s) = Some c"
  "sp_default (spec n d) = Some d" "sp_default (from_path p s) = sp_default s"
  "sp_default (bool_typed s) = sp_default s" "sp_default (converted c s) = sp_default s"
  by (simp_all add: spec_defs is_bool_spec_def)

definition POOL_VALS :: "api_value_spec list" where
  "POOL_VALS =
    [spec ''guid'' (PInt 0),
     spec ''id'' (PInt 0),
     spec ''name'' (PStr ''unknown''),
     spec ''path'' (PStr ''unknown''),
     spec ''status'' (PStr ''unknown''),
     bool_typed (spec ''healthy'' (PBool False)),
     bool_typed (spec ''is_decrypted'' (PBool False)),
     spec ''size'' PNone,
     spec ''allocated'' PNone,
     spec ''free'' PNone,
     spec ''fragmentation'' (PInt 0),
     bool_typed (from_path ''autotrim/parsed'' (spec ''autotrim'' (PBool False))),
     from_path ''scan/function'' (spec ''scan_function'' (PStr ''unknown'')),
     from_path ''scan/state'' (spec ''scrub_state'' (PStr ''unknown'')),
     converted ''utc_from_timestamp'' (from_path ''scan/start_time/$date'' (spec ''scrub_start'' (PInt 0))),
     converted ''utc_from_timestamp'' (from_path ''scan/end_time/$date'' (spec ''scrub_end'' (PInt 0))),
     converted ''utc_from_timestamp'' (from_path ''scan/pause/$date'' (spec ''scrub_pause'' (PInt 0))),
     from_path ''scan/percentage'' (spec ''scrub_percentage'' (PInt 0)),
     from_path ''scan/total_secs_left'' (spec ''scrub_secs_left'' (PInt 0))]"

definition POOL_ENSURE_VALS :: "api_value_spec list" where
  "POOL_ENSURE_VALS =
    [spec ''available'' (PFloat (Fin 0)),
     spec ''total'' (PFloat (Fin 0)),
     spec ''usage'' (PFloat (Fin 0)),
     spec ''errors'' (PInt 0),
     spec ''read_errors'' (PInt 0),
     spec ''write_errors'' (PInt 0),
     spec ''checksum_errors'' (PInt 0)]"

definition DATASET_VALS :: "api_value_spec list" where
  "DATASET_VALS =
    [spec ''id'' (PStr ''unknown''),
     spec ''type'' (PStr ''unknown''),
     spec ''name'' (PStr ''unknown''),
     spec ''pool'' (PStr ''unknown''),
     spec ''mountpoint'' (PStr ''unknown''),
     from_path ''comments/parsed'' (spec ''comments'' (PStr '''')),
     bool_typed (from_path ''deduplication/parsed'' (spec ''deduplication'' (PBool False))),
     bool_typed (from_path ''atime/parsed'' (spec ''atime'' (PBool False))),
     from_path ''casesensitivity/parsed'' (spec ''casesensitivity'' (PStr ''unknown'')),
     from_path ''checksum/parsed'' (spec ''checksum'' (PStr ''unknown'')),
     bool_typed (from_path ''exec/parsed'' (spec ''exec'' (PBool False))),
     from_path ''sync/parsed'' (spec ''sync'' (PStr ''unknown'')),
     from_path ''compression/parsed'' (spec ''compression'' (PStr ''unknown'')),
     from_path ''compressratio/parsed'' (spec ''compressratio'' (PStr ''unknown'')),
     from_path ''quota/parsed'' (spec ''quota'' (PStr ''unknown'')),
     from_path ''copies/parsed'' (spec ''copies'' (PInt 0)),
     bool_typed (from_path ''readonly/parsed'' (spec ''readonly'' (PBool False))),
     from_path ''recordsize/parsed'' (spec ''recordsize'' (PInt 0)),
     from_path ''encryption_algorithm/parsed'' (spec ''encryption_algorithm'' (PStr ''unknown'')),
     from_path ''key_format/parsed'' (spec ''encryption_key_format'' (PStr ''unknown'')),
     bool_typed (spec ''encrypted'' (PBool False)),
     bool_typed (spec ''locked'' (PBool False)),
     from_path ''used/parsed'' (spec ''used'' PNone),
     from_path ''available/parsed'' (spec ''available'' PNone)]"

definition JOB_PROGRESS_VALS :: "api_value_spec list" where
  "JOB_PROGRESS_VALS =
    [converted ''utc_from_timestamp'' (from_path ''job/time_started/$date'' (spec ''time_started'' (PInt 0))),
     converted ''utc_from_timestamp'' (from_path ''job/time_finished/$date'' (spec ''time_finished'' (PInt 0))),
     from_path ''job/progress/percent'' (spec ''job_percent'' (PInt 0)),
     from_path ''job/progress/description'' (spec ''job_description'' (PStr ''unknown''))]"

definition JOB_STATUS_VALS :: "api_value_spec list" where
  "JOB_STATUS_VALS =
    [from_path ''job/state'' (spec ''state'' (PStr ''unknown''))] @ JOB_PROGRESS_VALS"

definition CLOUDSYNC_VALS :: "api_value_spec list" where
  "CLOUDSYNC_VALS =
    [spec ''id'' (PStr ''unknown''),
     spec ''description'' (PStr ''unknown''),
     spec ''direction'' (PStr ''unknown''),
     spec ''path'' (PStr ''unknown''),
     bool_typed (spec ''enabled'' (PBool False)),
     spec ''transfer_mode'' (PStr ''unknown''),
     bool_typed (spec ''snapshot'' (PBool False))] @ JOB_STATUS_VALS"

definition REPLICATION_VALS :: "api_value_spec list" where
  "REPLICATION_VALS =
    [spec ''id'' (PInt 0),
     spec ''name'' (PStr ''unknown''),
     spec ''source_datasets'' (PStr ''unknown''),
     spec ''target_dataset'' (PStr ''unknown''),
     bool_typed (spec ''recursive'' (PBool False)),
     bool_typed (spec ''enabled'' (PBool False)),
     spec ''direction'' (PStr ''unknown''),
     spec ''transport'' (PStr ''unknown''),
     bool_typed (spec ''auto'' (PBool False)),
     spec ''retention_policy'' (PStr ''unknown''),
     from_path ''state/state'' (spec ''state'' (PStr ''unknown'')),
     from_path ''job/state'' (spec ''job_state'' (PStr ''unknown''))] @ JOB_PROGRESS_VALS"

definition RSYNC_VALS :: "api_value_spec list" where
  "RSYNC_VALS =
    [spec ''id'' (PInt 0),
     spec ''path'' (PStr ''unknown''),
     spec ''desc'' (PStr ''unknown''),
     spec ''remotehost'' (PStr ''unknown''),
     spec ''remotemodule'' (PStr ''unknown''),
     spec ''direction'' (PStr ''unknown''),
     spec ''mode'' (PStr ''unknown''),
     bool_typed (spec ''enabled'' (PBool False))] @ JOB_STATUS_VALS"

definition SNAPSHOTTASK_VALS :: "api_value_spec list" where
  "SNAPSHOTTASK_VALS =
    [spec ''id'' (PInt 0),
     spec ''dataset'' (PStr ''unknown''),
     bool_typed (spec ''recursive'' (PBool False)),
     spec ''lifetime_value'' (PInt 0),
     spec ''lifetime_unit'' (PStr ''unknown''),
     bool_typed (spec ''enabled'' (PBool False)),
     spec ''naming_schema'' (PStr ''unknown''),
     bool_typed (spec ''allow_empty'' (PBool False)),
     bool_typed (spec ''vmware_sync'' (PBool False)),
     spec ''schedule'' (PDict []),
     from_path ''state/state'' (spec ''state'' (PStr ''unknown'')),
     converted ''utc_from_timestamp'' (from_path ''state/datetime/$date'' (spec ''datetime'' (PInt 0)))]"

definition CRONJOB_VALS :: "api_value_spec list" where
  "CRONJOB_VALS =
    [spec ''id'' (PInt 0),
     bool_typed (spec ''enabled'' (PBool False)),
     spec ''command'' (PStr ''''),
     spec ''description'' (PStr ''''),
     spec ''user'' (PStr ''unknown''),
     spec ''schedule'' (PDict []),
     bool_typed (spec ''stdout'' (PBool False)),
     bool_typed (spec ''stderr'' (PBool False))]"

definition CRONJOB_ENSURE_VALS :: "api_value_spec list" where
  "CRONJOB_ENSURE_VALS =
    [spec ''display_name'' (PStr '''')]"

definition SERVICE_VALS :: "api_value_spec list" where
  "SERVICE_VALS =
    [spec ''id'' (PInt 0),
     spec ''service'' (PStr ''unknown''),
     spec ''name'' (PStr ''''),
     bool_typed (spec ''enable'' (PBool False)),
     spec ''state'' (PStr ''unknown''),
     spec ''pids'' (PList [])]"

definition SERVICE_ENSURE_VALS :: "api_value_spec list" where
  "SERVICE_ENSURE_VALS =
    [bool_typed (spec ''running'' (PBool False)),
     spec ''display_name'' (PStr ''unknown'')]"

definition VM_VALS :: "api_value_spec list" where
  "VM_VALS =
    [spec ''id'' (PInt 0),
     spec ''name'' (PStr ''unknown''),
     spec ''type'' (PStr ''unknown''),
     from_path ''vcpus'' (spec ''cpu'' (PInt 0)),
     spec ''memory'' (PInt 0),
     bool_typed (spec ''autostart'' (PBool False)),
     from_path ''description'' (spec ''image'' (PStr ''unknown'')),
     from_path ''status/state'' (spec ''status'' (PStr ''unknown''))]"

definition VM_ENSURE_VALS :: "api_value_spec list" where
  "VM_ENSURE_VALS =
    [bool_typed (spec ''running'' (PBool False))]"

definition CONTAINER_VALS :: "api_value_spec list" where
  "CONTAINER_VALS =
    [spec ''id'' (PStr ''unknown''),
     spec ''name'' (PStr ''unknown''),
     spec ''type'' (PStr ''unknown''),
     spec ''cpu'' (PInt 0),
     spec ''memory'' (PInt 0),
     bool_typed (spec ''autostart'' (PBool False)),
     from_path ''image/description'' (spec ''image'' (PStr ''unknown'')),
     spec ''status'' (PStr ''unknown''),
     spec ''aliases'' (PList [])]"

definition CONTAINER_ENSURE_VALS :: "api_value_spec list" where
  "CONTAINER_ENSURE_VALS =
    [bool_typed (spec ''running'' (PBool False)),
     spec ''ip_address'' (PStr ''unknown'')]"

definition CONTAINER_V26_VALS :: "api_value_spec list" where
  "CONTAINER_V26_VALS =
    [spec ''id'' (PStr ''unknown''),
     spec ''name'' (PStr ''unknown''),
     spec ''cpuset'' PNone,
     bool_typed (spec ''autostart'' (PBool False)),
     from_path ''description'' (spec ''image'' (PStr ''unknown'')),
     from_path ''status/state'' (spec ''status'' (PStr ''unknown''))]"

definition CONTAINER_V26_ENSURE_VALS :: "api_value_spec list" where
  "CONTAINER_V26_ENSURE_VALS =
    [spec ''type'' (PStr ''CONTAINER''),
     spec ''cpu'' (PInt 0),
     spec ''memory'' (PInt 0),
     spec ''aliases'' (PList []),
     bool_typed (spec ''running'' (PBool False)),
     spec ''ip_address'' (PStr ''unknown'')]"

definition APP_VALS :: "api_value_spec list" where
  "APP_VALS =
    [spec ''id'' (PInt 0),
     spec ''name'' (PStr ''unknown''),
     spec ''human_version'' (PStr ''unknown''),
     spec ''version'' (PStr ''unknown''),
     spec ''latest_version'' (PStr ''unknown''),
     bool_typed (spec ''custom_app'' (PBool False)),
     bool_typed (from_path ''upgrade_available'' (spec ''update_available'' (PBool False))),
     bool_typed (spec ''image_updates_available'' (PBool False)),
     from_path ''portals/Web UI'' (spec ''portal'' (PStr ''unknown'')),
     spec ''state'' (PStr ''unknown'')]"

definition APP_ENSURE_VALS :: "api_value_spec list" where
  "APP_ENSURE_VALS =
    [bool_typed (spec ''running'' (PBool False)),
     spec ''update_jobid'' (PInt 0),
     spec ''update_progress'' (PInt 0),
     spec ''update_state'' (PStr ''unknown''),
     spec ''update_description'' (PStr '''')]"

definition CERTIFICATE_VALS :: "api_value_spec list" where
  "CERTIFICATE_VALS =
    [spec ''id'' (PInt 0),
     spec ''name'' (PStr ''unknown''),
     spec ''cert_type'' (PStr ''unknown''),
     spec ''common'' (PStr ''''),
     converted ''human_date_to_utc'' (spec ''until'' PNone),
     bool_typed (spec ''expired'' (PBool False)),
     spec ''renew_days'' (PInt 0)]"

definition DIRECTORYSERVICES_VALS :: "api_value_spec list" where
  "DIRECTORYSERVICES_VALS =
    [spec ''id'' (PInt 1),
     from_path ''service_type'' (spec ''type'' (PStr ''unknown'')),
     bool_typed (spec ''enable'' (PBool False)),
     bool_typed (from_path ''enable_account_cache'' (spec ''account_cache'' (PBool False))),
     bool_typed (from_path ''enable_dns_updates'' (spec ''dns_updates'' (PBool False))),
     spec ''kerberos_realm'' (PStr ''unknown''),
     from_path ''configuration/domain'' (spec ''domain'' (PStr ''unknown'')),
     from_path ''configuration/site'' (spec ''site'' (PStr ''unknown'')),
     spec ''status'' (PStr ''unknown''),
     spec ''status_msg'' PNone]"

definition DIRECTORYSERVICES_ENSURE_VALS :: "api_value_spec list" where
  "DIRECTORYSERVICES_ENSURE_VALS =
    [bool_typed (spec ''healthy'' (PBool False))]"

definition INTERFACE_VALS :: "api_value_spec list" where
  "INTERFACE_VALS =
    [spec ''id'' (PStr ''unknown''),
     spec ''name'' (PStr ''unknown''),
     spec ''description'' (PStr ''unknown''),
     spec ''mtu'' (PStr ''unknown''),
     from_path ''state/link_state'' (spec ''link_state'' (PStr ''unknown'')),
     from_path ''state/active_media_type'' (spec ''active_media_type'' (PStr ''unknown'')),
     from_path ''state/active_media_subtype'' (spec ''active_media_subtype'' (PStr ''unknown'')),
     from_path ''state/link_address'' (spec ''link_address'' (PStr ''unknown''))]"

definition INTERFACE_ENSURE_VALS :: "api_value_spec list" where
  "INTERFACE_ENSURE_VALS =
    [spec ''rx'' (PInt 0),
     spec ''tx'' (PInt 0)]"

definition DISK_VALS :: "api_value_spec list" where
  "DISK_VALS =
    [spec ''name'' (PStr ''unknown''),
     spec ''devname'' (PStr ''unknown''),
     spec ''serial'' (PStr ''unknown''),
     spec ''size'' (PStr ''unknown''),
     spec ''hddstandby'' (PStr ''unknown''),
     bool_typed (spec ''hddstandby_force'' (PBool False)),
     spec ''advpowermgmt'' (PStr ''unknown''),
     spec ''acousticlevel'' (PStr ''unknown''),
     spec ''model'' (PStr ''unknown''),
     spec ''rotationrate'' (PStr ''unknown''),
     spec ''type'' (PStr ''unknown''),
     spec ''zfs_guid'' (PStr ''unknown''),
     spec ''identifier'' (PStr ''unknown'')]"

definition DISK_ENSURE_VALS :: "api_value_spec list" where
  "DISK_ENSURE_VALS =
    [spec ''temperature'' PNone]"

definition SCRUB_VALS :: "api_value_spec list" where
  "SCRUB_VALS =
    [spec ''id'' PNone,
     spec ''pool_name'' (PStr ''''),
     bool_typed (spec ''enabled'' (PBool False))]"

definition SYSTEMINFO_VALS :: "api_value_spec list" where
  "SYSTEMINFO_VALS =
    [spec ''version'' (PStr ''unknown''),
     spec ''hostname'' (PStr ''unknown''),
     spec ''uptime_seconds'' (PInt 0),
     spec ''system_serial'' (PStr ''unknown''),
     spec ''system_product'' (PStr ''unknown''),
     spec ''system_manufacturer'' (PStr ''unknown''),
     spec ''physmem'' (PInt 0)]"

definition SYSTEMINFO_ENSURE_VALS :: "api_value_spec list" where
  "SYSTEMINFO_ENSURE_VALS =
    [spec ''uptimeEpoch'' (PInt 0),
     spec ''cpu_temperature'' PNone,
     spec ''cpu_usage'' (PFloat (Fin 0)),
     spec ''load_shortterm'' (PFloat (Fin 0)),
     spec ''load_midterm'' (PFloat (Fin 0)),
     spec ''load_longterm'' (PFloat (Fin 0)),
     spec ''cache_size-arc_value'' (PFloat (Fin 0)),
     spec ''memory-free_value'' (PFloat (Fin 0)),
     spec ''memory-total_value'' (PFloat (Fin 0)),
     spec ''memory-usage_percent'' (PInt 0)]"

section \<open>Well-formedness of the tables\<close>

text \<open>
  A table names each field once, gives every boolean field a boolean default and converts no
  boolean field: what the laws of \<open>parse_api\<close> ask of a table.
\<close>

definition well_formed_table :: "api_value_spec list \<Rightarrow> bool" where
  "well_formed_table t =
     (distinct (map sp_name t) \<and>
      list_all (\<lambda>sp. is_bool_spec sp \<longrightarrow>
        sp_convert sp = None \<and> (sp_default sp = Some (PBool True) \<or> sp_default sp = Some (PBool False))) t)"

lemmas table_defs =
  POOL_VALS_def POOL_ENSURE_VALS_def DATASET_VALS_def JOB_PROGRESS_VALS_def
  JOB_STATUS_VALS_def CLOUDSYNC_VALS_def REPLICATION_VALS_def RSYNC_VALS_def
  SNAPSHOTTASK_VALS_def CRONJOB_VALS_def CRONJOB_ENSURE_VALS_def SERVICE_VALS_def
  SERVICE_ENSURE_VALS_def VM_VALS_def VM_ENSURE_VALS_def CONTAINER_VALS_def
  CONTAINER_ENSURE_VALS_def CONTAINER_V26_VALS_def CONTAINER_V26_ENSURE_VALS_def
  APP_VALS_def APP_ENSURE_VALS_def CERTIFICATE_VALS_def DIRECTORYSERVICES_VALS_def
  DIRECTORYSERVICES_ENSURE_VALS_def INTERFACE_VALS_def INTERFACE_ENSURE_VALS_def
  DISK_VALS_def DISK_ENSURE_VALS_def SCRUB_VALS_def SYSTEMINFO_VALS_def
  SYSTEMINFO_ENSURE_VALS_def

definition all_tables :: "api_value_spec list list" where
  "all_tables = [POOL_VALS, POOL_ENSURE_VALS, DATASET_VALS, JOB_PROGRESS_VALS, JOB_STATUS_VALS,
     CLOUDSYNC_VALS, REPLICATION_VALS, RSYNC_VALS, SNAPSHOTTASK_VALS, CRONJOB_VALS,
     CRONJOB_ENSURE_VALS, SERVICE_VALS, SERVICE_ENSURE_VALS, VM_VALS, VM_ENSURE_VALS,
     CONTAINER_VALS, CONTAINER_ENSURE_VALS, CONTAINER_V26_VALS,
     CONTAINER_V26_ENSURE_VALS, APP_VALS, APP_ENSURE_VALS, CERTIFICATE_VALS,
     DIRECTORYSERVICES_VALS, DIRECTORYSERVICES_ENSURE_VALS, INTERFACE_VALS,
     INTERFACE_ENSURE_VALS, DISK_VALS, DISK_ENSURE_VALS, SCRUB_VALS, SYSTEMINFO_VALS,
     SYSTEMINFO_ENSURE_VALS]"

lemma all_tables_well_formed: "list_all well_formed_table all_tables"
  by (simp add: all_tables_def well_formed_table_def table_defs)

end
