(* ===== verification/ParseLaws.thy ===== *)
theory ParseLaws
  imports Specs
begin

text \<open>
  What \<open>parse_api\<close> guarantees: when it falls back to the previous snapshot, which uids the
  result holds, and what each record holds.  The laws on keyed payloads are proved for the
  arguments every endpoint of \<open>state.py\<close> uses: a \<open>key\<close>, no secondary or search key, no
  \<open>only\<close>/\<open>skip\<close> filter and no derived keys (\<open>plain_keyed\<close>).
\<close>

definition plain_keyed :: "parse_args \<Rightarrow> string \<Rightarrow> bool" where
  "plain_keyed a k \<longleftrightarrow> k \<noteq> [] \<and> pa_key a = Some k \<and> pa_key_secondary a = None
     \<and> pa_key_search a = None \<and> pa_only a = [] \<and> pa_skip a = [] \<and> pa_val_proc a = []"

text \<open>The uid of an entry under such arguments: \<open>get_uid(entry, key, None, None, None)\<close>.\<close>

definition uid_of :: "string \<Rightarrow> pyval \<Rightarrow> pyval option" where
  "uid_of k entry = get_uid entry (Some k) None None None"

lemma plain_keyedD:
  assumes "plain_keyed a k"
  shows "keyed a" and "get_uid x (pa_key a) (pa_key_secondary a) (pa_key_search a) km = uid_of k x"
    and "\<not> should_skip_entry a x"
  using assms
  by (auto simp: plain_keyed_def keyed_def given_def uid_of_def should_skip_entry_def get_uid_def
      split: pyval.splits)

lemma uid_of_hashable: "uid_of k x = Some u \<Longrightarrow> hashable u \<and> u \<noteq> PNone"
  by (auto simp: uid_of_def get_uid_def Let_def split: pyval.splits if_splits)

section \<open>One entry\<close>

text \<open>The record an entry leaves at its uid, from the record that was there.\<close>

definition entry_record :: "parse_args \<Rightarrow> pyval \<Rightarrow> pydict \<Rightarrow> pydict" where
  "entry_record a x t = fold set_default (pa_ensure_vals a) (fold (set_val x) (pa_vals a) t)"

lemma dget_store_target [simp]:
  "dget (store_target data (Some u) t) u' = (if same_key u u' then Some (PDict t) else dget data u')"
  by (simp add: store_target_def)

lemma resolve_target_store [simp]: "resolve_target (store_target data (Some u) t) (Some u) = t"
  by (simp add: resolve_target_def)

lemma store_target_twice [simp]:
  "store_target (store_target data (Some u) t) (Some u) t' = store_target data (Some u) t'"
  by (simp add: store_target_def dset_dset_same)

lemma apply_entry_plain:
  assumes "pa_val_proc a = []"
  shows "apply_entry a x (Some u) (store_target data (Some u) t)
    = Inr (store_target data (Some u) (entry_record a x t))"
  using assms
  by (simp add: apply_entry_def fill_vals_def fill_ensure_vals_def entry_record_def Let_def)

lemma parse_entry_plain:
  assumes "plain_keyed a k"
  shows "parse_entry a km x (data, seen) =
    Inr (case uid_of k x of
           None \<Rightarrow> (data, seen)
         | Some u \<Rightarrow> (store_target data (Some u) (entry_record a x (resolve_target data (Some u))),
                     u # seen))"
  using assms plain_keyedD [OF assms] apply_entry_plain [of a]
  by (auto simp: parse_entry_def resolve_entry_uid_def plain_keyed_def Let_def split: option.splits)

section \<open>The whole payload\<close>

definition parse_step :: "parse_args \<Rightarrow> string \<Rightarrow> pyval \<Rightarrow> pydict \<Rightarrow> pydict" where
  "parse_step a k x data =
     (case uid_of k x of
        None \<Rightarrow> data
      | Some u \<Rightarrow> store_target data (Some u) (entry_record a x (resolve_target data (Some u))))"

definition seen_uids :: "string \<Rightarrow> pyval list \<Rightarrow> pyval list" where
  "seen_uids k xs = List.map_filter (uid_of k) xs"

lemma seen_uids_simps [simp]:
  "seen_uids k [] = []"
  "seen_uids k (x # xs) = (case uid_of k x of None \<Rightarrow> seen_uids k xs | Some u \<Rightarrow> u # seen_uids k xs)"
  by (auto simp: seen_uids_def map_filter_simps split: option.splits)

lemma set_seen_uids: "set (seen_uids k xs) = {u. \<exists>x \<in> set xs. uid_of k x = Some u}"
  by (induction xs) (auto split: option.splits)

lemma seen_uids_empty: "seen_uids k xs = [] \<longleftrightarrow> (\<forall>x \<in> set xs. uid_of k x = None)"
  by (induction xs) (auto split: option.splits)

lemma parse_loop:
  assumes "plain_keyed a k"
  shows "res_fold (parse_entry a km) xs (data, seen)
    = Inr (fold (parse_step a k) xs data, rev (seen_uids k xs) @ seen)"
proof (induction xs arbitrary: data seen)
  case Nil
  then show ?case by simp
next
  case (Cons x xs)
  then show ?case
    by (auto simp: parse_entry_plain [OF assms] parse_step_def split: option.splits)
qed

lemma parse_api_plain:
  assumes "plain_keyed a k"
  shows "parse_api a data source = Inr
    (case source_entries source of
       None \<Rightarrow> data
     | Some xs \<Rightarrow>
         (if xs = [] then []
          else (let d = fold (parse_step a k) xs data; s = rev (seen_uids k xs) in
                if pa_prune a \<and> s \<noteq> [] then prune_stale_uids d a s else d)))"
proof (cases "source_entries source")
  case None
  then show ?thesis
    using plain_keyedD(1) [OF assms] by (simp add: parse_api_def empty_source_result_def)
next
  case (Some xs)
  show ?thesis
  proof (cases xs)
    case Nil
    with Some show ?thesis
      using plain_keyedD(1) [OF assms] by (simp add: parse_api_def empty_source_result_def)
  next
    case (Cons y ys)
    have "parse_api a data source = res_map
        (\<lambda>(data, seen). if pa_prune a \<and> (\<not> keyed a \<or> seen \<noteq> [])
           then prune_stale_uids data a seen else data)
        (res_fold (parse_entry a (generate_keymap data (pa_key_search a))) xs (data, []))"
      using Some Cons by (simp add: parse_api_def)
    also have "\<dots> = Inr (let d = fold (parse_step a k) xs data; s = rev (seen_uids k xs) in
        if pa_prune a \<and> s \<noteq> [] then prune_stale_uids d a s else d)"
      unfolding parse_loop [OF assms] using plain_keyedD(1) [OF assms] by (simp add: Let_def)
    finally show ?thesis using Some Cons by simp
  qed
qed

lemma dget_prune:
  assumes "keyed a"
  shows "dget (prune_stale_uids d a s) u = (if list_ex (same_key u) s then dget d u else None)"
proof -
  have eqv: "list_ex (same_key v) s = list_ex (same_key w) s" if "same_key v w" for v w
    using that by (simp add: same_key_def list_ex_iff)
  show ?thesis
  proof (cases "dget d u")
    case None
    then show ?thesis using assms by (simp add: prune_stale_uids_def pd.remove_all)
  next
    case (Some v)
    then obtain u' where "(u', v) \<in> set d" "same_key u' u" using dget_SomeD by blast
    then show ?thesis
      using assms eqv by (auto simp: prune_stale_uids_def pd.remove_all dest: bspec)
  qed
qed

lemma parse_step_dom:
  "dget (parse_step a k x d) u \<noteq> None \<longleftrightarrow>
     dget d u \<noteq> None \<or> (\<exists>v. uid_of k x = Some v \<and> same_key v u)"
  by (auto simp: parse_step_def split: option.splits)

lemma parse_fold_dom:
  "dget (fold (parse_step a k) xs d) u \<noteq> None \<longleftrightarrow>
     dget d u \<noteq> None \<or> (\<exists>v \<in> set (seen_uids k xs). same_key v u)"
proof (induction xs arbitrary: d)
  case Nil
  then show ?case by simp
next
  case (Cons x xs)
  show ?case
    unfolding fold_Cons comp_def Cons.IH parse_step_dom by (auto split: option.splits)
qed

lemma parse_fold_other:
  "\<not> (\<exists>v \<in> set (seen_uids k xs). same_key v u) \<Longrightarrow> dget (fold (parse_step a k) xs d) u = dget d u"
proof (induction xs arbitrary: d)
  case Nil
  then show ?case by simp
next
  case (Cons x xs)
  then have "dget (parse_step a k x d) u = dget d u"
    by (auto simp: parse_step_def split: option.splits)
  moreover have "\<not> (\<exists>v \<in> set (seen_uids k xs). same_key v u)"
    using Cons.prems by (auto split: option.splits)
  ultimately show ?case using Cons.IH by simp
qed

lemma parse_fold_last:
  assumes "xs = ys @ x # zs" "uid_of k x = Some v" "same_key v u"
    and "\<not> (\<exists>w \<in> set (seen_uids k zs). same_key w u)"
  shows "\<exists>t. dget (fold (parse_step a k) xs d) u = Some (PDict (entry_record a x t))"
proof -
  have "dget (fold (parse_step a k) xs d) u = dget (parse_step a k x (fold (parse_step a k) ys d)) u"
    using parse_fold_other [OF assms(4)] by (simp add: assms(1))
  then show ?thesis using assms(2,3) by (simp add: parse_step_def) metis
qed

section \<open>Records\<close>

lemma fold_set_val_get:
  "dget (fold (set_val x) sps t) (PStr n) =
     (case List.find (\<lambda>sp. sp_name sp = n) (rev sps) of
        Some sp \<Rightarrow> Some (spec_value x sp) | None \<Rightarrow> dget t (PStr n))"
proof (induction sps rule: rev_induct)
  case Nil
  then show ?case by simp
next
  case (snoc sp sps)
  then show ?case by (simp add: set_val_eq)
qed

lemma find_unique:
  "distinct (map f sps) \<Longrightarrow> sp \<in> set sps \<Longrightarrow> List.find (\<lambda>y. f y = f sp) sps = Some sp"
  by (induction sps) auto

lemma set_default_get:
  "dget (set_default sp t) u =
     (if u = PStr (sp_name sp) \<and> dget t u = None then Some (spec_default sp) else dget t u)"
  by (auto simp: set_default_def has_key_def)

lemma fold_set_default_keeps: "dget t u = Some v \<Longrightarrow> dget (fold set_default sps t) u = Some v"
  by (induction sps arbitrary: t) (auto simp: set_default_get)

lemma fold_set_default_has:
  "sp \<in> set sps \<Longrightarrow> dget (fold set_default sps t) (PStr (sp_name sp)) \<noteq> None"
proof (induction sps arbitrary: t)
  case Nil
  then show ?case by simp
next
  case (Cons sp' sps)
  show ?case
  proof (cases "sp = sp'")
    case True
    have "dget (set_default sp' t) (PStr (sp_name sp')) \<noteq> None" by (simp add: set_default_get)
    then show ?thesis using True fold_set_default_keeps by fastforce
  next
    case False
    then show ?thesis using Cons by simp
  qed
qed

lemma entry_record_vals:
  assumes "distinct (map sp_name (pa_vals a))" "sp \<in> set (pa_vals a)"
  shows "dget (entry_record a x t) (PStr (sp_name sp)) = Some (spec_value x sp)"
proof -
  have "List.find (\<lambda>y. sp_name y = sp_name sp) (rev (pa_vals a)) = Some sp"
    by (rule find_unique) (use assms in \<open>simp_all flip: rev_map\<close>)
  then show ?thesis
    by (simp add: entry_record_def fold_set_default_keeps fold_set_val_get)
qed

lemma entry_record_ensure:
  "sp \<in> set (pa_ensure_vals a) \<Longrightarrow> dget (entry_record a x t) (PStr (sp_name sp)) \<noteq> None"
  by (simp only: entry_record_def fold_set_default_has not_False_eq_True)

lemma entry_record_other:
  assumes "n \<notin> sp_name ` set (pa_vals a)" "dget t (PStr n) = Some v"
  shows "dget (entry_record a x t) (PStr n) = Some v"
proof -
  have "List.find (\<lambda>sp. sp_name sp = n) (rev (pa_vals a)) = None"
    using assms(1) by (auto simp: find_None_iff)
  then have "dget (fold (set_val x) (pa_vals a) t) (PStr n) = Some v"
    using assms(2) by (simp add: fold_set_val_get)
  then show ?thesis by (simp add: entry_record_def fold_set_default_keeps)
qed

section \<open>Guarantees of \<open>parse_api\<close>\<close>

text \<open>The arguments of the endpoints: a key, the field table and the ensured fields.\<close>

definition keyed_args :: "string \<Rightarrow> api_value_spec list \<Rightarrow> api_value_spec list \<Rightarrow> parse_args" where
  "keyed_args k vals ensure =
     default_args\<lparr>pa_key := Some k, pa_vals := vals, pa_ensure_vals := ensure\<rparr>"

lemma keyed_args_fields [simp]:
  "pa_vals (keyed_args k vals ensure) = vals"
  "pa_ensure_vals (keyed_args k vals ensure) = ensure"
  "pa_prune (keyed_args k vals ensure)"
  "k \<noteq> [] \<Longrightarrow> plain_keyed (keyed_args k vals ensure) k"
  by (simp_all add: keyed_args_def default_args_def plain_keyed_def)

lemma parse_fold_none: "seen_uids k xs = [] \<Longrightarrow> fold (parse_step a k) xs d = d"
  by (induction xs arbitrary: d) (auto simp: parse_step_def split: option.splits)

lemma parse_api_unusable:
  assumes "plain_keyed a k" "\<forall>xs. source_entries source = Some xs \<longrightarrow> xs \<noteq> [] \<and> seen_uids k xs = []"
  shows "parse_api a data source = Inr data"
  using assms by (auto simp: parse_api_plain parse_fold_none Let_def split: option.splits)

lemma parse_api_usable:
  assumes "plain_keyed a k" "pa_prune a" "source_entries source = Some xs" "seen_uids k xs \<noteq> []"
  shows "parse_api a data source = Inr (prune_stale_uids (fold (parse_step a k) xs data) a (rev (seen_uids k xs)))"
proof -
  have "xs \<noteq> []" using assms(4) by auto
  then show ?thesis using assms by (simp add: parse_api_plain Let_def)
qed

lemma dget_parse_usable:
  assumes "plain_keyed a k" "pa_prune a" "source_entries source = Some xs" "seen_uids k xs \<noteq> []"
    and "parse_api a data source = Inr d"
  shows "dget d u = (if \<exists>v \<in> set (seen_uids k xs). same_key v u
      then dget (fold (parse_step a k) xs data) u else None)"
  using assms(5) unfolding parse_api_usable [OF assms(1-4)]
  by (auto simp: dget_prune plain_keyedD(1) [OF assms(1)] list_ex_iff same_key_sym)

lemma last_match:
  assumes "\<exists>v \<in> set (seen_uids k xs). same_key v u"
  shows "\<exists>ys x zs v. xs = ys @ x # zs \<and> uid_of k x = Some v \<and> same_key v u \<and>
    \<not> (\<exists>w \<in> set (seen_uids k zs). same_key w u)"
proof -
  have "\<exists>x \<in> set xs. \<exists>v. uid_of k x = Some v \<and> same_key v u"
    using assms by (auto simp: set_seen_uids)
  then obtain ys x zs v where "xs = ys @ x # zs" "uid_of k x = Some v" "same_key v u"
      "\<forall>z \<in> set zs. \<not> (\<exists>v. uid_of k z = Some v \<and> same_key v u)"
    using split_list_last_prop [of xs "\<lambda>x. \<exists>v. uid_of k x = Some v \<and> same_key v u"] by blast
  then show ?thesis unfolding set_seen_uids by blast
qed

text \<open>
  C8: a keyed payload that is not a list or object, or that has no entry with a usable uid,
  leaves the previous snapshot exactly as it was, except the empty list: that says there are no
  objects, and empties the snapshot.
\<close>

theorem parse_api_keeps_snapshot:
  assumes "plain_keyed a k"
    and "\<forall>xs. source_entries source = Some xs \<longrightarrow> (\<forall>x \<in> set xs. uid_of k x = None)"
  shows "parse_api a data source = Inr (if source = PList [] then [] else data)"
proof (cases "source = PList []")
  case True
  then show ?thesis by (simp add: parse_api_plain [OF assms(1)])
next
  case False
  then have "\<forall>xs. source_entries source = Some xs \<longrightarrow> xs \<noteq> [] \<and> seen_uids k xs = []"
    using assms(2) by (cases source) (auto simp: seen_uids_empty)
  with False show ?thesis using parse_api_unusable [OF assms(1)] by simp
qed

text \<open>
  C7: after a payload with a usable entry, the uids of the result are exactly those of the
  payload: removed objects are pruned, and no uid is invented.
\<close>

theorem parse_api_uids:
  assumes "plain_keyed a k" "pa_prune a" "source_entries source = Some xs"
    and "\<exists>x \<in> set xs. uid_of k x \<noteq> None" "parse_api a data source = Inr d"
  shows "dget d u \<noteq> None \<longleftrightarrow> (\<exists>x \<in> set xs. \<exists>v. uid_of k x = Some v \<and> same_key v u)"
proof -
  have "seen_uids k xs \<noteq> []" using assms(4) by (simp add: seen_uids_empty)
  note eq = dget_parse_usable [OF assms(1-3) this assms(5)]
  have "dget d u \<noteq> None \<longleftrightarrow> (\<exists>v \<in> set (seen_uids k xs). same_key v u)"
    unfolding eq using parse_fold_dom [of a k xs data u] by auto
  then show ?thesis by (auto simp: set_seen_uids)
qed

text \<open>
  C28: the record stored for a uid holds, for every field of the table, the value the
  specification yields on the last entry with that uid, whatever the previous snapshot held,
  and has every ensured field.
\<close>

theorem parse_api_record:
  assumes "plain_keyed a k" "pa_prune a" "distinct (map sp_name (pa_vals a))"
    and "source_entries source = Some (ys @ x # zs)" "uid_of k x = Some u"
    and "\<forall>z \<in> set zs. \<forall>v. uid_of k z = Some v \<longrightarrow> \<not> same_key v u"
    and "parse_api a data source = Inr d"
  shows "\<exists>r. dget d u = Some (PDict r)
    \<and> (\<forall>sp \<in> set (pa_vals a). sget r (sp_name sp) = Some (spec_value x sp))
    \<and> (\<forall>sp \<in> set (pa_ensure_vals a). sget r (sp_name sp) \<noteq> None)"
proof -
  let ?xs = "ys @ x # zs"
  have mem: "u \<in> set (seen_uids k ?xs)" using assms(5) by (auto simp: set_seen_uids)
  then have "seen_uids k ?xs \<noteq> []" by auto
  note eq = dget_parse_usable [OF assms(1,2,4) this assms(7)]
  have "\<not> (\<exists>w \<in> set (seen_uids k zs). same_key w u)" using assms(6) by (auto simp: set_seen_uids)
  then obtain t where "dget (fold (parse_step a k) ?xs data) u = Some (PDict (entry_record a x t))"
    using parse_fold_last [OF refl assms(5) same_key_refl] by blast
  moreover have "\<exists>v \<in> set (seen_uids k ?xs). same_key v u" using mem same_key_refl by blast
  ultimately have "dget d u = Some (PDict (entry_record a x t))"
    by (simp only: eq if_True)
  then show ?thesis
    using entry_record_vals [OF assms(3)] entry_record_ensure by blast
qed

subsection \<open>Parsing the same payload again\<close>

lemma fold_set_default_frame:
  "(\<forall>sp \<in> set sps. sp_name sp = n \<longrightarrow> dget t (PStr n) \<noteq> None) \<Longrightarrow>
    dget (fold set_default sps t) (PStr n) = dget t (PStr n)"
  by (induction sps arbitrary: t) (auto simp: set_default_get)

lemma entry_record_frame:
  assumes "n \<notin> sp_name ` set (pa_vals a)" "\<forall>sp \<in> set (pa_ensure_vals a). sp_name sp = n \<longrightarrow> sget t n \<noteq> None"
  shows "sget (entry_record a x t) n = sget t n"
proof -
  have "List.find (\<lambda>sp. sp_name sp = n) (rev (pa_vals a)) = None"
    using assms(1) by (auto simp: find_None_iff)
  then have "sget (fold (set_val x) (pa_vals a) t) n = sget t n" by (simp add: fold_set_val_get)
  then show ?thesis
    using assms(2) unfolding entry_record_def by (subst fold_set_default_frame) auto
qed

lemma resolve_target_same: "same_key v u \<Longrightarrow> resolve_target d (Some v) = resolve_target d (Some u)"
  using dget_same_key [of v u d] by (simp add: resolve_target_def)

lemma resolve_target_step:
  "resolve_target (parse_step a k x d) (Some u) =
     (if \<exists>v. uid_of k x = Some v \<and> same_key v u
      then entry_record a x (resolve_target d (Some u)) else resolve_target d (Some u))"
proof (cases "uid_of k x")
  case None
  then show ?thesis by (simp add: parse_step_def)
next
  case (Some v)
  then show ?thesis
    using resolve_target_same [of v u d] by (auto simp: parse_step_def resolve_target_def)
qed

lemma parse_fold_frame:
  assumes "n \<notin> sp_name ` set (pa_vals a)"
    and "\<forall>sp \<in> set (pa_ensure_vals a). sp_name sp = n \<longrightarrow> sget (resolve_target d (Some u)) n \<noteq> None"
  shows "sget (resolve_target (fold (parse_step a k) xs d) (Some u)) n = sget (resolve_target d (Some u)) n"
  using assms(2)
proof (induction xs arbitrary: d)
  case Nil
  then show ?case by simp
next
  case (Cons x xs)
  have eq: "sget (resolve_target (parse_step a k x d) (Some u)) n = sget (resolve_target d (Some u)) n"
    using entry_record_frame [OF assms(1) Cons.prems] by (simp add: resolve_target_step)
  then show ?case using Cons.IH [of "parse_step a k x d"] Cons.prems by simp
qed

text \<open>
  C34: parsing one payload twice changes nothing the second time: the same uids, and in every
  record the same value under every name.
\<close>

theorem parse_api_idempotent:
  assumes pk: "plain_keyed a k" "pa_prune a" "distinct (map sp_name (pa_vals a))"
    and d1: "parse_api a data source = Inr d1" and d2: "parse_api a d1 source = Inr d2"
    and r1: "dget d1 u = Some (PDict r1)"
  shows "\<exists>r2. dget d2 u = Some (PDict r2) \<and> (\<forall>n. sget r2 n = sget r1 n)"
proof (cases "\<exists>xs. source_entries source = Some xs \<and> seen_uids k xs \<noteq> []")
  case False
  then have "d1 = data \<and> d2 = d1 \<or> d1 = [] \<and> d2 = []"
    using d1 d2 parse_fold_none [of k _ a]
    by (auto simp: parse_api_plain [OF pk(1)] Let_def split: option.splits if_splits)
  with r1 show ?thesis by auto
next
  case True
  then obtain xs where xs: "source_entries source = Some xs" "seen_uids k xs \<noteq> []" by blast
  note eq1 = dget_parse_usable [OF pk(1,2) xs d1] and eq2 = dget_parse_usable [OF pk(1,2) xs d2]
  have ex: "\<exists>v \<in> set (seen_uids k xs). same_key v u"
    using r1 eq1 [of u] by (auto split: if_splits)
  obtain ys x zs v where last: "xs = ys @ x # zs" "uid_of k x = Some v" "same_key v u"
      "\<not> (\<exists>w \<in> set (seen_uids k zs). same_key w u)"
    using last_match [OF ex] by blast
  obtain t where "dget d1 u = Some (PDict (entry_record a x t))"
    using parse_fold_last [OF last, of a data] eq1 [of u] ex by (simp only: if_True) blast
  then have t: "r1 = entry_record a x t" using r1 by simp
  obtain t' where t': "dget d2 u = Some (PDict (entry_record a x t'))"
    using parse_fold_last [OF last, of a d1] eq2 [of u] ex by (simp only: if_True) blast
  have "sget (entry_record a x t') n = sget r1 n" for n
  proof (cases "n \<in> sp_name ` set (pa_vals a)")
    case True
    then show ?thesis using entry_record_vals [OF pk(3)] t by auto
  next
    case False
    have tgt: "resolve_target d1 (Some u) = r1" using r1 by (simp add: resolve_target_def)
    have "\<forall>sp \<in> set (pa_ensure_vals a). sp_name sp = n \<longrightarrow> sget (resolve_target d1 (Some u)) n \<noteq> None"
      unfolding tgt t using entry_record_ensure by blast
    from parse_fold_frame [OF False this]
    have "sget (resolve_target (fold (parse_step a k) xs d1) (Some u)) n = sget r1 n" unfolding tgt .
    moreover have "resolve_target (fold (parse_step a k) xs d1) (Some u) = entry_record a x t'"
      using t' eq2 [of u] ex by (simp only: if_True resolve_target_def) simp
    ultimately show ?thesis by simp
  qed
  then show ?thesis using t' by blast
qed

text \<open>
  C29: the fields of the tables are typed: a boolean field is a \<open>bool\<close>, a converted field is
  \<open>None\<close> or a datetime of the years 1 to 9999, and any other string is at most 255 characters
  long unless it is the table's own default.
\<close>

theorem table_fields_typed:
  assumes "t \<in> set all_tables" "sp \<in> set t"
  shows "(is_bool_spec sp \<longrightarrow> (\<exists>b. spec_value entry sp = PBool b))
    \<and> (sp_convert sp = Some ''utc_from_timestamp'' \<or> sp_convert sp = Some ''human_date_to_utc'' \<longrightarrow>
        spec_value entry sp = PNone \<or>
        (\<exists>us. spec_value entry sp = PDate us \<and> date_min \<le> us \<and> us \<le> date_max))
    \<and> (\<forall>s. \<not> is_bool_spec sp \<longrightarrow> sp_convert sp = None \<longrightarrow> spec_value entry sp = PStr s \<longrightarrow>
        length s \<le> 255 \<or> PStr s = str_default sp)"
proof (intro conjI impI allI)
  have wf: "is_bool_spec sp \<longrightarrow> sp_convert sp = None
      \<and> (sp_default sp = Some (PBool True) \<or> sp_default sp = Some (PBool False))"
    using all_tables_well_formed assms by (auto simp: list_all_iff well_formed_table_def)
  show "\<exists>b. spec_value entry sp = PBool b" if "is_bool_spec sp"
    by (rule spec_value_bool) (use wf that in auto)
qed (use spec_value_date spec_value_length in blast)+

section \<open>Instances\<close>

text \<open>A scrub payload over a snapshot that also holds a task the payload no longer has.\<close>

definition scrub_args :: parse_args where
  "scrub_args = keyed_args ''id'' SCRUB_VALS []"

definition scrub_entry :: pyval where
  "scrub_entry =
     PDict [(PStr ''id'', PInt 1), (PStr ''pool_name'', PStr ''tank''), (PStr ''enabled'', PStr ''yes'')]"

definition scrub_payload :: pyval where
  "scrub_payload = PList [scrub_entry]"

definition scrub_snapshot :: pydict where
  "scrub_snapshot = [(PInt 2, PDict [(PStr ''pool_name'', PStr ''old'')])]"

definition scrub_result :: pydict where
  "scrub_result = [(PInt 1, PDict
     [(PStr ''id'', PInt 1), (PStr ''pool_name'', PStr ''tank''), (PStr ''enabled'', PBool True)])]"

lemma scrub_plain: "plain_keyed scrub_args ''id''" "pa_prune scrub_args"
    "distinct (map sp_name (pa_vals scrub_args))"
  by (simp_all add: scrub_args_def SCRUB_VALS_def)

lemma scrub_uid: "uid_of ''id'' scrub_entry = Some (PInt 1)"
  by code_simp

lemma scrub_entries: "source_entries scrub_payload = Some [scrub_entry]"
  by (simp add: scrub_payload_def)

lemma scrub_parse: "parse_api scrub_args scrub_snapshot scrub_payload = Inr scrub_result"
  by code_simp

lemma scrub_parse_again: "parse_api scrub_args scrub_result scrub_payload = Inr scrub_result"
  by code_simp

theorem parse_api_keeps_snapshot_witness:
  "parse_api scrub_args scrub_snapshot (PList [PNone, PDict []]) = Inr scrub_snapshot"
  using parse_api_keeps_snapshot [OF scrub_plain(1), of "PList [PNone, PDict []]" scrub_snapshot]
  by (simp add: uid_of_def get_uid_def given_def)

theorem parse_api_uids_witness:
  "dget scrub_result (PInt 1) \<noteq> None \<and> dget scrub_result (PInt 2) = None"
proof -
  have at: "dget scrub_result u \<noteq> None \<longleftrightarrow> same_key (PInt 1) u" for u
    by (subst parse_api_uids [OF scrub_plain(1,2) scrub_entries _ scrub_parse])
      (simp_all add: scrub_uid)
  from at [of "PInt 1"] at [of "PInt 2"] show ?thesis by (simp add: same_key_def)
qed

theorem parse_api_record_witness:
  "\<exists>r. dget scrub_result (PInt 1) = Some (PDict r) \<and> sget r ''enabled'' = Some (PBool True)"
proof -
  have src: "source_entries scrub_payload = Some ([] @ scrub_entry # [])"
    by (simp add: scrub_entries)
  have sp: "bool_typed (spec ''enabled'' (PBool False)) \<in> set (pa_vals scrub_args)"
    by (simp add: scrub_args_def SCRUB_VALS_def)
  have val: "spec_value scrub_entry (bool_typed (spec ''enabled'' (PBool False))) = PBool True"
    by code_simp
  obtain r where r: "dget scrub_result (PInt 1) = Some (PDict r)"
      "\<forall>sp \<in> set (pa_vals scrub_args). sget r (sp_name sp) = Some (spec_value scrub_entry sp)"
    using parse_api_record [OF scrub_plain src scrub_uid _ scrub_parse] by auto
  then show ?thesis using sp val by fastforce
qed

theorem parse_api_idempotent_witness:
  "\<exists>r2. dget scrub_result (PInt 1) = Some (PDict r2) \<and> sget r2 ''pool_name'' = Some (PStr ''tank'')"
proof -
  have r1: "dget scrub_result (PInt 1) = Some (PDict
      [(PStr ''id'', PInt 1), (PStr ''pool_name'', PStr ''tank''), (PStr ''enabled'', PBool True)])"
    by (simp add: scrub_result_def)
  from parse_api_idempotent [OF scrub_plain scrub_parse scrub_parse_again r1] show ?thesis
    by auto
qed

theorem table_fields_typed_witness:
  "\<exists>b. spec_value (PDict []) (bool_typed (spec ''enabled'' (PBool False))) = PBool b"
proof -
  have "SCRUB_VALS \<in> set all_tables" by (simp add: all_tables_def)
  moreover have "bool_typed (spec ''enabled'' (PBool False)) \<in> set SCRUB_VALS" by (simp add: SCRUB_VALS_def)
  ultimately show ?thesis using table_fields_typed [of SCRUB_VALS] by simp
qed

end
