(* ===== verification/Refresh.thy ===== *)
theory Refresh
  imports Actions Alerts ParseLaws
begin

text \<open>
  The state of \<open>TrueNASState\<close> and the tracking of cached fallbacks (\<open>domain/state.py\<close>).  The
  endpoint dictionaries of \<open>self._ds\<close> are a function of the endpoint.  The client is a parameter:
  an environment says how each request of one refresh is answered (a refresh issues a request at
  most once), what \<open>enable_private_methods\<close> does, and what the clock shows.  A refresh runs under
  \<open>self._lock\<close>, hence is one action.  Of the log, the warnings and recoveries of the fallback
  tracking and the one-time refusal notice of \<open>get_smb\<close> are kept.
\<close>

section \<open>Endpoints and fallback keys\<close>

datatype endpoint =
    EpPool | EpDataset | EpCloudsync | EpReplication | EpRsynctask | EpSnapshottask | EpCronjob
  | EpService | EpVm | EpContainer | EpApp | EpCertificate | EpDirectoryservices | EpInterface
  | EpDisk | EpScrub | EpArc | EpUps | EpAlerts | EpUpdate | EpSmb | EpSystemInfo

definition KEY_POOL_QUERY :: string where "KEY_POOL_QUERY = ''pool_query''"
definition KEY_UPS_NETDATA_GRAPHS :: string where "KEY_UPS_NETDATA_GRAPHS = ''ups_netdata_graphs''"
definition KEY_DIRECTORYSERVICES_CONFIG :: string where
  "KEY_DIRECTORYSERVICES_CONFIG = ''directoryservices_config''"
definition KEY_DIRECTORYSERVICES_STATUS :: string where
  "KEY_DIRECTORYSERVICES_STATUS = ''directoryservices_status''"
definition KEY_ALERT_LIST :: string where "KEY_ALERT_LIST = ''alert_list''"
definition KEY_SMB_STATUS :: string where "KEY_SMB_STATUS = ''smb_status''"
definition KEY_DISK_TEMPERATURE_UPDATE_UNEXPECTED :: string where
  "KEY_DISK_TEMPERATURE_UPDATE_UNEXPECTED = ''disk_temperature_update_unexpected''"
definition KEY_DISK_TEMP_NETDATA :: string where "KEY_DISK_TEMP_NETDATA = ''disk_temp_netdata''"
definition KEY_DISK_TEMP_FALLBACK :: string where "KEY_DISK_TEMP_FALLBACK = ''disk_temp_fallback''"
definition KEY_DETECT_VIRTUAL :: string where "KEY_DETECT_VIRTUAL = ''detect_virtual''"
definition KEY_DETECT_VERSION :: string where "KEY_DETECT_VERSION = ''detect_version''"
definition KEY_INTERFACE_THROUGHPUT :: string where "KEY_INTERFACE_THROUGHPUT = ''interface_throughput''"
definition KEY_SYSTEM_INFO :: string where "KEY_SYSTEM_INFO = ''system_info''"
definition KEY_DATASET_QUERY :: string where "KEY_DATASET_QUERY = ''dataset_query''"
definition KEY_INTERFACE_QUERY :: string where "KEY_INTERFACE_QUERY = ''interface_query''"
definition KEY_SCRUB_QUERY :: string where "KEY_SCRUB_QUERY = ''scrub_query''"
definition KEY_SERVICE_QUERY :: string where "KEY_SERVICE_QUERY = ''service_query''"
definition KEY_VM_QUERY :: string where "KEY_VM_QUERY = ''vm_query''"
definition KEY_BOOT_POOL :: string where "KEY_BOOT_POOL = ''boot_pool''"
definition KEY_POOL_CAPACITY_DATASET :: string where "KEY_POOL_CAPACITY_DATASET = ''pool_capacity_dataset''"
definition KEY_DATASET_NOT_PUBLISHED :: string where "KEY_DATASET_NOT_PUBLISHED = ''dataset_not_published''"
definition UPS_GRAPH_KEY_PREFIX :: string where "UPS_GRAPH_KEY_PREFIX = ''ups_graph:''"
definition SYSTEMSTAT_KEY_PREFIX :: string where "SYSTEMSTAT_KEY_PREFIX = ''systemstat:''"

lemmas key_defs =
  KEY_POOL_QUERY_def KEY_UPS_NETDATA_GRAPHS_def KEY_DIRECTORYSERVICES_CONFIG_def
  KEY_DIRECTORYSERVICES_STATUS_def KEY_ALERT_LIST_def KEY_SMB_STATUS_def
  KEY_DISK_TEMPERATURE_UPDATE_UNEXPECTED_def KEY_DISK_TEMP_NETDATA_def KEY_DISK_TEMP_FALLBACK_def
  KEY_DETECT_VIRTUAL_def KEY_DETECT_VERSION_def KEY_INTERFACE_THROUGHPUT_def KEY_SYSTEM_INFO_def
  KEY_DATASET_QUERY_def KEY_INTERFACE_QUERY_def KEY_SCRUB_QUERY_def KEY_SERVICE_QUERY_def
  KEY_VM_QUERY_def KEY_BOOT_POOL_def KEY_POOL_CAPACITY_DATASET_def KEY_DATASET_NOT_PUBLISHED_def
  UPS_GRAPH_KEY_PREFIX_def SYSTEMSTAT_KEY_PREFIX_def

definition FALLBACK_KEY_ENDPOINTS :: "(string \<times> endpoint) list" where
  "FALLBACK_KEY_ENDPOINTS =
    [(KEY_POOL_QUERY, EpPool), (KEY_BOOT_POOL, EpPool), (KEY_POOL_CAPACITY_DATASET, EpPool),
     (KEY_DATASET_QUERY, EpDataset), (KEY_DATASET_NOT_PUBLISHED, EpDataset),
     (KEY_UPS_NETDATA_GRAPHS, EpUps), (KEY_DIRECTORYSERVICES_CONFIG, EpDirectoryservices),
     (KEY_DIRECTORYSERVICES_STATUS, EpDirectoryservices), (KEY_ALERT_LIST, EpAlerts),
     (KEY_SMB_STATUS, EpSmb), (KEY_SYSTEM_INFO, EpSystemInfo), (KEY_INTERFACE_QUERY, EpInterface),
     (KEY_SCRUB_QUERY, EpScrub), (KEY_SERVICE_QUERY, EpService), (KEY_VM_QUERY, EpVm)]"

definition NON_ENDPOINT_FALLBACK_KEYS :: "string list" where
  "NON_ENDPOINT_FALLBACK_KEYS =
    [KEY_DISK_TEMPERATURE_UPDATE_UNEXPECTED, KEY_DISK_TEMP_NETDATA, KEY_DISK_TEMP_FALLBACK,
     KEY_INTERFACE_THROUGHPUT, KEY_DETECT_VIRTUAL, KEY_DETECT_VERSION]"

definition NON_ENDPOINT_FALLBACK_KEY_PREFIXES :: "string list" where
  "NON_ENDPOINT_FALLBACK_KEY_PREFIXES = [SYSTEMSTAT_KEY_PREFIX, UPS_GRAPH_KEY_PREFIX]"

definition fallback_endpoint :: "string \<Rightarrow> endpoint option" where
  "fallback_endpoint key = map_of FALLBACK_KEY_ENDPOINTS key"

section \<open>The state\<close>

datatype log_event = LogWarning string | LogRecovered string | LogInfo string

record truenas_state =
  ds :: "endpoint \<Rightarrow> pydict"
  version :: "(int \<times> int) option"
  disk_temp_graph :: "string option"
  fallback_failing :: "(string \<times> bool) list"
  is_virtual :: "bool option"
  systemstats_stale_graphs :: "string list"
  ups_stale_graphs :: "string list"
  boot_pool_uid :: "pyval option"
  smb_denied :: bool
  event_log :: "log_event list"

record refresh_env =
  rpc :: "string \<Rightarrow> pyval \<Rightarrow> py_exn + pyval"
  enable_private_methods :: "py_exn + unit"
  utc_now :: int

definition no_update_pending :: pydict where
  "no_update_pending =
    [(PStr ''update_available'', PBool False), (PStr ''update_state'', PStr ''IDLE''),
     (PStr ''update_version'', PStr ''up-to-date''), (PStr ''update_date'', PNone),
     (PStr ''update_profile'', PNone), (PStr ''update_train'', PNone), (PStr ''update_filename'', PNone)]"

definition initial_system_info :: pydict where
  "initial_system_info =
    [(PStr ''version'', PStr ''unknown''), (PStr ''hostname'', PStr ''unknown''),
     (PStr ''uptime_seconds'', PInt 0), (PStr ''system_serial'', PStr ''unknown''),
     (PStr ''system_product'', PStr ''unknown''), (PStr ''system_manufacturer'', PStr ''unknown''),
     (PStr ''physmem'', PInt 0), (PStr ''uptimeEpoch'', PInt 0), (PStr ''cpu_temperature'', PNone),
     (PStr ''cpu_usage'', PFloat (Fin 0)), (PStr ''load_shortterm'', PFloat (Fin 0)),
     (PStr ''load_midterm'', PFloat (Fin 0)), (PStr ''load_longterm'', PFloat (Fin 0)),
     (PStr ''cache_size-arc_value'', PFloat (Fin 0)), (PStr ''memory-free_value'', PFloat (Fin 0)),
     (PStr ''memory-total_value'', PFloat (Fin 0)), (PStr ''memory-usage_percent'', PInt 0)]"

definition initial_ds :: "endpoint \<Rightarrow> pydict" where
  "initial_ds ep =
     (case ep of
        EpAlerts \<Rightarrow> aggregate_alerts []
      | EpUpdate \<Rightarrow> no_update_pending
      | EpSmb \<Rightarrow> [(PStr ''connections'', PInt 0)]
      | EpSystemInfo \<Rightarrow> initial_system_info
      | _ \<Rightarrow> [])"

definition init_state :: truenas_state where
  "init_state = \<lparr>ds = initial_ds, version = None, disk_temp_graph = None, fallback_failing = [],
     is_virtual = None, systemstats_stale_graphs = [], ups_stale_graphs = [], boot_pool_uid = None,
     smb_denied = False, event_log = []\<rparr>"

type_synonym 'a refresh = "(truenas_state, 'a) action"

definition set_ds :: "endpoint \<Rightarrow> pydict \<Rightarrow> truenas_state \<Rightarrow> truenas_state" where
  "set_ds ep d st = st\<lparr>ds := (ds st)(ep := d)\<rparr>"

definition get_ds :: "endpoint \<Rightarrow> pydict refresh" where
  "get_ds ep = asks (\<lambda>st. ds st ep)"

definition put_ds :: "endpoint \<Rightarrow> pydict \<Rightarrow> unit refresh" where
  "put_ds ep d = modify (set_ds ep d)"

definition client_call :: "refresh_env \<Rightarrow> string \<Rightarrow> pyval \<Rightarrow> pyval refresh" where
  "client_call env method params = answer (rpc env method params)"

definition report_epoch :: "refresh_env \<Rightarrow> int" where
  "report_epoch env = utc_now env div 1000000"

section \<open>Fallback tracking\<close>

definition is_failing :: "truenas_state \<Rightarrow> string \<Rightarrow> bool" where
  "is_failing st key = (map_of (fallback_failing st) key = Some True)"

definition set_failing :: "string \<Rightarrow> truenas_state \<Rightarrow> truenas_state" where
  "set_failing key st = st\<lparr>fallback_failing := AList.update key True (fallback_failing st)\<rparr>"

definition clear_failing :: "string \<Rightarrow> truenas_state \<Rightarrow> truenas_state" where
  "clear_failing key st = st\<lparr>fallback_failing := AList.delete key (fallback_failing st)\<rparr>"

definition log_append :: "log_event \<Rightarrow> truenas_state \<Rightarrow> truenas_state" where
  "log_append ev st = st\<lparr>event_log := event_log st @ [ev]\<rparr>"

definition note_fallback_outcome :: "string \<Rightarrow> bool \<Rightarrow> unit refresh" where
  "note_fallback_outcome key failed = modify (\<lambda>st.
     if failed then
       (if is_failing st key then st else set_failing key (log_append (LogWarning key) st))
     else clear_failing key (if is_failing st key then log_append (LogRecovered key) st else st))"

definition primary_usable :: "string \<Rightarrow> pyval \<Rightarrow> bool" where
  "primary_usable id_field raw =
     (case (case raw of PDict d \<Rightarrow> Some [PDict d] | PList xs \<Rightarrow> Some xs | _ \<Rightarrow> None) of
        None \<Rightarrow> False
      | Some entries \<Rightarrow> entries = []
          \<or> list_ex (\<lambda>entry. get_uid entry (Some id_field) None None None \<noteq> None) entries)"

definition note_primary_query_outcome :: "string \<Rightarrow> pyval \<Rightarrow> string \<Rightarrow> unit refresh" where
  "note_primary_query_outcome key raw id_field =
     note_fallback_outcome key (\<not> primary_usable id_field raw)"

definition stale_endpoints :: "truenas_state \<Rightarrow> endpoint list" where
  "stale_endpoints st =
     List.map_filter (\<lambda>(key, failing). if failing then fallback_endpoint key else None) (fallback_failing st)
     @ (if ups_stale_graphs st \<noteq> [] then [EpUps] else [])"

section \<open>Loops over the records of an endpoint\<close>

text \<open>
  \<open>for uid, vals in d.items(): body\<close>, where the body changes \<open>vals\<close>.  If the body raises, the
  records before are changed, the raising one up to the exception, the rest are not.
\<close>

fun for_items :: "(pyval \<Rightarrow> (pydict, unit) action) \<Rightarrow> (pydict, unit) action" where
  "for_items f [] = (Inr (), [])"
| "for_items f ((k, PDict r) # d) =
     (case f k r of
        (Inl e, r') \<Rightarrow> (Inl e, (k, PDict r') # d)
      | (Inr _, r') \<Rightarrow> (case for_items f d of (res, d') \<Rightarrow> (res, (k, PDict r') # d')))"
| "for_items f ((k, v) # d) = (Inl (Builtin AttributeError), (k, v) # d)"

definition in_ds :: "endpoint \<Rightarrow> (pydict, 'a) action \<Rightarrow> 'a refresh" where
  "in_ds ep m = zoom (\<lambda>st. ds st ep) (set_ds ep) m"

text \<open>\<open>vals[name] = v\<close>, \<open>vals.get(name, d)\<close>, \<open>vals[name]\<close>, \<open>vals.pop(name, d)\<close> on a record.\<close>

definition put_item :: "string \<Rightarrow> pyval \<Rightarrow> (pydict, unit) action" where
  "put_item name v = modify (\<lambda>r. sset r name v)"

definition item_or :: "string \<Rightarrow> pyval \<Rightarrow> (pydict, pyval) action" where
  "item_or name d = asks (\<lambda>r. get_or r name d)"

definition item :: "string \<Rightarrow> (pydict, pyval) action" where
  "item name r = (case sget r name of Some v \<Rightarrow> (Inr v, r) | None \<Rightarrow> (Inl (Builtin KeyError), r))"

definition pop_item :: "string \<Rightarrow> pyval \<Rightarrow> (pydict, pyval) action" where
  "pop_item name d r = (Inr (get_or r name d), ddel r (PStr name))"

text \<open>The \<open>parse_api\<close> call on a keyed endpoint: the snapshot is replaced by its result.\<close>

definition parse_into :: "endpoint \<Rightarrow> parse_args \<Rightarrow> pyval \<Rightarrow> unit refresh" where
  "parse_into ep a raw = seq (get_ds ep) (\<lambda>d. seq (pure (parse_api a d raw)) (put_ds ep))"

section \<open>Laws of the tracking\<close>

lemma lookup_alist_update: "map_of (AList.update k v m) k' = (if k = k' then Some v else map_of m k')"
  by (simp add: update_conv')

lemma lookup_alist_delete: "map_of (AList.delete k m) k' = (if k = k' then None else map_of m k')"
  by (simp add: delete_conv')

interpretation al: dict_laws map_of "\<lambda>m k v. AList.update k v m" "\<lambda>m k. AList.delete k m" "(=)"
  by unfold_locales (simp_all add: lookup_alist_update lookup_alist_delete identity_equivp)

lemma is_failing_set [simp]: "is_failing (set_failing k st) k' \<longleftrightarrow> k = k' \<or> is_failing st k'"
  by (simp add: is_failing_def set_failing_def al.lookup_update)

lemma is_failing_clear [simp]: "is_failing (clear_failing k st) k' \<longleftrightarrow> k \<noteq> k' \<and> is_failing st k'"
  by (simp add: is_failing_def clear_failing_def al.lookup_remove)

lemma is_failing_log [simp]: "is_failing (log_append ev st) k = is_failing st k"
  by (simp add: is_failing_def log_append_def)

lemma is_failing_set_ds [simp]: "is_failing (set_ds ep d st) k = is_failing st k"
  by (simp add: is_failing_def set_ds_def)

text \<open>The state after noting an outcome.\<close>

definition noted :: "string \<Rightarrow> bool \<Rightarrow> truenas_state \<Rightarrow> truenas_state" where
  "noted key failed st = snd (note_fallback_outcome key failed st)"

lemma note_fallback_run [simp]: "note_fallback_outcome key failed st = (Inr (), noted key failed st)"
  by (simp add: noted_def note_fallback_outcome_def)

lemma note_primary_run [simp]:
  "note_primary_query_outcome key raw f st = (Inr (), noted key (\<not> primary_usable f raw) st)"
  by (simp add: note_primary_query_outcome_def)

lemma noted_failing [simp]: "is_failing (noted key failed st) k \<longleftrightarrow> (if key = k then failed else is_failing st k)"
  by (auto simp: noted_def note_fallback_outcome_def)

lemmas tracking_defs = noted_def note_fallback_outcome_def set_failing_def clear_failing_def
  log_append_def

lemma noted_frame [simp]:
  "ds (noted k f st) = ds st" "version (noted k f st) = version st"
  "disk_temp_graph (noted k f st) = disk_temp_graph st" "is_virtual (noted k f st) = is_virtual st"
  "systemstats_stale_graphs (noted k f st) = systemstats_stale_graphs st"
  "ups_stale_graphs (noted k f st) = ups_stale_graphs st"
  "boot_pool_uid (noted k f st) = boot_pool_uid st" "smb_denied (noted k f st) = smb_denied st"
  by (simp_all add: tracking_defs)

lemma set_ds_frame [simp]:
  "ds (set_ds ep d st) = (ds st)(ep := d)" "version (set_ds ep d st) = version st"
  "fallback_failing (set_ds ep d st) = fallback_failing st"
  "ups_stale_graphs (set_ds ep d st) = ups_stale_graphs st"
  "boot_pool_uid (set_ds ep d st) = boot_pool_uid st" "smb_denied (set_ds ep d st) = smb_denied st"
  "event_log (set_ds ep d st) = event_log st" "is_virtual (set_ds ep d st) = is_virtual st"
  "disk_temp_graph (set_ds ep d st) = disk_temp_graph st"
  "systemstats_stale_graphs (set_ds ep d st) = systemstats_stale_graphs st"
  by (simp_all add: set_ds_def)

lemma failing_keys_frame [simp]:
  "ds (set_failing k st) = ds st" "ds (clear_failing k st) = ds st" "ds (log_append e st) = ds st"
  "smb_denied (set_failing k st) = smb_denied st" "smb_denied (clear_failing k st) = smb_denied st"
  "smb_denied (log_append e st) = smb_denied st"
  "ups_stale_graphs (set_failing k st) = ups_stale_graphs st"
  "ups_stale_graphs (clear_failing k st) = ups_stale_graphs st"
  "ups_stale_graphs (log_append e st) = ups_stale_graphs st"
  by (simp_all add: set_failing_def clear_failing_def log_append_def)

text \<open>
  The number of warnings about a path: noting a failure warns exactly when the path was not
  failing, so a persistent failure warns once.
\<close>

definition warnings :: "string \<Rightarrow> truenas_state \<Rightarrow> nat" where
  "warnings key st = count_list (event_log st) (LogWarning key)"

lemma warnings_noted:
  "warnings k (noted key failed st) =
     warnings k st + (if key = k \<and> failed \<and> \<not> is_failing st key then 1 else 0)"
  by (auto simp: tracking_defs warnings_def is_failing_def)

fun note_all :: "string \<Rightarrow> bool list \<Rightarrow> truenas_state \<Rightarrow> truenas_state" where
  "note_all key [] st = st"
| "note_all key (failed # outcomes) st = note_all key outcomes (noted key failed st)"

text \<open>The failing transitions in a sequence of outcomes, from a path that is (not) failing.\<close>

fun failing_transitions :: "bool \<Rightarrow> bool list \<Rightarrow> nat" where
  "failing_transitions failing [] = 0"
| "failing_transitions failing (failed # outcomes) =
     (if failed \<and> \<not> failing then 1 else 0) + failing_transitions failed outcomes"

text \<open>
  C19: however long an outage lasts, a fallback path warns once per failing transition, never
  once per poll.
\<close>

theorem warn_once_per_transition:
  "warnings key (note_all key outcomes st)
    = warnings key st + failing_transitions (is_failing st key) outcomes"
  by (induction outcomes arbitrary: st) (simp_all add: warnings_noted)

section \<open>What counts as a malformed answer\<close>

lemma source_entries_primary:
  "(case raw of PDict d \<Rightarrow> Some [PDict d] | PList xs \<Rightarrow> Some xs | _ \<Rightarrow> None) = source_entries raw"
  by (cases raw) auto

lemma primary_usable_iff:
  "primary_usable k raw \<longleftrightarrow>
     (case source_entries raw of None \<Rightarrow> False | Some xs \<Rightarrow> xs = [] \<or> (\<exists>x \<in> set xs. uid_of k x \<noteq> None))"
  by (auto simp: primary_usable_def source_entries_primary uid_of_def list_ex_iff split: option.split)

lemma map_filter_memI: "x \<in> set xs \<Longrightarrow> f x = Some y \<Longrightarrow> y \<in> set (List.map_filter f xs)"
  by (induction xs) (auto simp: map_filter_simps split: option.split)

lemma failing_stale:
  assumes "is_failing st key" "fallback_endpoint key = Some ep"
  shows "ep \<in> set (stale_endpoints st)"
proof -
  have "(key, True) \<in> set (fallback_failing st)" using assms(1) by (simp add: is_failing_def map_of_SomeD)
  then have "ep \<in> set (List.map_filter (\<lambda>(key, failing). if failing then fallback_endpoint key else None)
      (fallback_failing st))"
    by (rule map_filter_memI) (simp add: assms(2))
  then show ?thesis by (simp add: stale_endpoints_def)
qed

lemma fallback_endpoints [simp]:
  "fallback_endpoint KEY_POOL_QUERY = Some EpPool" "fallback_endpoint KEY_BOOT_POOL = Some EpPool"
  "fallback_endpoint KEY_POOL_CAPACITY_DATASET = Some EpPool"
  "fallback_endpoint KEY_DATASET_QUERY = Some EpDataset"
  "fallback_endpoint KEY_DATASET_NOT_PUBLISHED = Some EpDataset"
  "fallback_endpoint KEY_UPS_NETDATA_GRAPHS = Some EpUps"
  "fallback_endpoint KEY_DIRECTORYSERVICES_CONFIG = Some EpDirectoryservices"
  "fallback_endpoint KEY_DIRECTORYSERVICES_STATUS = Some EpDirectoryservices"
  "fallback_endpoint KEY_ALERT_LIST = Some EpAlerts" "fallback_endpoint KEY_SMB_STATUS = Some EpSmb"
  "fallback_endpoint KEY_SYSTEM_INFO = Some EpSystemInfo"
  "fallback_endpoint KEY_INTERFACE_QUERY = Some EpInterface"
  "fallback_endpoint KEY_SCRUB_QUERY = Some EpScrub" "fallback_endpoint KEY_SERVICE_QUERY = Some EpService"
  "fallback_endpoint KEY_VM_QUERY = Some EpVm"
  by (simp_all add: fallback_endpoint_def FALLBACK_KEY_ENDPOINTS_def key_defs)

section \<open>Records\<close>

text \<open>Every value of the dictionary is a record of \<open>P\<close>.\<close>

definition records :: "(pydict \<Rightarrow> bool) \<Rightarrow> pydict \<Rightarrow> bool" where
  "records P d = list_all (\<lambda>(k, v). case v of PDict r \<Rightarrow> P r | _ \<Rightarrow> False) d"

lemma records_simps [simp]:
  "records P []" "records P ((k, PDict r) # d) \<longleftrightarrow> P r \<and> records P d"
  by (simp_all add: records_def)

lemma records_Cons:
  "records P ((k, v) # d) \<longleftrightarrow> (\<exists>r. v = PDict r \<and> P r) \<and> records P d"
  by (cases v) (simp_all add: records_def)

lemma records_mono: "records P d \<Longrightarrow> (\<And>r. P r \<Longrightarrow> Q r) \<Longrightarrow> records Q d"
  by (induction d) (auto simp: records_Cons)

lemma records_dset: "records P d \<Longrightarrow> P r \<Longrightarrow> records P (dset d k (PDict r))"
  by (induction d k "PDict r" rule: dset.induct) (auto simp: records_Cons)

lemma records_subset: "records P d \<Longrightarrow> set d' \<subseteq> set d \<Longrightarrow> records P d'"
  by (auto simp: records_def list_all_iff)

lemma records_dget: "records P d \<Longrightarrow> dget d k = Some v \<Longrightarrow> \<exists>r. v = PDict r \<and> P r"
  by (induction d) (auto simp: records_Cons split: if_splits)

lemma records_parse_step:
  assumes "records P d" "\<And>t. P (entry_record a x t)"
  shows "records P (parse_step a k x d)"
  using assms by (auto simp: parse_step_def store_target_def intro: records_dset split: option.split)

lemma records_parse_fold:
  "records P d \<Longrightarrow> (\<And>x t. P (entry_record a x t)) \<Longrightarrow> records P (fold (parse_step a k) xs d)"
  by (rule fold_invariant) (auto intro: records_parse_step)

lemma records_prune: "records P d \<Longrightarrow> records P (prune_stale_uids d a s)"
proof -
  assume d: "records P d"
  have "records P (fold (\<lambda>stale d. ddel d stale) ks d)" for ks
    by (rule fold_invariant [where P = "records P"]) (use d in \<open>auto simp: ddel_def elim: records_subset\<close>)
  then show ?thesis using d by (simp add: prune_stale_uids_def)
qed

lemma records_parse_api:
  assumes "plain_keyed a k" "records P d" "\<And>x t. P (entry_record a x t)" "parse_api a d raw = Inr d'"
  shows "records P d'"
  using assms(4) records_parse_fold [OF assms(2,3), of k] assms(2)
  by (auto simp: parse_api_plain [OF assms(1)] Let_def records_prune split: option.splits if_splits)

lemma parse_api_total: "plain_keyed a k \<Longrightarrow> \<exists>d'. parse_api a d raw = Inr d'"
  by (simp add: parse_api_plain)

text \<open>A map of records: what every endpoint keyed by an id holds.\<close>

abbreviation record_map :: "pydict \<Rightarrow> bool" where
  "record_map d \<equiv> records (\<lambda>_. True) d"

lemma record_map_parse:
  "plain_keyed a k \<Longrightarrow> record_map d \<Longrightarrow> parse_api a d raw = Inr d' \<Longrightarrow> record_map d'"
  by (rule records_parse_api) auto

lemma for_items_records:
  assumes "record_map d" "for_items f d = (res, d')"
  shows "record_map d'"
  using assms
  by (induction f d arbitrary: res d' rule: for_items.induct)
    (auto split: prod.splits sum.splits)

lemma for_items_keys: "for_items f d = (res, d') \<Longrightarrow> map fst d' = map fst d"
  by (induction f d arbitrary: res d' rule: for_items.induct) (auto split: prod.splits sum.splits)

end
