(* ===== verification/Pools.thy ===== *)
theory Pools
  imports Refresh
begin

text \<open>
  Datasets and pools (\<open>get_dataset\<close>, \<open>get_pool\<close> and their helpers in \<open>domain/state.py\<close>).  Both
  maps are built locally and published together at the end of \<open>get_pool\<close>.
\<close>

section \<open>Datasets\<close>

definition compute_dataset :: "refresh_env \<Rightarrow> pydict refresh" where
  "compute_dataset env =
     seq (client_call env ''pool.dataset.query'' PNone) (\<lambda>raw.
     seq (note_primary_query_outcome KEY_DATASET_QUERY raw ''id'') (\<lambda>_.
     seq (get_ds EpDataset) (\<lambda>cached.
       pure (parse_api (keyed_args ''id'' DATASET_VALS []) cached raw))))"

definition get_dataset :: "refresh_env \<Rightarrow> pydict refresh" where
  "get_dataset env =
     seq (compute_dataset env) (\<lambda>datasets.
     seq (put_ds EpDataset datasets) (\<lambda>_.
     seq (modify (clear_failing KEY_DATASET_NOT_PUBLISHED)) (\<lambda>_. ret datasets)))"

section \<open>Capacity of a pool\<close>

definition is_valid_pool_entry :: "pyval \<Rightarrow> bool" where
  "is_valid_pool_entry entry = (get_uid entry (Some ''guid'') None None None \<noteq> None)"

definition POOL_CAPACITY_KEYS :: "string list" where
  "POOL_CAPACITY_KEYS = [''available'', ''total'', ''usage'', ''size'', ''allocated'', ''free'']"

definition is_plausible_capacity :: "int \<Rightarrow> int \<Rightarrow> int option \<Rightarrow> bool" where
  "is_plausible_capacity available whole used =
     (whole > 0 \<and> 0 \<le> available \<and> available \<le> whole
      \<and> (case used of None \<Rightarrow> True | Some u \<Rightarrow> 0 \<le> u \<and> u \<le> whole))"

definition sum_or_none :: "int option \<Rightarrow> int option \<Rightarrow> int option" where
  "sum_or_none a b = (case (a, b) of (Some x, Some y) \<Rightarrow> Some (x + y) | _ \<Rightarrow> None)"

definition pool_query_capacity :: "pydict \<Rightarrow> int option \<times> int option \<times> int option" where
  "pool_query_capacity vals =
     (let available = to_optional_int (get_or vals ''free'' PNone);
          used = to_optional_int (get_or vals ''allocated'' PNone);
          size = to_optional_int (get_or vals ''size'' PNone);
          whole = (case size of Some s \<Rightarrow> if s > 0 then Some s else sum_or_none used available
                   | None \<Rightarrow> sum_or_none used available)
      in (available, whole, used))"

definition capacity_figures :: "pydict \<Rightarrow> pyval option \<Rightarrow> int option \<times> int option \<times> int option" where
  "capacity_figures vals root_dataset =
     (case root_dataset of
        Some rset \<Rightarrow>
          if truthy rset then
            (let available = to_optional_int (field rset ''available'');
                 used = to_optional_int (field rset ''used'')
             in (available, sum_or_none available used, used))
          else pool_query_capacity vals
      | None \<Rightarrow> pool_query_capacity vals)"

text \<open>\<open>round((total - available) / total * 100)\<close>.\<close>

definition usage_percent :: "int \<Rightarrow> int \<Rightarrow> builtin_error + int" where
  "usage_percent available whole =
     res_bind (num_div (NInt (whole - available)) (NInt whole)) (\<lambda>q.
     res_bind (num_mul q (NInt 100)) num_round)"

definition apply_pool_capacity :: "pydict \<Rightarrow> pyval option \<Rightarrow> builtin_error + pydict" where
  "apply_pool_capacity vals root_dataset =
     (let unknown = Inr (fold (\<lambda>k p. sset p k PNone) POOL_CAPACITY_KEYS vals) in
      case capacity_figures vals root_dataset of
        (Some available, Some whole, used) \<Rightarrow>
          if \<not> is_plausible_capacity available whole used then unknown
          else
            (let used = (case used of Some u \<Rightarrow> if u + available \<noteq> whole then None else Some u | None \<Rightarrow> None);
                 pool = sset vals ''size'' (PInt whole);
                 pool = sset pool ''allocated'' (PInt (case used of Some u \<Rightarrow> u | None \<Rightarrow> whole - available));
                 pool = sset pool ''available'' (PInt available);
                 pool = sset pool ''total'' (PInt whole)
             in res_map (\<lambda>u. sset pool ''usage'' (PInt u)) (usage_percent available whole))
      | _ \<Rightarrow> unknown)"

definition datasets_by_mountpoint :: "pydict \<Rightarrow> pydict" where
  "datasets_by_mountpoint datasets =
     fold (\<lambda>dataset m. case field dataset ''mountpoint'' of
         PStr s \<Rightarrow> if s \<notin> {[], ''unknown''} then sset m s dataset else m
       | _ \<Rightarrow> m)
       (map snd datasets) []"

definition root_dataset_of :: "pydict \<Rightarrow> pydict \<Rightarrow> pyval option" where
  "root_dataset_of datasets vals =
     (case (case get_or vals ''path'' PNone of
              PStr s \<Rightarrow> sget (datasets_by_mountpoint datasets) s | _ \<Rightarrow> None) of
        Some d \<Rightarrow> Some d
      | None \<Rightarrow> (let name = get_or vals ''name'' PNone in
          if hashable name then dget datasets name else None))"

text \<open>The loop over the pools: the uids whose capacity used a stale root dataset, and the pools.\<close>

fun capacity_loop :: "pydict \<Rightarrow> bool \<Rightarrow> pydict \<Rightarrow> builtin_error + (string list \<times> pydict)" where
  "capacity_loop datasets dataset_query_stale [] = Inr ([], [])"
| "capacity_loop datasets dataset_query_stale ((uid, PDict vals) # pools) =
     (let root_dataset = root_dataset_of datasets vals in
      res_bind (apply_pool_capacity vals root_dataset) (\<lambda>pool.
      let pool = sset pool ''fragmentation'' (PInt (to_int (get_or vals ''fragmentation'' PNone) 0)) in
      res_map (\<lambda>(stale, rest).
          (if root_dataset \<noteq> None \<and> dataset_query_stale then py_str uid # stale else stale,
           (uid, PDict pool) # rest))
        (capacity_loop datasets dataset_query_stale pools)))"
| "capacity_loop datasets dataset_query_stale ((uid, v) # pools) = Inl AttributeError"

section \<open>Errors and the boot pool\<close>

definition put_pool_errors :: "int \<times> int \<times> int \<Rightarrow> pydict \<Rightarrow> pydict" where
  "put_pool_errors e pool =
     (case e of (rd, wr, ck) \<Rightarrow>
       sset (sset (sset (sset pool ''read_errors'' (PInt rd)) ''write_errors'' (PInt wr))
         ''checksum_errors'' (PInt ck)) ''errors'' (PInt (rd + wr + ck)))"

definition apply_pool_error :: "pyval \<Rightarrow> pydict \<Rightarrow> pydict" where
  "apply_pool_error raw_pool pools =
     (case raw_pool of
        PDict raw \<Rightarrow>
          (let uid = get_or raw ''guid'' PNone in
           if \<not> hashable uid then pools
           else (case dget pools uid of
               Some (PDict pool) \<Rightarrow>
                 dset pools uid (PDict (put_pool_errors
                   (aggregate_topology_errors (get_or raw ''topology'' PNone)) pool))
             | _ \<Rightarrow> pools))
      | _ \<Rightarrow> pools)"

definition apply_pool_errors :: "pydict \<Rightarrow> pyval \<Rightarrow> pydict" where
  "apply_pool_errors pools raw_pools =
     (case raw_pools of PList xs \<Rightarrow> fold apply_pool_error xs pools | _ \<Rightarrow> pools)"

text \<open>\<open>boot.get_state\<close> has no id: its pool name serves as \<open>guid\<close> and \<open>id\<close>.\<close>

definition with_boot_ids :: "pyval \<Rightarrow> pyval" where
  "with_boot_ids raw_boot =
     (case raw_boot of
        PDict d \<Rightarrow>
          if d = [] then raw_boot
          else (let name = get_or d ''name'' (PStr ''boot-pool'');
                    d = (if has_key d (PStr ''guid'') then d else sset d ''guid'' name);
                    d = (if has_key d (PStr ''id'') then d else sset d ''id'' name)
                in PDict d)
      | _ \<Rightarrow> raw_boot)"

definition boot_args :: parse_args where
  "boot_args = (keyed_args ''guid'' POOL_VALS POOL_ENSURE_VALS)\<lparr>pa_prune := False\<rparr>"

definition carry_over_boot_pool :: "pydict \<Rightarrow> pydict refresh" where
  "carry_over_boot_pool pools =
     seq (asks boot_pool_uid) (\<lambda>boot_uid. seq (get_ds EpPool) (\<lambda>cached_pools.
       case boot_uid of
         None \<Rightarrow> ret pools
       | Some uid \<Rightarrow> (case dget cached_pools uid of
             None \<Rightarrow> ret pools
           | Some cached \<Rightarrow> seq (note_fallback_outcome KEY_BOOT_POOL True)
               (\<lambda>_. ret (dset pools uid cached)))))"

definition add_boot_pool :: "refresh_env \<Rightarrow> pydict \<Rightarrow> pydict refresh" where
  "add_boot_pool env pools =
     seq (client_call env ''boot.get_state'' PNone) (\<lambda>answer.
     let raw_boot = with_boot_ids answer in
     case get_uid raw_boot (Some ''guid'') None None None of
       None \<Rightarrow> carry_over_boot_pool pools
     | Some guid \<Rightarrow>
         seq (modify (\<lambda>st. st\<lparr>boot_pool_uid := Some guid\<rparr>)) (\<lambda>_.
         seq (pure (parse_api boot_args pools raw_boot)) (\<lambda>pools.
         seq (note_fallback_outcome KEY_BOOT_POOL False) (\<lambda>_.
           ret (apply_pool_errors pools (PList [raw_boot]))))))"

section \<open>\<open>get_pool\<close>\<close>

definition malformed_pools :: "pyval \<Rightarrow> bool" where
  "malformed_pools raw_pools =
     (case raw_pools of PList xs \<Rightarrow> xs \<noteq> [] \<and> \<not> list_ex is_valid_pool_entry xs | _ \<Rightarrow> True)"

definition build_pools :: "refresh_env \<Rightarrow> pydict \<Rightarrow> pyval \<Rightarrow> pydict refresh" where
  "build_pools env datasets raw_pools =
     seq (get_ds EpPool) (\<lambda>cached.
     seq (pure (parse_api (keyed_args ''guid'' POOL_VALS POOL_ENSURE_VALS) cached raw_pools)) (\<lambda>pools.
     seq (add_boot_pool env (apply_pool_errors pools raw_pools)) (\<lambda>pools.
     seq (asks (\<lambda>st. is_failing st KEY_DATASET_QUERY)) (\<lambda>dataset_query_stale.
     seq (pure (capacity_loop datasets dataset_query_stale pools)) (\<lambda>(stale_capacity_uids, pools).
     seq (note_fallback_outcome KEY_POOL_CAPACITY_DATASET (stale_capacity_uids \<noteq> [])) (\<lambda>_.
       ret pools))))))"

definition get_pool :: "refresh_env \<Rightarrow> pydict refresh" where
  "get_pool env =
     seq (compute_dataset env) (\<lambda>datasets.
     seq (client_call env ''pool.query'' PNone) (\<lambda>raw_pools.
     if malformed_pools raw_pools then
       seq (note_fallback_outcome KEY_POOL_QUERY True) (\<lambda>_.
       seq (modify (set_failing KEY_DATASET_NOT_PUBLISHED)) (\<lambda>_. get_ds EpPool))
     else
       seq (note_fallback_outcome KEY_POOL_QUERY False) (\<lambda>_.
       seq (modify (clear_failing KEY_DATASET_NOT_PUBLISHED)) (\<lambda>_.
       seq (build_pools env datasets raw_pools) (\<lambda>pools.
       seq (put_ds EpDataset datasets) (\<lambda>_.
       seq (put_ds EpPool pools) (\<lambda>_. ret pools)))))))"

end
