(* ===== verification/PoolLaws.thy ===== *)
theory PoolLaws
  imports Pools
begin

text \<open>
  What \<open>get_pool\<close> promises: consistent capacity figures in every pool, publication of datasets
  and pools together or not at all, and a boot pool that does not vanish on a bad answer.
\<close>

section \<open>Capacity\<close>

text \<open>The figures of a pool: unknown all together, or consistent.\<close>

definition capacity_ok :: "pydict \<Rightarrow> bool" where
  "capacity_ok r \<longleftrightarrow>
     list_all (\<lambda>k. sget r k = Some PNone) POOL_CAPACITY_KEYS
     \<or> (\<exists>a t u. sget r ''available'' = Some (PInt a) \<and> sget r ''total'' = Some (PInt t)
         \<and> sget r ''size'' = Some (PInt t) \<and> sget r ''allocated'' = Some (PInt (t - a))
         \<and> sget r ''usage'' = Some (PInt u) \<and> 0 < t \<and> 0 \<le> a \<and> a \<le> t \<and> 0 \<le> u \<and> u \<le> 100)"

lemma usage_percent_range:
  assumes "0 \<le> a" "a \<le> t" "0 < t"
  shows "\<exists>u. usage_percent a t = Inr u \<and> 0 \<le> u \<and> u \<le> 100"
proof -
  let ?q = "fl64 (of_int (t - a) / of_int t)"
  have d: "num_div (NInt (t - a)) (NInt t) = Inr (NFloat (Fin ?q))"
    using assms by (intro num_div_part) auto
  have q: "0 \<le> ?q" "?q \<le> 1" using b64.ratio_bounds [of "t - a" t] assms by auto
  then have "num_mul (NFloat (Fin ?q)) (NInt 100) = Inr (NFloat (Fin (fl64 (?q * 100))))"
    by (rule num_mul_100)
  moreover have "0 \<le> rhe (fl64 (?q * 100))" "rhe (fl64 (?q * 100)) \<le> 100"
    using b64.percent_bounds [OF q] rhe_ge [of 0 "fl64 (?q * 100)"] rhe_le [of "fl64 (?q * 100)" 100]
    by auto
  ultimately show ?thesis by (simp add: usage_percent_def d)
qed

lemma unknown_capacity: "capacity_ok (fold (\<lambda>k p. sset p k PNone) POOL_CAPACITY_KEYS vals)"
  by (simp add: capacity_ok_def POOL_CAPACITY_KEYS_def)

lemma pool_capacity_total: "\<exists>pool. apply_pool_capacity vals root_dataset = Inr pool \<and> capacity_ok pool"
proof -
  obtain av tot used where fig: "capacity_figures vals root_dataset = (av, tot, used)"
    by (metis prod.exhaust)
  show ?thesis
  proof (cases "\<exists>a t. av = Some a \<and> tot = Some t \<and> is_plausible_capacity a t used")
    case True
    then obtain a t where at: "av = Some a" "tot = Some t" "is_plausible_capacity a t used" by blast
    then have range: "0 \<le> a" "a \<le> t" "0 < t" by (auto simp: is_plausible_capacity_def)
    from usage_percent_range [OF this] obtain u where "usage_percent a t = Inr u" "0 \<le> u" "u \<le> 100"
      by blast
    with fig at range show ?thesis
      by (cases used) (auto simp: apply_pool_capacity_def capacity_ok_def Let_def)
  next
    case False
    with fig have "apply_pool_capacity vals root_dataset
        = Inr (fold (\<lambda>k p. sset p k PNone) POOL_CAPACITY_KEYS vals)"
      by (auto simp: apply_pool_capacity_def Let_def split: option.splits)
    then show ?thesis using unknown_capacity by blast
  qed
qed

lemma capacity_ok_fragmentation: "capacity_ok r \<Longrightarrow> capacity_ok (sset r ''fragmentation'' v)"
  by (simp add: capacity_ok_def POOL_CAPACITY_KEYS_def)

lemma capacity_loop_ok:
  assumes "record_map pools"
  shows "\<exists>stale pools'. capacity_loop datasets b pools = Inr (stale, pools')
    \<and> records capacity_ok pools' \<and> map fst pools' = map fst pools
    \<and> (stale \<noteq> [] \<longrightarrow> b)"
  using assms
proof (induction datasets b pools rule: capacity_loop.induct)
  case (2 datasets b uid vals pools)
  then obtain stale pools' where IH: "capacity_loop datasets b pools = Inr (stale, pools')"
      "records capacity_ok pools'" "map fst pools' = map fst pools" "stale \<noteq> [] \<longrightarrow> b"
    using pool_capacity_total by fastforce
  obtain pool where "apply_pool_capacity vals (root_dataset_of datasets vals) = Inr pool" "capacity_ok pool"
    using pool_capacity_total by blast
  with IH show ?case by (auto simp: capacity_ok_fragmentation)
qed (simp_all add: records_Cons)

lemma capacity_loop_keys:
  "capacity_loop datasets b pools = Inr (stale, pools') \<Longrightarrow> map fst pools' = map fst pools"
  by (induction datasets b pools arbitrary: stale pools' rule: capacity_loop.induct)
    (auto simp: Let_def res_simps split: prod.splits)

lemma dget_keys: "map fst d' = map fst d \<Longrightarrow> dget d' k = None \<longleftrightarrow> dget d k = None"
  by (simp add: dget_None_iff flip: map_map)

section \<open>Runs of \<open>get_pool\<close>\<close>

lemma compute_dataset_cases:
  assumes "compute_dataset env st = (r, st')"
  shows "(\<exists>e. r = Inl e \<and> st' = st) \<or>
    (\<exists>raw d. rpc env ''pool.dataset.query'' PNone = Inr raw \<and> r = Inr d
       \<and> parse_api (keyed_args ''id'' DATASET_VALS []) (ds st EpDataset) raw = Inr d
       \<and> st' = noted KEY_DATASET_QUERY (\<not> primary_usable ''id'' raw) st)"
proof (cases "rpc env ''pool.dataset.query'' PNone")
  case (Inl e)
  with assms show ?thesis by (auto simp: compute_dataset_def client_call_def seq_def)
next
  case (Inr raw)
  obtain d where d: "parse_api (keyed_args ''id'' DATASET_VALS []) (ds st EpDataset) raw = Inr d"
    using parse_api_total [of "keyed_args ''id'' DATASET_VALS []" "''id''"] by auto
  with Inr assms show ?thesis
    by (auto simp: compute_dataset_def client_call_def get_ds_def seq_def)
qed

text \<open>The part of the state that the pool handlers leave alone.\<close>

definition same_maps :: "truenas_state \<Rightarrow> truenas_state \<Rightarrow> bool" where
  "same_maps st st' \<longleftrightarrow> ds st' = ds st"

lemma same_maps_simps [simp]:
  "same_maps st st" "same_maps st (noted k f st') \<longleftrightarrow> same_maps st st'"
  "same_maps st (set_failing k st') \<longleftrightarrow> same_maps st st'"
  "same_maps st (clear_failing k st') \<longleftrightarrow> same_maps st st'"
  by (simp_all add: same_maps_def)

lemma keeps_same_maps [keeps_intros]:
  "keeps (same_maps st) (note_fallback_outcome k f)" "keeps (same_maps st) (get_ds ep)"
  "keeps (same_maps st) (client_call env m p)" "keeps (same_maps st) (modify (set_failing k))"
  "keeps (same_maps st) (modify (clear_failing k))"
  "keeps (same_maps st) (modify (\<lambda>st. st\<lparr>boot_pool_uid := u\<rparr>))"
  by (auto simp: keeps_def get_ds_def client_call_def same_maps_def)

lemma keeps_case_option [keeps_intros]:
  "(x = None \<Longrightarrow> keeps P m) \<Longrightarrow> (\<And>y. x = Some y \<Longrightarrow> keeps P (f y)) \<Longrightarrow>
    keeps P (case x of None \<Rightarrow> m | Some y \<Rightarrow> f y)"
  by (cases x) auto

lemma keeps_case_prod [keeps_intros]:
  "(\<And>a b. keeps P (f a b)) \<Longrightarrow> keeps P (case x of (a, b) \<Rightarrow> f a b)"
  by (cases x) auto

lemma build_pools_maps: "keeps (same_maps st) (build_pools env datasets raw)"
  unfolding build_pools_def add_boot_pool_def carry_over_boot_pool_def Let_def
  by (intro keeps_intros)

text \<open>What a \<open>get_pool\<close> that raises leaves behind, and what one that returns has read.\<close>

lemma get_pool_Inl:
  assumes "get_pool env st = (Inl e, st')"
  shows "ds st' = ds st"
proof -
  obtain r1 st1 where c: "compute_dataset env st = (r1, st1)" by fastforce
  then have same: "same_maps st st1" using compute_dataset_cases [OF c] by auto
  consider (datasets) "r1 = Inl e" "st' = st1" | (pools) d where "r1 = Inr d"
    using c assms by (cases r1) (auto simp: get_pool_def seq_def)
  then show ?thesis
  proof cases
    case datasets
    with same show ?thesis by (simp add: same_maps_def)
  next
    case (pools d)
    show ?thesis
    proof (cases "rpc env ''pool.query'' PNone")
      case Inl
      with assms c pools same show ?thesis by (auto simp: get_pool_def seq_def client_call_def same_maps_def)
    next
      case (Inr raw)
      have ok: "\<not> malformed_pools raw"
        using assms c pools Inr by (auto simp: get_pool_def seq_def client_call_def get_ds_def)
      let ?st = "clear_failing KEY_DATASET_NOT_PUBLISHED (noted KEY_POOL_QUERY False st1)"
      obtain r2 st2 where b: "build_pools env d raw ?st = (r2, st2)" by fastforce
      have "same_maps st st2" using keepsD [OF build_pools_maps, of st ?st env d raw] same b by simp
      with assms c pools Inr ok b show ?thesis
        by (cases r2) (auto simp: get_pool_def seq_def client_call_def put_ds_def same_maps_def)
    qed
  qed
qed

lemma get_pool_reads:
  assumes "get_pool env st = (Inr pools, st')"
  obtains raw_ds raw_pools d st1 where "rpc env ''pool.dataset.query'' PNone = Inr raw_ds"
    "rpc env ''pool.query'' PNone = Inr raw_pools" "compute_dataset env st = (Inr d, st1)"
    "parse_api (keyed_args ''id'' DATASET_VALS []) (ds st EpDataset) raw_ds = Inr d" "same_maps st st1"
proof -
  obtain r1 st1 where c: "compute_dataset env st = (r1, st1)" by fastforce
  with assms obtain d where d: "r1 = Inr d" by (cases r1) (auto simp: get_pool_def seq_def)
  moreover from assms c d obtain raw_pools where "rpc env ''pool.query'' PNone = Inr raw_pools"
    by (cases "rpc env ''pool.query'' PNone") (auto simp: get_pool_def seq_def client_call_def)
  ultimately show ?thesis using that c compute_dataset_cases [OF c] by auto
qed

lemma malformed_pools_iff:
  "malformed_pools raw \<longleftrightarrow>
     \<not> (\<exists>xs. raw = PList xs \<and> (xs = [] \<or> (\<exists>x \<in> set xs. uid_of ''guid'' x \<noteq> None)))"
  by (auto simp: malformed_pools_def is_valid_pool_entry_def uid_of_def list_ex_iff split: pyval.splits)

text \<open>
  C9: datasets and pools are published together or not at all.  A \<open>get_pool\<close> that raises leaves
  every endpoint's data unchanged.  One whose \<open>pool.query\<close> answer is no list, or a non-empty list
  without an entry that has a usable guid, returns the cached pools, leaves every endpoint's data
  unchanged too and reports both \<open>pool\<close> and \<open>dataset\<close> stale.  Any other that returns replaces exactly
  these two: the datasets by those of the answer, the pools by the ones it returns.
\<close>

theorem get_pool_atomic:
  assumes "get_pool env st = (r, st')"
  shows "case r of
      Inl e \<Rightarrow> ds st' = ds st
    | Inr pools \<Rightarrow>
        (\<exists>raw_ds raw_pools datasets.
           rpc env ''pool.dataset.query'' PNone = Inr raw_ds \<and> rpc env ''pool.query'' PNone = Inr raw_pools
           \<and> parse_api (keyed_args ''id'' DATASET_VALS []) (ds st EpDataset) raw_ds = Inr datasets
           \<and> (if \<exists>xs. raw_pools = PList xs \<and> (xs = [] \<or> (\<exists>x \<in> set xs. uid_of ''guid'' x \<noteq> None))
              then ds st' = (ds st)(EpDataset := datasets, EpPool := pools)
              else pools = ds st EpPool \<and> ds st' = ds st
                \<and> EpPool \<in> set (stale_endpoints st') \<and> EpDataset \<in> set (stale_endpoints st')))"
proof (cases r)
  case (Inl e)
  with assms get_pool_Inl show ?thesis by simp
next
  case (Inr pools)
  with assms have run: "get_pool env st = (Inr pools, st')" by simp
  then obtain raw_ds raw_pools d st1 where reads: "rpc env ''pool.dataset.query'' PNone = Inr raw_ds"
      "rpc env ''pool.query'' PNone = Inr raw_pools" "compute_dataset env st = (Inr d, st1)"
      "parse_api (keyed_args ''id'' DATASET_VALS []) (ds st EpDataset) raw_ds = Inr d" "same_maps st st1"
    by (rule get_pool_reads)
  have "if \<not> malformed_pools raw_pools then ds st' = (ds st)(EpDataset := d, EpPool := pools)
      else pools = ds st EpPool \<and> ds st' = ds st
        \<and> EpPool \<in> set (stale_endpoints st') \<and> EpDataset \<in> set (stale_endpoints st')"
  proof (cases "malformed_pools raw_pools")
    case True
    let ?st = "set_failing KEY_DATASET_NOT_PUBLISHED (noted KEY_POOL_QUERY True st1)"
    have "pools = ds st EpPool" "st' = ?st"
      using run reads True by (auto simp: get_pool_def seq_def client_call_def get_ds_def same_maps_def)
    moreover have "EpPool \<in> set (stale_endpoints ?st)" "EpDataset \<in> set (stale_endpoints ?st)"
      using failing_stale [of ?st KEY_POOL_QUERY] failing_stale [of ?st KEY_DATASET_NOT_PUBLISHED] by simp_all
    ultimately show ?thesis using True reads(5) by (simp add: same_maps_def)
  next
    case False
    let ?st = "clear_failing KEY_DATASET_NOT_PUBLISHED (noted KEY_POOL_QUERY False st1)"
    obtain r2 st2 where b: "build_pools env d raw_pools ?st = (r2, st2)" by fastforce
    have "same_maps st st2"
      using keepsD [OF build_pools_maps, of st ?st env d raw_pools] reads(5) b by simp
    with run reads False b show ?thesis
      by (cases r2) (auto simp: get_pool_def seq_def client_call_def put_ds_def same_maps_def)
  qed
  with reads show ?thesis unfolding malformed_pools_iff Inr by auto
qed

text \<open>The runs of the pool merge that produce a value.\<close>

lemma add_boot_pool_carry:
  assumes "rpc env ''boot.get_state'' PNone = Inr raw"
    and "get_uid (with_boot_ids raw) (Some ''guid'') None None None = None"
    and "boot_pool_uid st = Some u" "dget (ds st EpPool) u = Some v"
  shows "add_boot_pool env pools st = (Inr (dset pools u v), noted KEY_BOOT_POOL True st)"
  using assms
  by (simp add: add_boot_pool_def carry_over_boot_pool_def client_call_def get_ds_def seq_def Let_def)

lemma build_pools_carry:
  assumes "rpc env ''boot.get_state'' PNone = Inr raw"
    and "get_uid (with_boot_ids raw) (Some ''guid'') None None None = None"
    and "boot_pool_uid st = Some u" "dget (ds st EpPool) u = Some v"
    and "build_pools env datasets raw_pools st = (Inr pools, st')"
  shows "dget pools u \<noteq> None \<and> is_failing st' KEY_BOOT_POOL"
proof -
  obtain parsed where "parse_api (keyed_args ''guid'' POOL_VALS POOL_ENSURE_VALS) (ds st EpPool) raw_pools
      = Inr parsed"
    using parse_api_total [of "keyed_args ''guid'' POOL_VALS POOL_ENSURE_VALS" "''guid''"] by auto
  with assms(5) obtain stale where
      loop: "capacity_loop datasets (is_failing (noted KEY_BOOT_POOL True st) KEY_DATASET_QUERY)
        (dset (apply_pool_errors parsed raw_pools) u v) = Inr (stale, pools)"
      and st': "st' = noted KEY_POOL_CAPACITY_DATASET (stale \<noteq> []) (noted KEY_BOOT_POOL True st)"
    by (auto simp: build_pools_def get_ds_def seq_def add_boot_pool_carry [OF assms(1-4)] pure_def
        split: sum.splits prod.splits)
  have "map fst pools = map fst (dset (apply_pool_errors parsed raw_pools) u v)"
    using loop by (rule capacity_loop_keys)
  then have "dget pools u \<noteq> None" by (subst dget_keys) auto
  with st' show ?thesis by (simp add: key_defs)
qed

text \<open>
  C14: a boot pool does not vanish on a bad answer: when \<open>boot.get_state\<close> gives nothing usable
  and a boot pool was published before, a \<open>get_pool\<close> that returns still has it, and reports
  \<open>pool\<close> stale.
\<close>

theorem boot_pool_carried_over:
  assumes "rpc env ''boot.get_state'' PNone = Inr raw"
    and "get_uid (with_boot_ids raw) (Some ''guid'') None None None = None"
    and "boot_pool_uid st = Some u" "dget (ds st EpPool) u = Some v"
    and "get_pool env st = (Inr pools, st')"
  shows "dget pools u \<noteq> None \<and> EpPool \<in> set (stale_endpoints st')"
proof -
  obtain r1 st1 where c: "compute_dataset env st = (r1, st1)" by fastforce
  with assms(5) obtain d where d: "r1 = Inr d" by (cases r1) (auto simp: get_pool_def seq_def)
  from c d have st1: "ds st1 = ds st" "boot_pool_uid st1 = boot_pool_uid st"
    using compute_dataset_cases [OF c] by auto
  from assms(5) obtain raw_pools where p: "rpc env ''pool.query'' PNone = Inr raw_pools"
    by (cases "rpc env ''pool.query'' PNone") (auto simp: get_pool_def seq_def client_call_def c d)
  show ?thesis
  proof (cases "malformed_pools raw_pools")
    case True
    then have "st' = set_failing KEY_DATASET_NOT_PUBLISHED (noted KEY_POOL_QUERY True st1)"
        "pools = ds st EpPool"
      using assms(5) p c d st1 by (auto simp: get_pool_def seq_def client_call_def get_ds_def)
    then show ?thesis using assms(4) failing_stale [of st' KEY_POOL_QUERY] by simp
  next
    case False
    let ?st = "clear_failing KEY_DATASET_NOT_PUBLISHED (noted KEY_POOL_QUERY False st1)"
    from assms(5) False p c d obtain st2 where b: "build_pools env d raw_pools ?st = (Inr pools, st2)"
        and st': "st' = set_ds EpPool pools (set_ds EpDataset d st2)"
      by (auto simp: get_pool_def seq_def client_call_def put_ds_def split: prod.splits sum.splits)
    have "boot_pool_uid ?st = Some u" "dget (ds ?st EpPool) u = Some v"
      using st1 assms(3,4) by (simp_all add: clear_failing_def)
    from build_pools_carry [OF assms(1,2) this b] st' show ?thesis
      using failing_stale [of st' KEY_BOOT_POOL] by simp
  qed
qed

section \<open>Instances\<close>

text \<open>A boot-pool outage: no pools, no datasets, and nothing from \<open>boot.get_state\<close>.\<close>

definition boot_outage_rpc :: "string \<Rightarrow> pyval \<Rightarrow> py_exn + pyval" where
  "boot_outage_rpc method params =
     (if method = ''pool.query'' \<or> method = ''pool.dataset.query'' then Inr (PList []) else Inr PNone)"

definition boot_outage :: refresh_env where
  "boot_outage = \<lparr>rpc = boot_outage_rpc, enable_private_methods = Inr (), utc_now = 0\<rparr>"

definition boot_state :: truenas_state where
  "boot_state = init_state\<lparr>ds := initial_ds(EpPool := [(PStr ''boot-pool'', PDict [(PStr ''free'', PInt 3)])]),
     boot_pool_uid := Some (PStr ''boot-pool'')\<rparr>"

definition boot_published :: pydict where
  "boot_published = projr (fst (get_pool boot_outage boot_state))"

lemma boot_run: "get_pool boot_outage boot_state = (Inr boot_published, snd (get_pool boot_outage boot_state))"
proof -
  have "\<not> isl (fst (get_pool boot_outage boot_state))" by code_simp
  then have "fst (get_pool boot_outage boot_state) = Inr boot_published"
    by (simp add: boot_published_def)
  then show ?thesis by (metis prod.collapse)
qed

text \<open>A \<open>pool.query\<close> answer without a usable entry.\<close>

definition pool_outage :: refresh_env where
  "pool_outage = \<lparr>rpc = (\<lambda>method params. if method = ''pool.query'' then Inr (PList [PNone]) else Inr (PList [])),
     enable_private_methods = Inr (), utc_now = 0\<rparr>"

theorem get_pool_atomic_witness:
  "fst (get_pool pool_outage boot_state) = Inr (ds boot_state EpPool)
    \<and> EpDataset \<in> set (stale_endpoints (snd (get_pool pool_outage boot_state)))"
proof -
  have run: "get_pool pool_outage boot_state
      = (fst (get_pool pool_outage boot_state), snd (get_pool pool_outage boot_state))" by simp
  have "isl (fst (get_pool pool_outage boot_state)) = False" by code_simp
  moreover have "uid_of ''guid'' PNone = None" by code_simp
  ultimately show ?thesis
    using get_pool_atomic [OF run] by (auto simp: pool_outage_def split: sum.splits)
qed

theorem boot_pool_carried_over_witness:
  "EpPool \<in> set (stale_endpoints (snd (get_pool boot_outage boot_state)))"
proof -
  have "rpc boot_outage ''boot.get_state'' PNone = Inr PNone"
    by (simp add: boot_outage_def boot_outage_rpc_def)
  moreover have "get_uid (with_boot_ids PNone) (Some ''guid'') None None None = None"
    by (simp add: with_boot_ids_def get_uid_def)
  moreover have "boot_pool_uid boot_state = Some (PStr ''boot-pool'')" by (simp add: boot_state_def)
  moreover have "dget (ds boot_state EpPool) (PStr ''boot-pool'') = Some (PDict [(PStr ''free'', PInt 3)])"
    by (simp add: boot_state_def)
  ultimately show ?thesis using boot_pool_carried_over [OF _ _ _ _ boot_run] by blast
qed

end
