(* ===== verification/Tasks.thy ===== *)
theory Tasks
  imports Refresh
begin

text \<open>
  The endpoints of \<open>domain/state.py\<close> that are one query keyed by an id, followed by a pass over
  the records: tasks, services, virtual machines, containers, apps, certificates, interfaces.
\<close>

text \<open>The query and the \<open>parse_api\<close> call the handlers share.\<close>

definition refresh_query ::
  "refresh_env \<Rightarrow> endpoint \<Rightarrow> string \<Rightarrow> parse_args \<Rightarrow> unit refresh" where
  "refresh_query env ep method a = seq (client_call env method PNone) (parse_into ep a)"

definition tracked_query ::
  "refresh_env \<Rightarrow> endpoint \<Rightarrow> string \<Rightarrow> string \<Rightarrow> parse_args \<Rightarrow> unit refresh" where
  "tracked_query env ep method fallback_key a =
     seq (client_call env method PNone) (\<lambda>raw.
     seq (note_primary_query_outcome fallback_key raw ''id'') (\<lambda>_. parse_into ep a raw))"

definition for_records :: "endpoint \<Rightarrow> (pyval \<Rightarrow> (pydict, unit) action) \<Rightarrow> pydict refresh" where
  "for_records ep body = seq (in_ds ep (for_items body)) (\<lambda>_. get_ds ep)"

section \<open>Tasks\<close>

definition get_cloudsync :: "refresh_env \<Rightarrow> pydict refresh" where
  "get_cloudsync env =
     seq (refresh_query env EpCloudsync ''cloudsync.query'' (keyed_args ''id'' CLOUDSYNC_VALS []))
       (\<lambda>_. get_ds EpCloudsync)"

definition replication_state :: "(pydict, unit) action" where
  "replication_state =
     seq (item_or ''state'' PNone) (\<lambda>state.
     seq (if \<not> is_str state \<or> state = PStr ''unknown''
          then seq (item_or ''job_state'' (PStr ''unknown'')) (put_item ''state'') else ret ()) (\<lambda>_.
     seq (pop_item ''job_state'' PNone) (\<lambda>_. ret ())))"

definition get_replication :: "refresh_env \<Rightarrow> pydict refresh" where
  "get_replication env =
     seq (refresh_query env EpReplication ''replication.query'' (keyed_args ''id'' REPLICATION_VALS []))
       (\<lambda>_. for_records EpReplication (\<lambda>_. replication_state))"

definition get_rsync :: "refresh_env \<Rightarrow> pydict refresh" where
  "get_rsync env =
     seq (refresh_query env EpRsynctask ''rsynctask.query'' (keyed_args ''id'' RSYNC_VALS []))
       (\<lambda>_. get_ds EpRsynctask)"

definition get_snapshottask :: "refresh_env \<Rightarrow> pydict refresh" where
  "get_snapshottask env =
     seq (refresh_query env EpSnapshottask ''pool.snapshottask.query''
           (keyed_args ''id'' SNAPSHOTTASK_VALS []))
       (\<lambda>_. get_ds EpSnapshottask)"

fun stripped :: "pyval \<Rightarrow> string" where
  "stripped (PStr s) = strip s"
| "stripped _ = []"

definition cronjob_name :: "pyval \<Rightarrow> (pydict, unit) action" where
  "cronjob_name uid =
     seq (item_or ''description'' PNone) (\<lambda>description.
     seq (item_or ''command'' PNone) (\<lambda>command.
       put_item ''display_name'' (PStr
         (if stripped description \<noteq> [] then stripped description
          else if stripped command \<noteq> [] then stripped command
          else ''Cronjob '' @ py_str uid))))"

definition get_cronjob :: "refresh_env \<Rightarrow> pydict refresh" where
  "get_cronjob env =
     seq (refresh_query env EpCronjob ''cronjob.query''
           (keyed_args ''id'' CRONJOB_VALS CRONJOB_ENSURE_VALS))
       (\<lambda>_. for_records EpCronjob cronjob_name)"

definition get_scrub :: "refresh_env \<Rightarrow> pydict refresh" where
  "get_scrub env =
     seq (tracked_query env EpScrub ''pool.scrub.query'' KEY_SCRUB_QUERY (keyed_args ''id'' SCRUB_VALS []))
       (\<lambda>_. get_ds EpScrub)"

section \<open>Services and virtual machines\<close>

definition SERVICE_DISPLAY_NAMES :: "(string \<times> string) list" where
  "SERVICE_DISPLAY_NAMES =
    [(''afp'', ''AFP''), (''cifs'', ''SMB''), (''dynamicdns'', ''Dynamic DNS''), (''ftp'', ''FTP''),
     (''iscsitarget'', ''iSCSI''), (''lldp'', ''LLDP''), (''nfs'', ''NFS''),
     (''openvpn_client'', ''OpenVPN Client''), (''openvpn_server'', ''OpenVPN Server''),
     (''rsync'', ''Rsync''), (''s3'', ''S3''), (''snmp'', ''SNMP''), (''ssh'', ''SSH''),
     (''tftp'', ''TFTP''), (''ups'', ''UPS''), (''webdav'', ''WebDAV'')]"

text \<open>\<open>_SERVICE_DISPLAY_NAMES.get(service, default)\<close>: an unhashable key raises.\<close>

definition service_display_name :: "pyval \<Rightarrow> pyval \<Rightarrow> builtin_error + pyval" where
  "service_display_name service dflt =
     (if \<not> hashable service then Inl TypeError
      else Inr (case service of
          PStr s \<Rightarrow> (case map_of SERVICE_DISPLAY_NAMES s of Some n \<Rightarrow> PStr n | None \<Rightarrow> dflt)
        | _ \<Rightarrow> dflt))"

definition service_state :: "(pydict, unit) action" where
  "service_state =
     seq (item ''state'') (\<lambda>state.
     seq (put_item ''running'' (PBool (state = PStr ''RUNNING''))) (\<lambda>_.
     seq (item_or ''name'' PNone) (\<lambda>name.
     if \<not> truthy name \<or> name = PStr ''unknown'' then
       seq (item_or ''service'' PNone) (\<lambda>service.
       seq (item_or ''service'' (PStr ''unknown'')) (\<lambda>dflt.
       seq (pure (service_display_name service dflt)) (put_item ''display_name'')))
     else put_item ''display_name'' name)))"

definition get_service :: "refresh_env \<Rightarrow> pydict refresh" where
  "get_service env =
     seq (tracked_query env EpService ''service.query'' KEY_SERVICE_QUERY
           (keyed_args ''id'' SERVICE_VALS SERVICE_ENSURE_VALS))
       (\<lambda>_. for_records EpService (\<lambda>_. service_state))"

text \<open>\<open>round(v / n)\<close>.\<close>

definition round_quotient :: "pyval \<Rightarrow> int \<Rightarrow> builtin_error + pyval" where
  "round_quotient v n =
     (case as_num_bool v of
        None \<Rightarrow> Inl TypeError
      | Some x \<Rightarrow> res_bind (num_div x (NInt n)) (\<lambda>q. res_map PInt (num_round q)))"

definition vm_state :: "(pydict, unit) action" where
  "vm_state =
     seq (item_or ''memory'' PNone) (\<lambda>memory.
     seq (pure (round_quotient (if memory = PNone then PInt 0 else memory) 1024)) (\<lambda>mem.
     seq (put_item ''memory'' mem) (\<lambda>_.
     seq (item ''status'') (\<lambda>status.
       put_item ''running'' (PBool (status = PStr ''RUNNING''))))))"

definition get_vm :: "refresh_env \<Rightarrow> pydict refresh" where
  "get_vm env =
     seq (tracked_query env EpVm ''vm.query'' KEY_VM_QUERY (keyed_args ''id'' VM_VALS VM_ENSURE_VALS))
       (\<lambda>_. for_records EpVm (\<lambda>_. vm_state))"

section \<open>Containers\<close>

definition detect_version :: "refresh_env \<Rightarrow> (int \<times> int) refresh" where
  "detect_version env =
     seq (asks version) (\<lambda>cached. case cached of
       Some v \<Rightarrow> ret v
     | None \<Rightarrow>
         seq (client_call env ''system.info'' PNone) (\<lambda>raw. case raw of
           PDict d \<Rightarrow>
             (let v = parse_version_tuple (get_or d ''version'' PNone) in
              if v \<noteq> (0, 0) then
                seq (modify (\<lambda>st. st\<lparr>version := Some v\<rparr>)) (\<lambda>_.
                seq (note_fallback_outcome KEY_DETECT_VERSION False) (\<lambda>_. ret v))
              else seq (note_fallback_outcome KEY_DETECT_VERSION True) (\<lambda>_. ret v))
         | _ \<Rightarrow> seq (note_fallback_outcome KEY_DETECT_VERSION True) (\<lambda>_. ret (0, 0))))"

fun as_entries :: "pyval \<Rightarrow> pyval list" where
  "as_entries (PList xs) = xs"
| "as_entries _ = []"

definition container_legacy_state :: "(pydict, unit) action" where
  "container_legacy_state =
     seq (item_or ''cpu'' PNone) (\<lambda>cpu.
     seq (put_item ''cpu'' (PInt (to_int cpu 0))) (\<lambda>_.
     seq (item_or ''memory'' PNone) (\<lambda>memory.
     seq (pure (round_quotient (if as_num_bool memory = None then PInt 0 else memory) 1048576)) (\<lambda>mem.
     seq (put_item ''memory'' mem) (\<lambda>_.
     seq (item_or ''status'' PNone) (\<lambda>status.
     seq (put_item ''running'' (PBool (status = PStr ''RUNNING''))) (\<lambda>_.
     seq (item_or ''aliases'' PNone) (\<lambda>aliases.
       put_item ''ip_address'' (PStr (first_ipv4 aliases))))))))))"

definition compute_container_legacy :: "refresh_env \<Rightarrow> pydict refresh" where
  "compute_container_legacy env =
     seq (client_call env ''virt.instance.query'' PNone) (\<lambda>raw_instances.
     let containers = filter (\<lambda>i. is_dict i \<and> field i ''type'' = PStr ''CONTAINER'') (as_entries raw_instances) in
     seq (parse_into EpContainer (keyed_args ''id'' CONTAINER_VALS CONTAINER_ENSURE_VALS) (PList containers))
       (\<lambda>_. for_records EpContainer (\<lambda>_. container_legacy_state)))"

definition container_v26_state :: "(pydict, unit) action" where
  "container_v26_state =
     seq (put_item ''type'' (PStr ''CONTAINER'')) (\<lambda>_.
     seq (pop_item ''cpuset'' PNone) (\<lambda>cpuset.
     seq (put_item ''cpu'' (PInt (cpuset_size cpuset))) (\<lambda>_.
     seq (put_item ''memory'' (PInt 0)) (\<lambda>_.
     seq (put_item ''aliases'' (PList [])) (\<lambda>_.
     seq (put_item ''ip_address'' (PStr ''unknown'')) (\<lambda>_.
     seq (item_or ''image'' PNone) (\<lambda>image.
     seq (if \<not> truthy image then put_item ''image'' (PStr ''unknown'') else ret ()) (\<lambda>_.
     seq (item_or ''status'' PNone) (\<lambda>status.
       put_item ''running'' (PBool (status = PStr ''RUNNING'')))))))))))"

definition compute_container_v26 :: "refresh_env \<Rightarrow> pydict refresh" where
  "compute_container_v26 env =
     seq (client_call env ''container.query'' PNone) (\<lambda>raw_containers.
     seq (parse_into EpContainer (keyed_args ''id'' CONTAINER_V26_VALS CONTAINER_V26_ENSURE_VALS)
           (PList (as_entries raw_containers)))
       (\<lambda>_. for_records EpContainer (\<lambda>_. container_v26_state)))"

text \<open>\<open>version >= (26, 0)\<close> on pairs.\<close>

definition version_ge_26 :: "int \<times> int \<Rightarrow> bool" where
  "version_ge_26 v = (case v of (major, minor) \<Rightarrow> 26 < major \<or> (major = 26 \<and> 0 \<le> minor))"

definition get_container :: "refresh_env \<Rightarrow> pydict refresh" where
  "get_container env =
     seq (detect_version env) (\<lambda>v.
       if version_ge_26 v then compute_container_v26 env else compute_container_legacy env)"

section \<open>Apps, certificates and interfaces\<close>

definition app_state :: "(pydict, unit) action" where
  "app_state =
     seq (item ''state'') (\<lambda>state.
     seq (put_item ''running'' (PBool (state = PStr ''RUNNING''))) (\<lambda>_.
     seq (item_or ''update_available'' PNone) (\<lambda>chart.
     seq (item_or ''custom_app'' PNone) (\<lambda>custom.
     seq (item_or ''image_updates_available'' PNone) (\<lambda>image.
       put_item ''update_available'' (PBool (truthy chart \<or> (truthy custom \<and> truthy image))))))))"

definition get_app :: "refresh_env \<Rightarrow> pydict refresh" where
  "get_app env =
     seq (refresh_query env EpApp ''app.query'' (keyed_args ''id'' APP_VALS APP_ENSURE_VALS))
       (\<lambda>_. for_records EpApp (\<lambda>_. app_state))"

definition certificate_expiry :: "refresh_env \<Rightarrow> (pydict, unit) action" where
  "certificate_expiry env =
     seq (item_or ''until'' PNone) (\<lambda>u.
       put_item ''days_until_expiry'' (case u of
           PDate us \<Rightarrow> PInt (max 0 ((us - utc_now env) div 86400000000)) | _ \<Rightarrow> PNone))"

definition get_certificates :: "refresh_env \<Rightarrow> pydict refresh" where
  "get_certificates env =
     seq (refresh_query env EpCertificate ''certificate.query'' (keyed_args ''name'' CERTIFICATE_VALS []))
       (\<lambda>_. for_records EpCertificate (\<lambda>_. certificate_expiry env))"

definition interface_state :: "(pydict, unit) action" where
  "interface_state =
     seq (item_or ''link_state'' PNone) (\<lambda>link.
       put_item ''link_up'' (PBool (link = PStr ''LINK_STATE_UP'')))"

definition get_interface :: "refresh_env \<Rightarrow> pydict refresh" where
  "get_interface env =
     seq (tracked_query env EpInterface ''interface.query'' KEY_INTERFACE_QUERY
           (keyed_args ''id'' INTERFACE_VALS INTERFACE_ENSURE_VALS))
       (\<lambda>_. for_records EpInterface (\<lambda>_. interface_state))"

end
