(* ===== verification/Services.thy ===== *)
theory Services
  imports Refresh
begin

text \<open>
  The endpoints of \<open>domain/state.py\<close> that are one flat dictionary or one merged row: directory
  services, alerts, the SMB connection count with its refusal latch, and the pending update.
\<close>

section \<open>Directory services\<close>

definition directory_row :: "pydict \<Rightarrow> pyval \<Rightarrow> pyval \<Rightarrow> pyval" where
  "directory_row config status_val status_msg =
     PDict (sset (sset (sset config ''id'' (PInt 1)) ''status'' status_val) ''status_msg'' status_msg)"

definition directory_health :: "(pydict, unit) action" where
  "directory_health =
     seq (item_or ''status'' PNone) (\<lambda>status. put_item ''healthy'' (PBool (status = PStr ''HEALTHY'')))"

definition directory_status :: "pyval \<Rightarrow> (pyval \<times> pyval) refresh" where
  "directory_status raw_status =
     (case field raw_status ''status'' of
        PStr (c # s) \<Rightarrow>
          seq (note_fallback_outcome KEY_DIRECTORYSERVICES_STATUS False)
            (\<lambda>_. ret (PStr (c # s), field raw_status ''status_msg''))
      | _ \<Rightarrow>
          seq (get_ds EpDirectoryservices) (\<lambda>d.
          let previous = (case dget d (PInt 1) of Some v \<Rightarrow> v | None \<Rightarrow> PDict []);
              status = (case previous of PDict r \<Rightarrow> get_or r ''status'' (PStr ''unknown'') | _ \<Rightarrow> PNone)
          in seq (note_fallback_outcome KEY_DIRECTORYSERVICES_STATUS True)
               (\<lambda>_. ret (status, field previous ''status_msg''))))"

definition get_directoryservices :: "refresh_env \<Rightarrow> pydict refresh" where
  "get_directoryservices env =
     seq (client_call env ''directoryservices.config'' PNone) (\<lambda>config. case config of
       PDict c \<Rightarrow>
         seq (note_fallback_outcome KEY_DIRECTORYSERVICES_CONFIG False) (\<lambda>_.
         if \<not> truthy (get_or c ''service_type'' PNone) \<or> \<not> truthy (get_or c ''enable'' PNone) then
           seq (put_ds EpDirectoryservices []) (\<lambda>_.
           seq (modify (clear_failing KEY_DIRECTORYSERVICES_STATUS)) (\<lambda>_. get_ds EpDirectoryservices))
         else
           seq (client_call env ''directoryservices.status'' PNone) (\<lambda>raw_status.
           seq (directory_status raw_status) (\<lambda>(status_val, status_msg).
           seq (pure (parse_api (keyed_args ''id'' DIRECTORYSERVICES_VALS DIRECTORYSERVICES_ENSURE_VALS)
                  [] (PList [directory_row c status_val status_msg]))) (\<lambda>d.
           seq (put_ds EpDirectoryservices d) (\<lambda>_.
           seq (in_ds EpDirectoryservices (for_items (\<lambda>_. directory_health)))
             (\<lambda>_. get_ds EpDirectoryservices))))))
     | _ \<Rightarrow>
         seq (note_fallback_outcome KEY_DIRECTORYSERVICES_CONFIG True)
           (\<lambda>_. get_ds EpDirectoryservices))"

section \<open>Alerts\<close>

definition usable_alerts :: "pyval list \<Rightarrow> pydict list" where
  "usable_alerts raw =
     List.map_filter (\<lambda>a. case a of
       PDict d \<Rightarrow> if truthy (get_or d ''uuid'' PNone) then Some d else None | _ \<Rightarrow> None) raw"

definition active_alerts :: "pydict list \<Rightarrow> pydict list" where
  "active_alerts usable = filter (\<lambda>a. \<not> truthy (get_or a ''dismissed'' (PBool False))) usable"

definition get_alerts :: "refresh_env \<Rightarrow> pydict refresh" where
  "get_alerts env =
     seq (client_call env ''alert.list'' PNone) (\<lambda>raw. case raw of
       PList xs \<Rightarrow>
         (let usable = usable_alerts xs in
          if xs \<noteq> [] \<and> usable = [] then
            seq (note_fallback_outcome KEY_ALERT_LIST True) (\<lambda>_. get_ds EpAlerts)
          else
            seq (note_fallback_outcome KEY_ALERT_LIST False) (\<lambda>_.
            seq (put_ds EpAlerts (aggregate_alerts (active_alerts usable))) (\<lambda>_. get_ds EpAlerts)))
     | _ \<Rightarrow> seq (note_fallback_outcome KEY_ALERT_LIST True) (\<lambda>_. get_ds EpAlerts))"

section \<open>SMB connections\<close>

definition is_eacces :: "truenas_error \<Rightarrow> bool" where
  "is_eacces err = (case err of TrueNASCallError c \<Rightarrow> ce_errname c = PStr ''EACCES'' | _ \<Rightarrow> False)"

definition latch_smb_denied :: "truenas_error \<Rightarrow> bool refresh" where
  "latch_smb_denied err =
     (if \<not> is_eacces err then ret False
      else seq (modify (\<lambda>st. log_append (LogInfo KEY_SMB_STATUS)
                 (set_failing KEY_SMB_STATUS (st\<lparr>smb_denied := True\<rparr>)))) (\<lambda>_. ret True))"

definition smb_connections :: "pyval \<Rightarrow> int option" where
  "smb_connections raw =
     (case raw of
        PList xs \<Rightarrow> Some (int (length xs))
      | PDict d \<Rightarrow> (case get_or d ''sessions'' PNone of PList xs \<Rightarrow> Some (int (length xs)) | _ \<Rightarrow> None)
      | _ \<Rightarrow> None)"

definition store_smb :: "pyval \<Rightarrow> pydict refresh" where
  "store_smb raw =
     (case smb_connections raw of
        Some n \<Rightarrow> seq (put_ds EpSmb [(PStr ''connections'', PInt n)]) (\<lambda>_.
          seq (note_fallback_outcome KEY_SMB_STATUS False) (\<lambda>_. get_ds EpSmb))
      | None \<Rightarrow> seq (note_fallback_outcome KEY_SMB_STATUS True) (\<lambda>_. get_ds EpSmb))"

definition smb_query :: "refresh_env \<Rightarrow> (truenas_error + pyval) refresh" where
  "smb_query env =
     catching
       (seq (answer (enable_private_methods env)) (\<lambda>_.
        seq (client_call env ''smb.status'' PNone) (\<lambda>raw. ret (Inr raw))))
       (\<lambda>err. ret (Inl err))"

definition get_smb :: "refresh_env \<Rightarrow> pydict refresh" where
  "get_smb env =
     seq (asks smb_denied) (\<lambda>denied.
     if denied then get_ds EpSmb
     else seq (smb_query env) (\<lambda>res. case res of
         Inl err \<Rightarrow>
           seq (latch_smb_denied err) (\<lambda>latched.
           if latched then get_ds EpSmb
           else seq (note_fallback_outcome KEY_SMB_STATUS True) (\<lambda>_. get_ds EpSmb))
       | Inr raw \<Rightarrow> store_smb raw))"

section \<open>Pending update\<close>

definition update_status :: "pyval \<Rightarrow> pydict" where
  "update_status raw =
     (let status = field raw ''status''; new_version = field status ''new_version'' in
      case new_version of
        PDict nv \<Rightarrow>
          if \<not> truthy (get_or nv ''version'' PNone) then no_update_pending
          else
            (let manifest = get_or nv ''manifest'' PNone;
                 state = py_or (field status ''state'') (field status ''status'')
             in [(PStr ''update_available'', PBool True),
                 (PStr ''update_state'', if is_str state then state else PStr ''unknown''),
                 (PStr ''update_version'', get_or nv ''version'' PNone),
                 (PStr ''update_date'', field manifest ''date''),
                 (PStr ''update_profile'', field manifest ''profile''),
                 (PStr ''update_train'', field manifest ''train''),
                 (PStr ''update_filename'', field manifest ''filename'')])
      | _ \<Rightarrow> no_update_pending)"

definition get_update :: "refresh_env \<Rightarrow> pydict refresh" where
  "get_update env =
     seq (client_call env ''update.status'' PNone) (\<lambda>raw.
     seq (put_ds EpUpdate (update_status raw)) (\<lambda>_. get_ds EpUpdate))"

end
