(* ===== verification/Netdata.thy ===== *)
theory Netdata
  imports Refresh
begin

text \<open>
  The endpoints of \<open>domain/state.py\<close> fed by netdata graphs: ARC ratios, UPS readings, disk
  temperatures, system information and statistics, interface throughput.  Requests gathered
  concurrently are answered independently; their outcomes are applied in list order, as
  \<open>asyncio.gather\<close> returns them.  The set of discovered UPS graphs is iterated in table order
  (Python's order of that set is unspecified).
\<close>

definition graph_query :: "int \<Rightarrow> int \<Rightarrow> pyval" where
  "graph_query start_time end_time =
     PDict [(PStr ''start'', PInt start_time), (PStr ''end'', PInt end_time), (PStr ''aggregate'', PBool True)]"

definition graph_call :: "refresh_env \<Rightarrow> string \<Rightarrow> pyval \<Rightarrow> py_exn + pyval" where
  "graph_call env graph query = rpc env ''reporting.netdata_graph'' (PList [PStr graph, query])"

definition recent_query :: "refresh_env \<Rightarrow> pyval" where
  "recent_query env = graph_query (report_epoch env - 90) (report_epoch env - 30)"

definition opt_num :: "pynum option \<Rightarrow> pyval" where
  "opt_num v = (case v of Some n \<Rightarrow> of_num n | None \<Rightarrow> PNone)"

section \<open>ARC\<close>

definition ARC_GRAPHS :: "(string \<times> string) list" where
  "ARC_GRAPHS =
    [(''demanddatahitpercentage'', ''data_hit_percent''),
     (''demandmetadatahitpercentage'', ''metadata_hit_percent''),
     (''l2architpercentage'', ''l2_hit_percent'')]"

fun arc_readings :: "refresh_env \<Rightarrow> (string \<times> string) list \<Rightarrow> pydict \<Rightarrow> pydict refresh" where
  "arc_readings env [] arc = ret arc"
| "arc_readings env ((graph_name, field_name) # gs) arc =
     seq (answer (graph_call env graph_name (graph_query (report_epoch env - 300) (report_epoch env))))
       (\<lambda>graph_data. seq (pure (arc_value graph_data))
       (\<lambda>v. arc_readings env gs (sset arc field_name (opt_num v))))"

definition get_arc :: "refresh_env \<Rightarrow> pydict refresh" where
  "get_arc env =
     seq (arc_readings env ARC_GRAPHS []) (\<lambda>arc. seq (put_ds EpArc arc) (\<lambda>_. ret arc))"

section \<open>UPS\<close>

definition UPS_GRAPHS :: "(string \<times> string) list" where
  "UPS_GRAPHS =
    [(''upscharge'', ''battery_charge''), (''upsruntime'', ''runtime_seconds''), (''upsload'', ''load''),
     (''upsvoltage'', ''voltage''), (''upscurrent'', ''current''), (''upsfrequency'', ''frequency''),
     (''upstemperature'', ''temperature'')]"

definition all_cached_ups_graphs :: "pydict \<Rightarrow> string list" where
  "all_cached_ups_graphs ups = map fst (filter (\<lambda>(name, field). has_key ups (PStr field)) UPS_GRAPHS)"

definition ups_key :: "string \<Rightarrow> string" where
  "ups_key graph_name = UPS_GRAPH_KEY_PREFIX @ graph_name"

definition apply_ups_graph_result :: "string \<Rightarrow> py_exn + pyval \<Rightarrow> (pynum option) refresh" where
  "apply_ups_graph_result graph_name result =
     (let key = ups_key graph_name in
      case result of
        Inl (TrueNAS e) \<Rightarrow> seq (note_fallback_outcome key True) (\<lambda>_. ret None)
      | Inl e \<Rightarrow> raise e
      | Inr raw \<Rightarrow>
          seq (pure (ups_value raw)) (\<lambda>v. case v of
            Some x \<Rightarrow> seq (note_fallback_outcome key False) (\<lambda>_. ret (Some x))
          | None \<Rightarrow>
              (case raw of
                 PList xs \<Rightarrow>
                   if xs = [] \<or> has_netdata_series_entry (PList (take 1 xs))
                   then seq (modify (clear_failing key)) (\<lambda>_. ret None)
                   else seq (note_fallback_outcome key True) (\<lambda>_. ret None)
               | _ \<Rightarrow> seq (note_fallback_outcome key True) (\<lambda>_. ret None))))"

fun query_ups_graphs :: "refresh_env \<Rightarrow> string list \<Rightarrow> ((string \<times> pynum option) list) refresh" where
  "query_ups_graphs env [] = ret []"
| "query_ups_graphs env (g # gs) =
     seq (apply_ups_graph_result g (graph_call env g (recent_query env))) (\<lambda>v.
     seq (query_ups_graphs env gs) (\<lambda>vs. ret ((g, v) # vs)))"

definition available_ups_graphs :: "pyval list \<Rightarrow> string list" where
  "available_ups_graphs graphs =
     filter (\<lambda>name. list_ex (\<lambda>g. case g of
         PDict d \<Rightarrow> py_str (get_or d ''name'' (PStr [])) = name | _ \<Rightarrow> False) graphs)
       (map fst UPS_GRAPHS)"

text \<open>The failing flags of graphs no longer discovered are dropped.\<close>

definition drop_stale_ups_keys :: "string list \<Rightarrow> truenas_state \<Rightarrow> truenas_state" where
  "drop_stale_ups_keys available st =
     fold clear_failing
       (filter (\<lambda>key. starts_with UPS_GRAPH_KEY_PREFIX key \<and> key \<notin> ups_key ` set available)
         (map fst (fallback_failing st))) st"

definition ups_field :: "string \<Rightarrow> string" where
  "ups_field graph_name = (case map_of UPS_GRAPHS graph_name of Some f \<Rightarrow> f | None \<Rightarrow> [])"

definition seed_ups :: "pydict \<Rightarrow> string list \<Rightarrow> pydict" where
  "seed_ups previous available =
     fold (\<lambda>g ups. case sget previous (ups_field g) of Some v \<Rightarrow> sset ups (ups_field g) v | None \<Rightarrow> ups)
       available []"

definition apply_ups_value :: "string \<times> pynum option \<Rightarrow> pydict \<times> string list \<Rightarrow> pydict \<times> string list" where
  "apply_ups_value gv acc =
     (case (gv, acc) of ((g, v), (ups, stale)) \<Rightarrow>
        case v of
          None \<Rightarrow> if has_key ups (PStr (ups_field g)) then (ups, g # stale) else (ups, stale)
        | Some x \<Rightarrow> (sset ups (ups_field g) (of_num x), stale))"

definition ups_discovery_failed :: "pydict refresh" where
  "ups_discovery_failed =
     seq (note_fallback_outcome KEY_UPS_NETDATA_GRAPHS True) (\<lambda>_.
     seq (modify (\<lambda>st. st\<lparr>ups_stale_graphs := all_cached_ups_graphs (ds st EpUps)\<rparr>)) (\<lambda>_. get_ds EpUps))"

definition publish_ups :: "pydict \<Rightarrow> string list \<Rightarrow> truenas_state \<Rightarrow> truenas_state" where
  "publish_ups ups stale st = (set_ds EpUps ups st)\<lparr>ups_stale_graphs := stale\<rparr>"

definition refresh_ups :: "refresh_env \<Rightarrow> string list \<Rightarrow> pydict refresh" where
  "refresh_ups env available =
     seq (get_ds EpUps) (\<lambda>previous.
     seq (query_ups_graphs env available) (\<lambda>graph_values.
     case fold apply_ups_value graph_values (seed_ups previous available, []) of
       (ups, stale) \<Rightarrow> seq (modify (publish_ups ups stale)) (\<lambda>_. ret ups)))"

definition get_ups :: "refresh_env \<Rightarrow> pydict refresh" where
  "get_ups env =
     seq (catching (seq (client_call env ''reporting.netdata_graphs'' PNone) (\<lambda>raw. ret (Some raw)))
            (\<lambda>_. ret None)) (\<lambda>graphs.
     case graphs of
       Some (PList gs) \<Rightarrow>
         seq (note_fallback_outcome KEY_UPS_NETDATA_GRAPHS False) (\<lambda>_.
         let available = available_ups_graphs gs in
         seq (modify (drop_stale_ups_keys available)) (\<lambda>_.
         if available = [] then seq (modify (publish_ups [] [])) (\<lambda>_. get_ds EpUps)
         else refresh_ups env available))
     | _ \<Rightarrow> ups_discovery_failed)"

end
