(* ===== verification/SystemStats.thy ===== *)
theory SystemStats
  imports Netdata
begin

text \<open>
  Disk temperatures (\<open>get_disk\<close>), system information (\<open>get_systeminfo\<close>), system statistics and
  interface throughput (\<open>get_systemstats\<close>) of \<open>domain/state.py\<close>.
\<close>

section \<open>Disks\<close>

definition build_disk_name_map :: "pydict \<Rightarrow> pydict" where
  "build_disk_name_map disks =
     fold (\<lambda>(uid, vals) m.
         fold (\<lambda>key m. case key of
             PStr s \<Rightarrow> if s \<noteq> [] \<and> \<not> has_key m (PStr s) then sset m s uid else m
           | _ \<Rightarrow> m)
           [field vals ''identifier'', field vals ''devname'', field vals ''name''] m)
       disks []"

definition store_disk_temp_graph :: "pyval list \<Rightarrow> truenas_state \<Rightarrow> truenas_state" where
  "store_disk_temp_graph graphs st = st\<lparr>disk_temp_graph := Some (find_disk_temp_graph_name graphs)\<rparr>"

text \<open>\<open>try\<close> a request, \<open>except TrueNASError\<close>: \<open>None\<close>.\<close>

definition try_answer :: "py_exn + pyval \<Rightarrow> (pyval option) refresh" where
  "try_answer r = catching (seq (answer r) (\<lambda>v. ret (Some v))) (\<lambda>_. ret None)"

definition discover_disk_temp_graph :: "refresh_env \<Rightarrow> bool refresh" where
  "discover_disk_temp_graph env =
     seq (asks disk_temp_graph) (\<lambda>graph. case graph of
       Some _ \<Rightarrow> ret True
     | None \<Rightarrow>
         seq (try_answer (rpc env ''reporting.netdata_graphs'' PNone)) (\<lambda>graphs. case graphs of
           Some (PList gs) \<Rightarrow> seq (modify (store_disk_temp_graph gs)) (\<lambda>_. ret True)
         | _ \<Rightarrow> seq (note_fallback_outcome KEY_DISK_TEMP_NETDATA True) (\<lambda>_. ret False)))"

definition disk_temps_of_answer :: "pyval list \<Rightarrow> ((string \<times> pynum) list option) refresh" where
  "disk_temps_of_answer graph_data =
     seq (pure (disk_temps_from_graph_data graph_data)) (\<lambda>temps.
     if temps = [] then
       (if graph_data \<noteq> [] \<and> \<not> has_disk_temp_entries (PList graph_data)
        then seq (note_fallback_outcome KEY_DISK_TEMP_NETDATA True) (\<lambda>_. ret None)
        else seq (modify (clear_failing KEY_DISK_TEMP_NETDATA)) (\<lambda>_. ret None))
     else seq (note_fallback_outcome KEY_DISK_TEMP_NETDATA False) (\<lambda>_. ret (Some temps)))"

definition disk_temps_from_netdata :: "refresh_env \<Rightarrow> ((string \<times> pynum) list option) refresh" where
  "disk_temps_from_netdata env =
     seq (discover_disk_temp_graph env) (\<lambda>known.
     if \<not> known then ret None
     else seq (asks disk_temp_graph) (\<lambda>graph.
       if opt_or graph [] = [] then
         seq (note_fallback_outcome KEY_DISK_TEMP_NETDATA False) (\<lambda>_. ret None)
       else
         seq (try_answer (graph_call env (opt_or graph []) (recent_query env))) (\<lambda>graph_data.
         case graph_data of
           Some (PList xs) \<Rightarrow> disk_temps_of_answer xs
         | _ \<Rightarrow> seq (note_fallback_outcome KEY_DISK_TEMP_NETDATA True) (\<lambda>_. ret None))))"

text \<open>\<open>self._ds["disk"][uid]["temperature"] = v\<close>.\<close>

definition set_temperature :: "pyval \<Rightarrow> pyval \<Rightarrow> pydict \<Rightarrow> pydict" where
  "set_temperature uid v disks =
     (case dget disks uid of
        Some (PDict r) \<Rightarrow> dset disks uid (PDict (sset r ''temperature'' v)) | _ \<Rightarrow> disks)"

definition apply_netdata_temp ::
  "pydict \<Rightarrow> string \<times> pynum \<Rightarrow> pydict \<times> pyval list \<Rightarrow> pydict \<times> pyval list" where
  "apply_netdata_temp disk_map nt acc =
     (case (nt, acc) of ((name, temp), (disks, refreshed)) \<Rightarrow>
        case sget disk_map name of
          None \<Rightarrow> (disks, refreshed)
        | Some uid \<Rightarrow> (set_temperature uid (of_num (num_round_to 2 temp)) disks, uid # refreshed))"

definition disk_candidates :: "pyval \<Rightarrow> string list" where
  "disk_candidates vals =
     List.map_filter (\<lambda>v. case v of PStr s \<Rightarrow> Some s | _ \<Rightarrow> None)
       [field vals ''identifier'', field vals ''devname'', field vals ''name'']"

definition apply_fallback_temp :: "pydict \<Rightarrow> pyval \<Rightarrow> pydict \<Rightarrow> pydict" where
  "apply_fallback_temp temps uid disks =
     (let vals = (case dget disks uid of Some v \<Rightarrow> v | None \<Rightarrow> PNone) in
      case List.find (\<lambda>s. has_key temps (PStr s)) (disk_candidates vals) of
        None \<Rightarrow> disks
      | Some s \<Rightarrow> (case as_num (get_or temps s PNone) of
          Some n \<Rightarrow> set_temperature uid (of_num n) disks | None \<Rightarrow> disks))"

definition fallback_disk_names :: "pydict \<Rightarrow> pyval list \<Rightarrow> pyval list" where
  "fallback_disk_names disks uids =
     List.map_filter (\<lambda>uid. case dget disks uid of
         Some v \<Rightarrow> (case field v ''name'' of
             PStr s \<Rightarrow> if s \<noteq> ''unknown'' then Some (PStr s) else None | _ \<Rightarrow> None)
       | None \<Rightarrow> None) uids"

definition fallback_disk_temperatures :: "refresh_env \<Rightarrow> pyval list \<Rightarrow> unit refresh" where
  "fallback_disk_temperatures env stale_uids =
     seq (get_ds EpDisk) (\<lambda>disks.
     seq (try_answer (rpc env ''disk.temperatures'' (PList [PList (fallback_disk_names disks stale_uids)])))
       (\<lambda>temps. case temps of
         Some (PDict ts) \<Rightarrow>
           seq (note_fallback_outcome KEY_DISK_TEMP_FALLBACK False)
             (\<lambda>_. put_ds EpDisk (fold (apply_fallback_temp ts) stale_uids disks))
       | _ \<Rightarrow> note_fallback_outcome KEY_DISK_TEMP_FALLBACK True))"

definition update_disk_temperatures :: "refresh_env \<Rightarrow> unit refresh" where
  "update_disk_temperatures env =
     seq (disk_temps_from_netdata env) (\<lambda>netdata_temps.
     seq (get_ds EpDisk) (\<lambda>disks.
     case fold (apply_netdata_temp (build_disk_name_map disks)) (opt_or netdata_temps []) (disks, []) of
       (disks', refreshed) \<Rightarrow>
         seq (put_ds EpDisk disks') (\<lambda>_.
         let fallback_uids = filter (\<lambda>uid. \<not> list_ex (same_key uid) refreshed) (map fst disks') in
         if fallback_uids \<noteq> [] then fallback_disk_temperatures env fallback_uids
         else modify (clear_failing KEY_DISK_TEMP_FALLBACK))))"

definition get_disk :: "refresh_env \<Rightarrow> pydict refresh" where
  "get_disk env =
     seq (client_call env ''disk.query'' PNone) (\<lambda>raw.
     seq (parse_into EpDisk (keyed_args ''identifier'' DISK_VALS DISK_ENSURE_VALS) raw) (\<lambda>_.
     seq (catching (seq (update_disk_temperatures env) (\<lambda>_. ret True)) (\<lambda>_. ret False)) (\<lambda>ok.
     seq (note_fallback_outcome KEY_DISK_TEMPERATURE_UPDATE_UNEXPECTED (\<not> ok)) (\<lambda>_. get_ds EpDisk))))"

section \<open>System information\<close>

definition system_info_args :: parse_args where
  "system_info_args =
     default_args\<lparr>pa_vals := SYSTEMINFO_VALS, pa_ensure_vals := SYSTEMINFO_ENSURE_VALS\<rparr>"

definition usable_text :: "pyval \<Rightarrow> bool" where
  "usable_text v = (case v of PStr s \<Rightarrow> strip s \<noteq> [] | _ \<Rightarrow> False)"

definition strip_usable :: "pyval \<Rightarrow> pyval" where
  "strip_usable v = (case v of PStr s \<Rightarrow> if strip s \<noteq> [] then PStr (strip s) else v | _ \<Rightarrow> v)"

definition apply_virtual_detection :: "pydict \<Rightarrow> unit refresh" where
  "apply_virtual_detection raw =
     (let manufacturer = get_or raw ''system_manufacturer'' PNone;
          product = get_or raw ''system_product'' PNone in
      if usable_text manufacturer \<or> usable_text product then
        seq (modify (\<lambda>st. st\<lparr>is_virtual :=
               Some (is_virtual_machine (strip_usable manufacturer) (strip_usable product))\<rparr>))
          (\<lambda>_. note_fallback_outcome KEY_DETECT_VIRTUAL False)
      else seq (asks is_virtual) (\<lambda>cached.
        if cached = None then note_fallback_outcome KEY_DETECT_VIRTUAL True else ret ()))"

definition detect_virtual :: "refresh_env \<Rightarrow> bool refresh" where
  "detect_virtual env =
     seq (asks is_virtual) (\<lambda>cached. case cached of
       Some b \<Rightarrow> ret b
     | None \<Rightarrow>
         seq (try_answer (rpc env ''system.info'' PNone)) (\<lambda>raw. case raw of
           Some (PDict d) \<Rightarrow>
             seq (apply_virtual_detection d) (\<lambda>_. asks (\<lambda>st. is_virtual st = Some True))
         | _ \<Rightarrow> seq (note_fallback_outcome KEY_DETECT_VIRTUAL True) (\<lambda>_. ret False)))"

definition note_system_version :: "pydict \<Rightarrow> unit refresh" where
  "note_system_version info =
     (let v = parse_version_tuple (get_or info ''version'' PNone) in
      if v \<noteq> (0, 0) then
        seq (modify (\<lambda>st. st\<lparr>version := Some v\<rparr>)) (\<lambda>_. note_fallback_outcome KEY_DETECT_VERSION False)
      else seq (asks version) (\<lambda>cached.
        if cached = None then note_fallback_outcome KEY_DETECT_VERSION True else ret ()))"

definition set_total_memory :: "(pydict, unit) action" where
  "set_total_memory =
     seq (item_or ''physmem'' PNone) (\<lambda>physmem.
     if is_finite_number physmem \<and> num_less (NInt 0) (the (as_num physmem))
     then put_item ''memory-total_value'' physmem else ret ())"

definition set_uptime_epoch :: "refresh_env \<Rightarrow> (pydict, unit) action" where
  "set_uptime_epoch env =
     seq (item_or ''uptime_seconds'' PNone) (\<lambda>uptime.
     case as_num uptime of
       Some n \<Rightarrow>
         if num_le (NInt 0) n then
           seq (item_or ''uptimeEpoch'' PNone) (\<lambda>previous.
           seq (pure (stable_uptime_epoch previous uptime (report_epoch env) 300))
             (\<lambda>epoch. put_item ''uptimeEpoch'' (PInt epoch)))
         else ret ()
     | None \<Rightarrow> ret ())"

definition get_systeminfo :: "refresh_env \<Rightarrow> pydict refresh" where
  "get_systeminfo env =
     seq (client_call env ''system.info'' PNone) (\<lambda>raw. case raw of
       PDict (x # xs) \<Rightarrow>
         seq (note_fallback_outcome KEY_SYSTEM_INFO False) (\<lambda>_.
         seq (parse_into EpSystemInfo system_info_args (PDict (x # xs))) (\<lambda>_.
         seq (get_ds EpSystemInfo) (\<lambda>info.
         seq (note_system_version info) (\<lambda>_.
         seq (apply_virtual_detection (x # xs)) (\<lambda>_.
         seq (in_ds EpSystemInfo set_total_memory) (\<lambda>_.
         seq (in_ds EpSystemInfo (set_uptime_epoch env)) (\<lambda>_. get_ds EpSystemInfo)))))))
     | _ \<Rightarrow> seq (note_fallback_outcome KEY_SYSTEM_INFO True) (\<lambda>_. get_ds EpSystemInfo))"

section \<open>System statistics\<close>

definition SYSTEMSTATS_GRAPHS :: "string list" where
  "SYSTEMSTATS_GRAPHS = [''load'', ''cpu'', ''cputemp'', ''memory'', ''arcsize'']"

definition apply_cputemp_stat :: "pyval \<Rightarrow> (pydict, bool) action" where
  "apply_cputemp_stat raw =
     (case netdata_max_mean raw of
        None \<Rightarrow> ret False
      | Some temp \<Rightarrow> seq (put_item ''cpu_temperature'' (of_num temp)) (\<lambda>_. ret True))"

definition rounded :: "pyfloat \<Rightarrow> pyval" where
  "rounded x = PFloat (float_round_to 2 x)"

definition apply_load_stat :: "pyval \<Rightarrow> (pydict, bool) action" where
  "apply_load_stat raw =
     (let means = netdata_named_means raw [''shortterm'', ''midterm'', ''longterm''] in
      seq (for_each [(''shortterm'', ''load_shortterm''), (''midterm'', ''load_midterm''),
                     (''longterm'', ''load_longterm'')]
            (\<lambda>(series, fld). case map_of means series of
                Some x \<Rightarrow> put_item fld (rounded x) | None \<Rightarrow> ret ()))
        (\<lambda>_. ret (means \<noteq> [])))"

definition apply_single_stat :: "string \<Rightarrow> string \<Rightarrow> pyval \<Rightarrow> (pydict, bool) action" where
  "apply_single_stat series fld raw =
     (case map_of (netdata_named_means raw [series]) series of
        None \<Rightarrow> ret False
      | Some x \<Rightarrow> seq (put_item fld (rounded x)) (\<lambda>_. ret True))"

definition apply_cpu_stat :: "pyval \<Rightarrow> (pydict, bool) action" where
  "apply_cpu_stat raw = apply_single_stat ''cpu'' ''cpu_usage'' raw"

definition apply_arcsize_stat :: "pyval \<Rightarrow> (pydict, bool) action" where
  "apply_arcsize_stat raw = apply_single_stat ''size'' ''cache_size-arc_value'' raw"

text \<open>\<open>round(100 * (total - available) / total)\<close>.\<close>

definition memory_percent :: "pynum \<Rightarrow> pyfloat \<Rightarrow> builtin_error + int" where
  "memory_percent whole available =
     res_bind (num_sub whole (NFloat available)) (\<lambda>d.
     res_bind (num_mul (NInt 100) d) (\<lambda>p.
     res_bind (num_div p whole) num_round))"

definition apply_memory_stat :: "pyval \<Rightarrow> (pydict, bool) action" where
  "apply_memory_stat raw =
     (case map_of (netdata_named_means raw [''available'']) ''available'' of
        None \<Rightarrow> ret False
      | Some available \<Rightarrow>
          seq (put_item ''memory-free_value'' (rounded available)) (\<lambda>_.
          seq (item_or ''memory-total_value'' (PInt 0)) (\<lambda>whole.
          seq (case as_num whole of
                 Some w \<Rightarrow>
                   if num_less (NInt 0) w
                   then seq (pure (memory_percent w available)) (\<lambda>u. put_item ''memory-usage_percent'' (PInt u))
                   else ret ()
               | None \<Rightarrow> ret ())
            (\<lambda>_. ret True))))"

definition apply_systemstat :: "string \<Rightarrow> pyval \<Rightarrow> (pydict, bool) action" where
  "apply_systemstat graph_name raw =
     (if graph_name = ''cputemp'' then apply_cputemp_stat raw
      else if graph_name = ''load'' then apply_load_stat raw
      else if graph_name = ''cpu'' then apply_cpu_stat raw
      else if graph_name = ''arcsize'' then apply_arcsize_stat raw
      else if graph_name = ''memory'' then apply_memory_stat raw
      else ret True)"

definition systemstat_key :: "string \<Rightarrow> string" where
  "systemstat_key graph_name = SYSTEMSTAT_KEY_PREFIX @ graph_name"

text \<open>One gathered outcome: whether the graph is stale.\<close>

definition apply_systemstat_result :: "string \<Rightarrow> py_exn + pyval \<Rightarrow> bool refresh" where
  "apply_systemstat_result graph_name result =
     (let key = systemstat_key graph_name in
      case result of
        Inl (TrueNAS e) \<Rightarrow> seq (note_fallback_outcome key True) (\<lambda>_. ret True)
      | Inl e \<Rightarrow> raise e
      | Inr raw \<Rightarrow>
          seq (in_ds EpSystemInfo (apply_systemstat graph_name raw)) (\<lambda>ok.
          seq (note_fallback_outcome key (\<not> ok)) (\<lambda>_. ret (\<not> ok))))"

fun refresh_systemstat_graphs :: "refresh_env \<Rightarrow> string list \<Rightarrow> (string list) refresh" where
  "refresh_systemstat_graphs env [] = ret []"
| "refresh_systemstat_graphs env (g # gs) =
     seq (apply_systemstat_result g (graph_call env g (recent_query env))) (\<lambda>stale.
     seq (refresh_systemstat_graphs env gs) (\<lambda>rest. ret (if stale then g # rest else rest)))"

definition apply_throughput ::
  "string \<times> (string \<times> pynum) list \<Rightarrow> pydict \<times> bool \<Rightarrow> pydict \<times> bool" where
  "apply_throughput it acc =
     (case (it, acc) of ((identifier, throughput), (ifaces, applied)) \<Rightarrow>
        case sget ifaces identifier of
          Some (PDict r) \<Rightarrow>
            if throughput = [] then (ifaces, applied)
            else (sset ifaces identifier
                    (PDict (fold (\<lambda>(k, x) r. sset r k (of_num x)) throughput r)), True)
        | _ \<Rightarrow> (ifaces, applied))"

definition refresh_interface_throughput :: "refresh_env \<Rightarrow> (string list) refresh" where
  "refresh_interface_throughput env =
     seq (get_ds EpInterface) (\<lambda>ifaces.
     if ifaces = [] then seq (modify (clear_failing KEY_INTERFACE_THROUGHPUT)) (\<lambda>_. ret [])
     else seq (try_answer (graph_call env ''interface'' (recent_query env))) (\<lambda>raw. case raw of
         None \<Rightarrow> seq (note_fallback_outcome KEY_INTERFACE_THROUGHPUT True) (\<lambda>_. ret [''interface''])
       | Some raw_interface \<Rightarrow>
           seq (pure (netdata_interface_throughput raw_interface)) (\<lambda>throughput_by_id.
           case fold apply_throughput throughput_by_id (ifaces, False) of
             (ifaces', applied) \<Rightarrow>
               seq (put_ds EpInterface ifaces') (\<lambda>_.
               seq (note_fallback_outcome KEY_INTERFACE_THROUGHPUT (\<not> applied)) (\<lambda>_.
                 ret (if applied then [] else [''interface'']))))))"

definition get_systemstats :: "refresh_env \<Rightarrow> pydict refresh" where
  "get_systemstats env =
     seq (detect_virtual env) (\<lambda>virtual.
     seq (refresh_systemstat_graphs env
            (filter (\<lambda>name. name \<noteq> ''cputemp'' \<or> \<not> virtual) SYSTEMSTATS_GRAPHS)) (\<lambda>stale.
     seq (refresh_interface_throughput env) (\<lambda>stale_if.
     seq (modify (\<lambda>st. st\<lparr>systemstats_stale_graphs := stale @ stale_if\<rparr>)) (\<lambda>_. get_ds EpSystemInfo))))"

end
