(* ===== verification/StateInv.thy ===== *)
theory StateInv
  imports PoolLaws Tasks Services SystemStats
begin

text \<open>
  What every refresh of \<open>TrueNASState\<close> keeps: the shape of the endpoint data (\<open>maps_ok\<close>) and of
  the fallback flags (\<open>flags_ok\<close>), and the data of all other endpoints (\<open>same_except\<close>).  A handler
  keeps an invariant when its steps do, by the composition rules \<open>keeps_intros\<close>.
\<close>

section \<open>Rules for case distinctions\<close>

lemma keeps_case_pyval [keeps_intros]:
  assumes "keeps P f1" "\<And>b. keeps P (f2 b)" "\<And>i. keeps P (f3 i)" "\<And>x. keeps P (f4 x)"
    "\<And>s. keeps P (f5 s)" "\<And>d. keeps P (f6 d)" "\<And>xs. v = PList xs \<Longrightarrow> keeps P (f7 xs)"
    "\<And>d. v = PDict d \<Longrightarrow> keeps P (f8 d)"
  shows "keeps P (case_pyval f1 f2 f3 f4 f5 f6 f7 f8 v)"
  using assms by (cases v) auto

lemma keeps_case_sum [keeps_intros]:
  "(\<And>e. keeps P (f e)) \<Longrightarrow> (\<And>x. keeps P (g x)) \<Longrightarrow> keeps P (case_sum f g r)"
  by (cases r) auto

lemma keeps_case_exn [keeps_intros]:
  "(\<And>e. keeps P (f e)) \<Longrightarrow> (\<And>x. keeps P (g x)) \<Longrightarrow> keeps P (case_py_exn f g r)"
  by (cases r) auto

lemma keeps_case_list [keeps_intros]:
  "keeps P m \<Longrightarrow> (\<And>x xs. keeps P (f x xs)) \<Longrightarrow> keeps P (case_list m f l)"
  by (cases l) auto

lemma keeps_let [keeps_intros]: "(\<And>x. keeps P (f x)) \<Longrightarrow> keeps P (let x = e in f x)"
  by simp

lemma keeps_in_ds:
  assumes "\<And>st. P st \<Longrightarrow> Q (ds st ep)" "keeps Q m" "\<And>st d. P st \<Longrightarrow> Q d \<Longrightarrow> P (set_ds ep d st)"
  shows "keeps P (in_ds ep m)"
  unfolding in_ds_def by (rule keeps_zoom [where Q = Q]) (use assms in auto)

lemma keeps_for_items: "keeps record_map (for_items f)"
  by (rule keepsI) (metis for_items_records surjective_pairing)

lemma keeps_Pair [simp]: "keeps P (Pair r)"
  by (simp add: keeps_def)

section \<open>Other endpoints\<close>

definition same_except :: "endpoint set \<Rightarrow> (endpoint \<Rightarrow> pydict) \<Rightarrow> truenas_state \<Rightarrow> bool" where
  "same_except own d st \<longleftrightarrow> (\<forall>ep. ep \<notin> own \<longrightarrow> ds st ep = d ep)"

named_theorems frame_intros \<open>steps that leave the data of other endpoints\<close>

lemma same_except_basic [frame_intros]:
  "keeps (same_except own d) (get_ds ep)" "keeps (same_except own d) (client_call env m p)"
  "keeps (same_except own d) (note_fallback_outcome k f)"
  "keeps (same_except own d) (note_primary_query_outcome k raw i)"
  "keeps (same_except own d) (modify (set_failing k))"
  "keeps (same_except own d) (modify (clear_failing k))"
  "keeps (same_except own d) (modify (\<lambda>st. st\<lparr>boot_pool_uid := u\<rparr>))"
  "keeps (same_except own d) (modify (\<lambda>st. st\<lparr>version := v\<rparr>))"
  "keeps (same_except own d) (modify (\<lambda>st. st\<lparr>is_virtual := b\<rparr>))"
  "keeps (same_except own d) (modify (\<lambda>st. st\<lparr>systemstats_stale_graphs := gs\<rparr>))"
  "keeps (same_except own d) (modify (\<lambda>st. st\<lparr>ups_stale_graphs := all_cached_ups_graphs (ds st EpUps)\<rparr>))"
  "keeps (same_except own d) (modify (store_disk_temp_graph g))"
  "keeps (same_except own d) (modify (\<lambda>st. log_append (LogInfo k) (set_failing k (st\<lparr>smb_denied := True\<rparr>))))"
  by (auto simp: keeps_def same_except_def get_ds_def client_call_def store_disk_temp_graph_def)

lemma ds_fold_clear [simp]: "ds (fold clear_failing ks st) = ds st"
  by (induction ks arbitrary: st) auto

lemma same_except_drop [frame_intros]: "keeps (same_except own d) (modify (drop_stale_ups_keys a))"
  by (simp add: keeps_def same_except_def drop_stale_ups_keys_def)

lemma same_except_put [frame_intros]:
  "ep \<in> own \<Longrightarrow> keeps (same_except own d) (put_ds ep x)"
  "ep \<in> own \<Longrightarrow> keeps (same_except own d) (in_ds ep m)"
  "EpUps \<in> own \<Longrightarrow> keeps (same_except own d) (modify (publish_ups u s))"
  by (auto simp: keeps_def same_except_def put_ds_def in_ds_def zoom_def publish_ups_def split: prod.splits)

lemma same_except_parse [frame_intros]: "ep \<in> own \<Longrightarrow> keeps (same_except own d) (parse_into ep a raw)"
  unfolding parse_into_def by (intro keeps_intros frame_intros)

lemma same_except_query [frame_intros]:
  "ep \<in> own \<Longrightarrow> keeps (same_except own d) (refresh_query env ep m a)"
  "ep \<in> own \<Longrightarrow> keeps (same_except own d) (tracked_query env ep m k a)"
  "ep \<in> own \<Longrightarrow> keeps (same_except own d) (for_records ep f)"
  unfolding refresh_query_def tracked_query_def for_records_def by (intro keeps_intros frame_intros; simp)+

lemma frame_tasks:
  "keeps (same_except {EpCloudsync} d) (get_cloudsync env)"
  "keeps (same_except {EpReplication} d) (get_replication env)"
  "keeps (same_except {EpRsynctask} d) (get_rsync env)"
  "keeps (same_except {EpSnapshottask} d) (get_snapshottask env)"
  "keeps (same_except {EpCronjob} d) (get_cronjob env)"
  "keeps (same_except {EpScrub} d) (get_scrub env)"
  "keeps (same_except {EpService} d) (get_service env)"
  "keeps (same_except {EpVm} d) (get_vm env)"
  "keeps (same_except {EpApp} d) (get_app env)"
  "keeps (same_except {EpCertificate} d) (get_certificates env)"
  "keeps (same_except {EpInterface} d) (get_interface env)"
  unfolding get_cloudsync_def get_replication_def get_rsync_def get_snapshottask_def get_cronjob_def
    get_scrub_def get_service_def get_vm_def get_app_def get_certificates_def get_interface_def
  by (intro keeps_intros frame_intros; simp)+

lemma frame_container: "keeps (same_except {EpContainer} d) (get_container env)"
  unfolding get_container_def detect_version_def compute_container_v26_def compute_container_legacy_def
  by (intro keeps_intros frame_intros; simp)

lemma frame_pools:
  "keeps (same_except {EpDataset} d) (get_dataset env)"
  "keeps (same_except {EpPool, EpDataset} d) (get_pool env)"
  unfolding get_dataset_def get_pool_def compute_dataset_def build_pools_def add_boot_pool_def
    carry_over_boot_pool_def
  by (intro keeps_intros frame_intros; simp)+

lemma frame_services:
  "keeps (same_except {EpDirectoryservices} d) (get_directoryservices env)"
  "keeps (same_except {EpAlerts} d) (get_alerts env)"
  "keeps (same_except {EpSmb} d) (get_smb env)"
  "keeps (same_except {EpUpdate} d) (get_update env)"
  unfolding get_directoryservices_def directory_status_def get_alerts_def get_smb_def smb_query_def
    latch_smb_denied_def store_smb_def get_update_def
  by (intro keeps_intros frame_intros; simp)+

lemma keeps_arc_readings: "keeps P (arc_readings env gs arc)"
  by (induction env gs arc rule: arc_readings.induct) (auto intro!: keeps_intros)

lemma frame_ups_result [frame_intros]: "keeps (same_except own d) (apply_ups_graph_result g r)"
  unfolding apply_ups_graph_result_def by (intro keeps_intros frame_intros)

lemma frame_query_ups [frame_intros]: "keeps (same_except own d) (query_ups_graphs env gs)"
  by (induction env gs rule: query_ups_graphs.induct) (auto intro!: keeps_intros frame_intros)

lemma frame_try [frame_intros]: "keeps P (try_answer r)"
  unfolding try_answer_def by (intro keeps_intros)

lemma frame_netdata:
  "keeps (same_except {EpArc} d) (get_arc env)"
  "keeps (same_except {EpUps} d) (get_ups env)"
  unfolding get_arc_def get_ups_def ups_discovery_failed_def refresh_ups_def
  by (intro keeps_intros frame_intros keeps_arc_readings; simp)+

lemma frame_disk: "keeps (same_except {EpDisk} d) (get_disk env)"
  unfolding get_disk_def update_disk_temperatures_def disk_temps_from_netdata_def
    discover_disk_temp_graph_def disk_temps_of_answer_def fallback_disk_temperatures_def
  by (intro keeps_intros frame_intros; simp)

lemma frame_virtual [frame_intros]: "keeps (same_except own d) (apply_virtual_detection r)"
  unfolding apply_virtual_detection_def by (intro keeps_intros frame_intros)

lemma frame_systeminfo: "keeps (same_except {EpSystemInfo} d) (get_systeminfo env)"
  unfolding get_systeminfo_def note_system_version_def
  by (intro keeps_intros frame_intros; simp)

lemma frame_stat_graphs: "keeps (same_except {EpSystemInfo, EpInterface} d) (refresh_systemstat_graphs env gs)"
proof (induction env gs rule: refresh_systemstat_graphs.induct)
  case (2 env g gs)
  have "keeps (same_except {EpSystemInfo, EpInterface} d)
      (apply_systemstat_result g (graph_call env g (recent_query env)))"
    unfolding apply_systemstat_result_def by (intro keeps_intros frame_intros; simp)
  with 2 show ?case by (simp add: keeps_intros)
qed (simp add: keeps_intros)

lemma frame_systemstats: "keeps (same_except {EpSystemInfo, EpInterface} d) (get_systemstats env)"
  unfolding get_systemstats_def detect_virtual_def refresh_interface_throughput_def
  by (intro keeps_intros frame_intros frame_stat_graphs; simp)

section \<open>The fallback flags\<close>

text \<open>The keys the code tracks: every fixed key, and the two families of per-graph keys.\<close>

definition known_key :: "string \<Rightarrow> bool" where
  "known_key k = (fallback_endpoint k \<noteq> None \<or> k \<in> set NON_ENDPOINT_FALLBACK_KEYS
     \<or> list_ex (\<lambda>p. starts_with p k) NON_ENDPOINT_FALLBACK_KEY_PREFIXES)"

definition flags_ok :: "bool \<Rightarrow> truenas_state \<Rightarrow> bool" where
  "flags_ok latched st \<longleftrightarrow> distinct (map fst (fallback_failing st))
     \<and> list_all (\<lambda>(k, b). b \<and> known_key k) (fallback_failing st)
     \<and> (smb_denied st \<longrightarrow> is_failing st KEY_SMB_STATUS)
     \<and> (latched \<longrightarrow> smb_denied st)"

lemma known_keys [simp]:
  "known_key KEY_POOL_QUERY" "known_key KEY_BOOT_POOL" "known_key KEY_POOL_CAPACITY_DATASET"
  "known_key KEY_DATASET_QUERY" "known_key KEY_DATASET_NOT_PUBLISHED" "known_key KEY_UPS_NETDATA_GRAPHS"
  "known_key KEY_DIRECTORYSERVICES_CONFIG" "known_key KEY_DIRECTORYSERVICES_STATUS"
  "known_key KEY_ALERT_LIST" "known_key KEY_SMB_STATUS" "known_key KEY_SYSTEM_INFO"
  "known_key KEY_INTERFACE_QUERY" "known_key KEY_SCRUB_QUERY" "known_key KEY_SERVICE_QUERY"
  "known_key KEY_VM_QUERY" "known_key KEY_DISK_TEMPERATURE_UPDATE_UNEXPECTED"
  "known_key KEY_DISK_TEMP_NETDATA" "known_key KEY_DISK_TEMP_FALLBACK"
  "known_key KEY_INTERFACE_THROUGHPUT" "known_key KEY_DETECT_VIRTUAL" "known_key KEY_DETECT_VERSION"
  "known_key (ups_key g)" "known_key (systemstat_key g)"
  by (simp_all add: known_key_def NON_ENDPOINT_FALLBACK_KEYS_def NON_ENDPOINT_FALLBACK_KEY_PREFIXES_def
      ups_key_def systemstat_key_def)

lemma not_smb_key [simp]:
  "KEY_POOL_QUERY \<noteq> KEY_SMB_STATUS" "KEY_BOOT_POOL \<noteq> KEY_SMB_STATUS"
  "KEY_POOL_CAPACITY_DATASET \<noteq> KEY_SMB_STATUS" "KEY_DATASET_QUERY \<noteq> KEY_SMB_STATUS"
  "KEY_DATASET_NOT_PUBLISHED \<noteq> KEY_SMB_STATUS" "KEY_UPS_NETDATA_GRAPHS \<noteq> KEY_SMB_STATUS"
  "KEY_DIRECTORYSERVICES_CONFIG \<noteq> KEY_SMB_STATUS" "KEY_DIRECTORYSERVICES_STATUS \<noteq> KEY_SMB_STATUS"
  "KEY_ALERT_LIST \<noteq> KEY_SMB_STATUS" "KEY_SYSTEM_INFO \<noteq> KEY_SMB_STATUS"
  "KEY_INTERFACE_QUERY \<noteq> KEY_SMB_STATUS" "KEY_SCRUB_QUERY \<noteq> KEY_SMB_STATUS"
  "KEY_SERVICE_QUERY \<noteq> KEY_SMB_STATUS" "KEY_VM_QUERY \<noteq> KEY_SMB_STATUS"
  "KEY_DISK_TEMPERATURE_UPDATE_UNEXPECTED \<noteq> KEY_SMB_STATUS" "KEY_DISK_TEMP_NETDATA \<noteq> KEY_SMB_STATUS"
  "KEY_DISK_TEMP_FALLBACK \<noteq> KEY_SMB_STATUS" "KEY_INTERFACE_THROUGHPUT \<noteq> KEY_SMB_STATUS"
  "KEY_DETECT_VIRTUAL \<noteq> KEY_SMB_STATUS" "KEY_DETECT_VERSION \<noteq> KEY_SMB_STATUS"
  "ups_key g \<noteq> KEY_SMB_STATUS" "systemstat_key g \<noteq> KEY_SMB_STATUS"
  by (simp_all add: key_defs ups_key_def systemstat_key_def)

lemma set_alist_update: "set (AList.update k v m) \<subseteq> insert (k, v) (set m)"
  by (induction m) auto

lemma flags_set: "flags_ok latched st \<Longrightarrow> known_key k \<Longrightarrow> flags_ok latched (set_failing k st)"
proof -
  assume st: "flags_ok latched st" "known_key k"
  have "list_all (\<lambda>(k, b). b \<and> known_key k) (AList.update k True (fallback_failing st))"
    using st set_alist_update [of k True "fallback_failing st"]
    by (fastforce simp: flags_ok_def list_all_iff)
  moreover have "distinct (map fst (AList.update k True (fallback_failing st)))"
    using st by (intro distinct_update) (simp add: flags_ok_def)
  moreover have "smb_denied (set_failing k st) \<longrightarrow> is_failing (set_failing k st) KEY_SMB_STATUS"
    using st by (simp add: flags_ok_def)
  ultimately show ?thesis using st(1) by (simp add: flags_ok_def set_failing_def)
qed

lemma flags_clear: "flags_ok latched st \<Longrightarrow> k \<noteq> KEY_SMB_STATUS \<or> \<not> smb_denied st \<Longrightarrow> flags_ok latched (clear_failing k st)"
proof -
  assume st: "flags_ok latched st" "k \<noteq> KEY_SMB_STATUS \<or> \<not> smb_denied st"
  have "list_all (\<lambda>(k, b). b \<and> known_key k) (AList.delete k (fallback_failing st))"
    using st(1) by (auto simp: flags_ok_def list_all_iff AList.delete_eq)
  moreover have "distinct (map fst (AList.delete k (fallback_failing st)))"
    using st(1) by (intro distinct_delete) (simp add: flags_ok_def)
  moreover have "smb_denied (clear_failing k st) \<longrightarrow> is_failing (clear_failing k st) KEY_SMB_STATUS"
    using st by (auto simp: flags_ok_def)
  ultimately show ?thesis using st(1) by (simp add: flags_ok_def clear_failing_def)
qed

lemma flags_frame:
  "flags_ok latched st \<Longrightarrow> fallback_failing st' = fallback_failing st \<Longrightarrow> smb_denied st' = smb_denied st
    \<Longrightarrow> flags_ok latched st'"
  by (simp add: flags_ok_def is_failing_def)

lemma flags_log [simp]: "flags_ok latched (log_append e st) = flags_ok latched st"
  by (simp add: flags_ok_def is_failing_def log_append_def)

named_theorems flags_intros \<open>steps that keep the flags well-formed\<close>

lemma flags_note [flags_intros]:
  assumes "known_key k" "k \<noteq> KEY_SMB_STATUS"
  shows "keeps (flags_ok latched) (note_fallback_outcome k f)" "keeps (flags_ok latched) (note_primary_query_outcome k raw i)"
    "keeps (flags_ok latched) (modify (set_failing k))" "keeps (flags_ok latched) (modify (clear_failing k))"
proof -
  show n: "keeps (flags_ok latched) (note_fallback_outcome k f)" for f
    unfolding note_fallback_outcome_def
    by (rule keeps_modify) (use assms in \<open>auto intro!: flags_set flags_clear\<close>)
  show "keeps (flags_ok latched) (note_primary_query_outcome k raw i)"
    unfolding note_primary_query_outcome_def by (rule n)
  show "keeps (flags_ok latched) (modify (set_failing k))" "keeps (flags_ok latched) (modify (clear_failing k))"
    by (rule keeps_modify, use assms in \<open>auto intro!: flags_set flags_clear\<close>)+
qed

lemma flags_basic [flags_intros]:
  "keeps (flags_ok latched) (get_ds ep)" "keeps (flags_ok latched) (client_call env m p)" "keeps (flags_ok latched) (put_ds ep x)"
  "keeps (flags_ok latched) (modify (\<lambda>st. st\<lparr>boot_pool_uid := u\<rparr>))"
  "keeps (flags_ok latched) (modify (\<lambda>st. st\<lparr>version := v\<rparr>))"
  "keeps (flags_ok latched) (modify (\<lambda>st. st\<lparr>is_virtual := b\<rparr>))"
  "keeps (flags_ok latched) (modify (\<lambda>st. st\<lparr>systemstats_stale_graphs := gs\<rparr>))"
  "keeps (flags_ok latched) (modify (\<lambda>st. st\<lparr>ups_stale_graphs := all_cached_ups_graphs (ds st EpUps)\<rparr>))"
  "keeps (flags_ok latched) (modify (store_disk_temp_graph g))" "keeps (flags_ok latched) (modify (publish_ups ups s))"
  by (auto simp: keeps_def get_ds_def client_call_def put_ds_def store_disk_temp_graph_def
      publish_ups_def elim: flags_frame)

lemma flags_in_ds [flags_intros]: "keeps (flags_ok latched) (in_ds ep m)"
  by (auto simp: keeps_def in_ds_def zoom_def elim: flags_frame split: prod.splits)

lemma flags_drop [flags_intros]: "keeps (flags_ok latched) (modify (drop_stale_ups_keys a))"
proof (rule keeps_modify)
  fix st
  assume st: "flags_ok latched st"
  have prefix: "k \<noteq> KEY_SMB_STATUS" if "starts_with UPS_GRAPH_KEY_PREFIX k" for k
    using that by (auto simp: key_defs)
  show "flags_ok latched (drop_stale_ups_keys a st)"
    unfolding drop_stale_ups_keys_def
    by (rule fold_invariant [where P = "flags_ok latched"]) (use st prefix flags_clear in auto)
qed

lemma flags_queries [flags_intros]:
  "keeps (flags_ok latched) (parse_into ep a raw)" "keeps (flags_ok latched) (refresh_query env ep m a)"
  "known_key k \<Longrightarrow> k \<noteq> KEY_SMB_STATUS \<Longrightarrow> keeps (flags_ok latched) (tracked_query env ep m k a)"
  "keeps (flags_ok latched) (for_records ep f)"
  unfolding parse_into_def refresh_query_def tracked_query_def for_records_def
  by (intro keeps_intros flags_intros; simp)+

lemma flags_tasks:
  "keeps (flags_ok latched) (get_cloudsync env)" "keeps (flags_ok latched) (get_replication env)"
  "keeps (flags_ok latched) (get_rsync env)" "keeps (flags_ok latched) (get_snapshottask env)"
  "keeps (flags_ok latched) (get_cronjob env)" "keeps (flags_ok latched) (get_scrub env)" "keeps (flags_ok latched) (get_service env)"
  "keeps (flags_ok latched) (get_vm env)" "keeps (flags_ok latched) (get_app env)" "keeps (flags_ok latched) (get_certificates env)"
  "keeps (flags_ok latched) (get_interface env)"
  unfolding get_cloudsync_def get_replication_def get_rsync_def get_snapshottask_def get_cronjob_def
    get_scrub_def get_service_def get_vm_def get_app_def get_certificates_def get_interface_def
  by (intro keeps_intros flags_intros; simp)+

lemma flags_container: "keeps (flags_ok latched) (get_container env)"
  unfolding get_container_def detect_version_def compute_container_v26_def compute_container_legacy_def
  by (intro keeps_intros flags_intros; simp)

lemma flags_pools: "keeps (flags_ok latched) (get_dataset env)" "keeps (flags_ok latched) (get_pool env)"
  unfolding get_dataset_def get_pool_def compute_dataset_def build_pools_def add_boot_pool_def
    carry_over_boot_pool_def
  by (intro keeps_intros flags_intros; simp)+

lemma flags_services:
  "keeps (flags_ok latched) (get_directoryservices env)" "keeps (flags_ok latched) (get_alerts env)"
  "keeps (flags_ok latched) (get_update env)"
  unfolding get_directoryservices_def directory_status_def get_alerts_def get_update_def
  by (intro keeps_intros flags_intros; simp)+

lemma flags_ups_result [flags_intros]: "keeps (flags_ok latched) (apply_ups_graph_result g r)"
  unfolding apply_ups_graph_result_def Let_def by (intro keeps_intros flags_intros; simp)

lemma flags_query_ups [flags_intros]: "keeps (flags_ok latched) (query_ups_graphs env gs)"
  by (induction env gs rule: query_ups_graphs.induct) (auto intro!: keeps_intros flags_intros)

lemma flags_netdata: "keeps (flags_ok latched) (get_arc env)" "keeps (flags_ok latched) (get_ups env)"
  unfolding get_arc_def get_ups_def ups_discovery_failed_def refresh_ups_def
  by (intro keeps_intros flags_intros keeps_arc_readings; simp)+

lemma flags_disk: "keeps (flags_ok latched) (get_disk env)"
  unfolding get_disk_def update_disk_temperatures_def disk_temps_from_netdata_def
    discover_disk_temp_graph_def disk_temps_of_answer_def fallback_disk_temperatures_def
  by (intro keeps_intros flags_intros frame_try; simp)

lemma flags_virtual [flags_intros]: "keeps (flags_ok latched) (apply_virtual_detection r)"
  unfolding apply_virtual_detection_def by (intro keeps_intros flags_intros; simp)

lemma flags_systeminfo: "keeps (flags_ok latched) (get_systeminfo env)"
  unfolding get_systeminfo_def note_system_version_def by (intro keeps_intros flags_intros; simp)

lemma flags_stat_graphs [flags_intros]: "keeps (flags_ok latched) (refresh_systemstat_graphs env gs)"
proof (induction env gs rule: refresh_systemstat_graphs.induct)
  case (2 env g gs)
  have "keeps (flags_ok latched) (apply_systemstat_result g (graph_call env g (recent_query env)))"
    unfolding apply_systemstat_result_def Let_def by (intro keeps_intros flags_intros; simp)
  with 2 show ?case by (simp add: keeps_intros)
qed simp

lemma flags_systemstats: "keeps (flags_ok latched) (get_systemstats env)"
  unfolding get_systemstats_def detect_virtual_def refresh_interface_throughput_def
  by (intro keeps_intros flags_intros frame_try; simp)

text \<open>
  The SMB latch: the flag is set with the latch, and a latched state never runs the query that
  could clear it.
\<close>

definition smb_open :: "truenas_state \<Rightarrow> bool" where
  "smb_open st \<longleftrightarrow> flags_ok False st \<and> \<not> smb_denied st"

lemma keeps_smb_query: "keeps P (smb_query env)"
  unfolding smb_query_def client_call_def by (intro keeps_intros)

lemma store_smb_flags: "smb_open st \<Longrightarrow> flags_ok False (snd (store_smb raw st))"
proof -
  assume st: "smb_open st"
  have n: "flags_ok False (noted KEY_SMB_STATUS f s)" if "smb_open s" for f s
    using that by (auto simp: noted_def note_fallback_outcome_def smb_open_def intro!: flags_set flags_clear
        elim: flags_frame)
  have "smb_open (set_ds EpSmb d st)" for d using st by (auto simp: smb_open_def elim: flags_frame)
  with st n show ?thesis
    by (cases "smb_connections raw") (auto simp: store_smb_def seq_def put_ds_def get_ds_def)
qed

lemma latch_smb_flags:
  assumes "smb_open st" "latch_smb_denied err st = (r, st')"
  shows "flags_ok False st' \<and> (r = Inr False \<longrightarrow> smb_open st') \<and> isl r = False"
proof (cases "is_eacces err")
  case True
  have "flags_ok False (set_failing KEY_SMB_STATUS (st\<lparr>smb_denied := True\<rparr>))"
    using assms(1) flags_set [of False "st\<lparr>smb_denied := False\<rparr>" KEY_SMB_STATUS]
    by (auto simp: smb_open_def flags_ok_def set_failing_def is_failing_def lookup_alist_update)
  with assms True show ?thesis by (auto simp: latch_smb_denied_def seq_def)
qed (use assms in \<open>auto simp: latch_smb_denied_def smb_open_def\<close>)

lemma flags_smb: "keeps (flags_ok latched) (get_smb env)"
proof (rule keepsI)
  fix st
  assume st: "flags_ok latched st"
  show "flags_ok latched (snd (get_smb env st))"
  proof (cases "smb_denied st")
    case True
    with st show ?thesis by (simp add: get_smb_def get_ds_def)
  next
    case False
    then have latched: "latched = False" using st by (simp add: flags_ok_def)
    obtain r st1 where q: "smb_query env st = (r, st1)" by fastforce
    have op: "smb_open st1"
      using keepsD [OF keeps_smb_query, of smb_open st env] st False q latched by (simp add: smb_open_def)
    have get: "flags_ok False (snd (get_ds EpSmb s)) = flags_ok False s" for s by (simp add: get_ds_def)
    consider (exn) e where "r = Inl e" | (err) err where "r = Inr (Inl err)" | (raw) raw where "r = Inr (Inr raw)"
      by (metis sum.exhaust)
    then show ?thesis
    proof cases
      case err
      obtain l st2 where l: "latch_smb_denied err st1 = (l, st2)" by fastforce
      note latch = latch_smb_flags [OF op l]
      have "flags_ok False (noted KEY_SMB_STATUS True st2)"
        using latch by (auto simp: noted_def note_fallback_outcome_def intro!: flags_set)
      with latch err q l False get latched show ?thesis
        by (cases l) (auto simp: get_smb_def seq_def)
    qed (use op q False latched store_smb_flags in \<open>auto simp: get_smb_def seq_def smb_open_def\<close>)
  qed
qed

end
