(* ===== verification/MapInv.thy ===== *)
theory MapInv
  imports StateInv
begin

text \<open>
  The shape of the endpoint data that every refresh keeps: endpoints keyed by an id hold records,
  every published pool has consistent capacity figures, a UPS graph is reported stale only while
  its field is in the snapshot, and the alert map is an aggregation of some list of alerts.
\<close>

definition keyed_endpoint :: "endpoint \<Rightarrow> bool" where
  "keyed_endpoint ep = (ep \<notin> {EpArc, EpUps, EpAlerts, EpUpdate, EpSmb, EpSystemInfo})"

definition maps_ok :: "truenas_state \<Rightarrow> bool" where
  "maps_ok st \<longleftrightarrow> (\<forall>ep. keyed_endpoint ep \<longrightarrow> record_map (ds st ep))
     \<and> records capacity_ok (ds st EpPool)
     \<and> list_all (\<lambda>g. has_key (ds st EpUps) (PStr (ups_field g))) (ups_stale_graphs st)
     \<and> (\<exists>active. ds st EpAlerts = aggregate_alerts active)"

named_theorems maps_intros \<open>steps that keep the shape of the data\<close>

lemma maps_frame:
  "maps_ok st \<Longrightarrow> ds st' = ds st \<Longrightarrow> ups_stale_graphs st' = ups_stale_graphs st \<Longrightarrow> maps_ok st'"
  by (simp add: maps_ok_def)

lemma maps_record: "maps_ok st \<Longrightarrow> keyed_endpoint ep \<Longrightarrow> record_map (ds st ep)"
  by (simp add: maps_ok_def)

lemma maps_set_ds:
  assumes "maps_ok st" "ep \<notin> {EpPool, EpUps, EpAlerts}" "keyed_endpoint ep \<longrightarrow> record_map d"
  shows "maps_ok (set_ds ep d st)"
  using assms by (auto simp: maps_ok_def)

lemma ups_stale_fold_clear [simp]: "ups_stale_graphs (fold clear_failing ks st) = ups_stale_graphs st"
  by (induction ks arbitrary: st) auto

lemma maps_basic [maps_intros]:
  "keeps maps_ok (get_ds ep)" "keeps maps_ok (client_call env m p)"
  "keeps maps_ok (note_fallback_outcome k f)" "keeps maps_ok (note_primary_query_outcome k raw i)"
  "keeps maps_ok (modify (set_failing k))" "keeps maps_ok (modify (clear_failing k))"
  "keeps maps_ok (modify (\<lambda>st. st\<lparr>boot_pool_uid := u\<rparr>))"
  "keeps maps_ok (modify (\<lambda>st. st\<lparr>version := v\<rparr>))"
  "keeps maps_ok (modify (\<lambda>st. st\<lparr>is_virtual := b\<rparr>))"
  "keeps maps_ok (modify (\<lambda>st. st\<lparr>systemstats_stale_graphs := gs\<rparr>))"
  "keeps maps_ok (modify (store_disk_temp_graph g))" "keeps maps_ok (modify (drop_stale_ups_keys a))"
  "keeps maps_ok (modify (\<lambda>st. log_append (LogInfo k) (set_failing k (st\<lparr>smb_denied := True\<rparr>))))"
  by (auto simp: keeps_def get_ds_def client_call_def store_disk_temp_graph_def drop_stale_ups_keys_def
      elim: maps_frame)

lemma maps_put [maps_intros]:
  "ep \<notin> {EpPool, EpUps, EpAlerts} \<Longrightarrow> keyed_endpoint ep \<longrightarrow> record_map d \<Longrightarrow> keeps maps_ok (put_ds ep d)"
  by (auto simp: keeps_def put_ds_def intro: maps_set_ds)

lemma maps_put_alerts [maps_intros]: "keeps maps_ok (put_ds EpAlerts (aggregate_alerts a))"
  by (auto simp: keeps_def put_ds_def maps_ok_def keyed_endpoint_def)

lemma maps_for_items [maps_intros]:
  assumes "ep \<notin> {EpPool, EpUps, EpAlerts}" "keyed_endpoint ep"
  shows "keeps maps_ok (in_ds ep (for_items f))"
  by (rule keeps_in_ds [where Q = record_map])
    (use assms in \<open>auto intro: maps_record maps_set_ds keeps_for_items\<close>)

lemma maps_system_info [maps_intros]: "keeps maps_ok (in_ds EpSystemInfo m)"
  by (rule keeps_in_ds [where Q = "\<lambda>_. True"]) (auto simp: keeps_def keyed_endpoint_def intro: maps_set_ds)

text \<open>Reading an endpoint gives its record map.\<close>

lemma maps_seq_get:
  assumes "\<And>d. keyed_endpoint ep \<longrightarrow> record_map d \<Longrightarrow> keeps maps_ok (f d)"
  shows "keeps maps_ok (seq (get_ds ep) f)"
proof (rule keepsI)
  fix st
  assume st: "maps_ok st"
  then have "keeps maps_ok (f (ds st ep))" by (intro assms) (simp add: maps_record)
  with st show "maps_ok (snd (seq (get_ds ep) f st))" by (auto simp: seq_def get_ds_def keeps_def)
qed

lemma maps_seq_pure:
  assumes "\<And>x. r = Inr x \<Longrightarrow> keeps P (f x)"
  shows "keeps P (seq (pure r) f)"
  using assms by (cases r) (auto intro: keeps_intros)

lemma maps_parse [maps_intros]:
  assumes "ep \<notin> {EpPool, EpUps, EpAlerts}" "k \<noteq> []"
  shows "keeps maps_ok (parse_into ep (keyed_args k v e) raw)"
  unfolding parse_into_def
  by (intro maps_seq_get maps_seq_pure maps_put)
    (use assms record_map_parse [OF keyed_args_fields(4) [OF assms(2)]] in auto)

lemma maps_parse_system [maps_intros]: "keeps maps_ok (parse_into EpSystemInfo a raw)"
  unfolding parse_into_def
  by (intro maps_seq_get maps_seq_pure maps_put) (simp_all add: keyed_endpoint_def)

lemma maps_query [maps_intros]:
  assumes "ep \<notin> {EpPool, EpUps, EpAlerts}" "k \<noteq> []"
  shows "keeps maps_ok (refresh_query env ep m (keyed_args k v e))"
    "keeps maps_ok (tracked_query env ep m key (keyed_args k v e))"
  unfolding refresh_query_def tracked_query_def
  by (intro keeps_intros maps_intros assms)+

lemma maps_for_records [maps_intros]:
  "ep \<notin> {EpPool, EpUps, EpAlerts} \<Longrightarrow> keyed_endpoint ep \<Longrightarrow> keeps maps_ok (for_records ep f)"
  unfolding for_records_def by (intro keeps_intros maps_intros)

lemma maps_tasks:
  "keeps maps_ok (get_cloudsync env)" "keeps maps_ok (get_replication env)"
  "keeps maps_ok (get_rsync env)" "keeps maps_ok (get_snapshottask env)"
  "keeps maps_ok (get_cronjob env)" "keeps maps_ok (get_scrub env)" "keeps maps_ok (get_service env)"
  "keeps maps_ok (get_vm env)" "keeps maps_ok (get_app env)" "keeps maps_ok (get_certificates env)"
  "keeps maps_ok (get_interface env)"
  unfolding get_cloudsync_def get_replication_def get_rsync_def get_snapshottask_def get_cronjob_def
    get_scrub_def get_service_def get_vm_def get_app_def get_certificates_def get_interface_def
  by (intro keeps_intros maps_intros; simp add: keyed_endpoint_def)+

lemma maps_container: "keeps maps_ok (get_container env)"
  unfolding get_container_def detect_version_def compute_container_v26_def compute_container_legacy_def
  by (intro keeps_intros maps_intros; simp add: keyed_endpoint_def)

lemma maps_directory: "keeps maps_ok (get_directoryservices env)"
proof -
  have parsed: "record_map d" if "parse_api (keyed_args ''id'' v e) [] raw = Inr d" for v e raw d
    using record_map_parse [of "keyed_args ''id'' v e" "''id''" "[]"] that by simp
  show ?thesis
    unfolding get_directoryservices_def directory_status_def
    by (intro keeps_intros maps_intros maps_seq_pure; simp add: keyed_endpoint_def parsed)
qed

lemma maps_flat:
  "keeps maps_ok (get_alerts env)" "keeps maps_ok (get_update env)" "keeps maps_ok (get_arc env)"
  unfolding get_alerts_def get_update_def get_arc_def
  by (intro keeps_intros maps_intros keeps_arc_readings; simp add: keyed_endpoint_def)+

lemma maps_smb: "keeps maps_ok (get_smb env)"
  unfolding get_smb_def latch_smb_denied_def store_smb_def
  by (intro keeps_intros maps_intros keeps_smb_query; simp add: keyed_endpoint_def)

section \<open>UPS\<close>

lemma maps_ups_result [maps_intros]: "keeps maps_ok (apply_ups_graph_result g r)"
  unfolding apply_ups_graph_result_def by (intro keeps_intros maps_intros)

lemma maps_query_ups [maps_intros]: "keeps maps_ok (query_ups_graphs env gs)"
  by (induction env gs rule: query_ups_graphs.induct) (auto intro!: keeps_intros maps_intros)

lemma ups_values_stale:
  assumes "list_all (\<lambda>g. has_key ups (PStr (ups_field g))) stale"
    and "fold apply_ups_value gvs (ups, stale) = (ups', stale')"
  shows "list_all (\<lambda>g. has_key ups' (PStr (ups_field g))) stale'"
proof -
  have "case fold apply_ups_value gvs (ups, stale) of
      (u, s) \<Rightarrow> list_all (\<lambda>g. has_key u (PStr (ups_field g))) s"
    by (rule fold_invariant)
      (use assms(1) in \<open>auto simp: apply_ups_value_def list_all_iff has_key_def split: option.splits if_splits\<close>)
  with assms(2) show ?thesis by simp
qed

lemma maps_publish_ups:
  "list_all (\<lambda>g. has_key ups (PStr (ups_field g))) stale \<Longrightarrow> keeps maps_ok (modify (publish_ups ups stale))"
  by (auto simp: keeps_def publish_ups_def maps_ok_def keyed_endpoint_def)

lemma all_cached_fields:
  "list_all (\<lambda>g. has_key ups (PStr (ups_field g))) (all_cached_ups_graphs ups)"
  by (simp add: all_cached_ups_graphs_def UPS_GRAPHS_def ups_field_def list_all_iff)

lemma maps_ups_discovery: "keeps maps_ok ups_discovery_failed"
proof -
  have "keeps maps_ok (modify (\<lambda>st. st\<lparr>ups_stale_graphs := all_cached_ups_graphs (ds st EpUps)\<rparr>))"
    using all_cached_fields by (auto simp: keeps_def maps_ok_def)
  then show ?thesis unfolding ups_discovery_failed_def by (intro keeps_intros maps_intros)
qed

lemma maps_refresh_ups: "keeps maps_ok (refresh_ups env available)"
proof -
  have publish: "keeps maps_ok (case fold apply_ups_value gvs (seed_ups previous available, []) of
      (ups, stale) \<Rightarrow> seq (modify (publish_ups ups stale)) (\<lambda>_. ret ups))" for gvs previous
    using ups_values_stale [of "seed_ups previous available" "[]" gvs]
    by (auto intro!: keeps_intros maps_publish_ups split: prod.splits)
  show ?thesis unfolding refresh_ups_def by (intro keeps_intros maps_intros publish)
qed

lemma maps_ups: "keeps maps_ok (get_ups env)"
  unfolding get_ups_def
  by (intro keeps_intros maps_intros maps_ups_discovery maps_refresh_ups maps_publish_ups) simp

section \<open>Disks and statistics\<close>

lemma record_map_set_temperature: "record_map d \<Longrightarrow> record_map (set_temperature u v d)"
  by (auto simp: set_temperature_def intro: records_dset split: option.splits pyval.splits)

lemma record_map_netdata:
  assumes "record_map d" "fold (apply_netdata_temp m) nts (d, r) = (d', r')"
  shows "record_map d'"
proof -
  have "record_map (fst (fold (apply_netdata_temp m) nts (d, r)))"
    by (rule fold_invariant [where P = "\<lambda>x. record_map (fst x)"])
      (use assms(1) in \<open>auto simp: apply_netdata_temp_def record_map_set_temperature split: option.splits\<close>)
  with assms(2) show ?thesis by simp
qed

lemma record_map_fallback: "record_map d \<Longrightarrow> record_map (fold (apply_fallback_temp ts) us d)"
  by (rule fold_invariant)
    (auto simp: apply_fallback_temp_def Let_def record_map_set_temperature split: option.splits)

lemma maps_fallback_disk [maps_intros]: "keeps maps_ok (fallback_disk_temperatures env us)"
  unfolding fallback_disk_temperatures_def
  by (intro maps_seq_get keeps_intros maps_intros frame_try; simp add: keyed_endpoint_def record_map_fallback)

lemma maps_disk: "keeps maps_ok (get_disk env)"
proof -
  have put: "keeps maps_ok (case fold (apply_netdata_temp m) nts (d, []) of (d', r) \<Rightarrow> seq (put_ds EpDisk d') (f r d'))"
    if "keyed_endpoint EpDisk \<longrightarrow> record_map d" "\<And>r d'. keeps maps_ok (f r d' ())" for m nts d f
    using that record_map_netdata [of d m nts "[]"]
    by (auto intro!: keeps_intros maps_intros simp: keyed_endpoint_def split: prod.splits)
  show ?thesis
    unfolding get_disk_def update_disk_temperatures_def disk_temps_from_netdata_def
      discover_disk_temp_graph_def disk_temps_of_answer_def
    by (intro put maps_seq_get keeps_intros maps_intros frame_try; simp add: keyed_endpoint_def)
qed

lemma maps_virtual [maps_intros]: "keeps maps_ok (apply_virtual_detection r)"
  unfolding apply_virtual_detection_def by (intro keeps_intros maps_intros)

lemma maps_systeminfo: "keeps maps_ok (get_systeminfo env)"
  unfolding get_systeminfo_def note_system_version_def by (intro keeps_intros maps_intros)

lemma maps_stat_graphs [maps_intros]: "keeps maps_ok (refresh_systemstat_graphs env gs)"
proof (induction env gs rule: refresh_systemstat_graphs.induct)
  case (2 env g gs)
  have "keeps maps_ok (apply_systemstat_result g (graph_call env g (recent_query env)))"
    unfolding apply_systemstat_result_def by (intro keeps_intros maps_intros)
  with 2 show ?case by (simp add: keeps_intros)
qed simp

lemma record_map_throughput:
  assumes "record_map d" "fold apply_throughput ts (d, b) = (d', b')"
  shows "record_map d'"
proof -
  have "record_map (fst (fold apply_throughput ts (d, b)))"
    by (rule fold_invariant [where P = "\<lambda>x. record_map (fst x)"])
      (use assms(1) in \<open>auto simp: apply_throughput_def split: option.splits pyval.splits intro: records_dset\<close>)
  with assms(2) show ?thesis by simp
qed

lemma maps_throughput [maps_intros]: "keeps maps_ok (refresh_interface_throughput env)"
proof -
  have put: "keeps maps_ok (case fold apply_throughput ts (d, False) of (d', b) \<Rightarrow> seq (put_ds EpInterface d') (f b))"
    if "keyed_endpoint EpInterface \<longrightarrow> record_map d" "\<And>b. keeps maps_ok (f b ())" for ts d f
    using that record_map_throughput [of d ts False]
    by (auto intro!: keeps_intros maps_intros simp: keyed_endpoint_def split: prod.splits)
  show ?thesis
    unfolding refresh_interface_throughput_def
    by (intro put maps_seq_get keeps_intros maps_intros frame_try; simp)
qed

lemma maps_systemstats: "keeps maps_ok (get_systemstats env)"
  unfolding get_systemstats_def detect_virtual_def
  by (intro keeps_intros maps_intros frame_try)

section \<open>Pools\<close>

lemma maps_dataset: "keeps maps_ok (get_dataset env)"
proof -
  have parsed: "record_map d'" if "parse_api (keyed_args ''id'' v e) d raw = Inr d'" "record_map d" for v e raw d d'
    using record_map_parse [of "keyed_args ''id'' v e" "''id''" d] that by simp
  have c: "record_map d" if "compute_dataset env st = (Inr d, st')" "maps_ok st" for st st' d
    using compute_dataset_cases [OF that(1)] parsed maps_record [OF that(2), of EpDataset]
    by (auto simp: keyed_endpoint_def)
  have k: "keeps maps_ok (compute_dataset env)"
    unfolding compute_dataset_def by (intro keeps_intros maps_intros)
  show ?thesis
  proof (rule keepsI)
    fix st
    assume st: "maps_ok st"
    obtain r st1 where r: "compute_dataset env st = (r, st1)" by fastforce
    have st1: "maps_ok st1" using keepsD [OF k st] r by simp
    show "maps_ok (snd (get_dataset env st))"
    proof (cases r)
      case (Inl e)
      with r st1 show ?thesis by (simp add: get_dataset_def seq_def)
    next
      case (Inr d)
      with c r st have "record_map d" by blast
      then have "maps_ok (set_ds EpDataset d st1)" using st1 by (intro maps_set_ds) simp_all
      then have "maps_ok (clear_failing KEY_DATASET_NOT_PUBLISHED (set_ds EpDataset d st1))"
        by (rule maps_frame) simp_all
      with Inr r show ?thesis by (simp add: get_dataset_def put_ds_def seq_def)
    qed
  qed
qed

lemma record_map_pool_errors: "record_map d \<Longrightarrow> record_map (apply_pool_errors d raw)"
proof -
  have step: "record_map (apply_pool_error x d)" if "record_map d" for x d
    using that by (auto simp: apply_pool_error_def Let_def intro: records_dset split: pyval.splits option.splits)
  assume "record_map d"
  then show ?thesis
    by (auto simp: apply_pool_errors_def split: pyval.split intro: fold_invariant step)
qed

lemma boot_plain: "plain_keyed boot_args ''guid''"
  by (simp add: boot_args_def keyed_args_def default_args_def plain_keyed_def)

lemma add_boot_pool_records:
  assumes "add_boot_pool env pools st = (Inr pools', st')" "record_map pools" "record_map (ds st EpPool)"
  shows "record_map pools'"
proof (cases "rpc env ''boot.get_state'' PNone")
  case (Inl e)
  with assms(1) show ?thesis by (simp add: add_boot_pool_def seq_def client_call_def)
next
  case (Inr raw)
  let ?boot = "with_boot_ids raw"
  show ?thesis
  proof (cases "get_uid ?boot (Some ''guid'') None None None")
    case None
    have "record_map (dset pools u v)" if "dget (ds st EpPool) u = Some v" for u v
      using records_dget [OF assms(3) that] records_dset [OF assms(2)] by auto
    with None Inr assms(1,2) show ?thesis
      by (auto simp: add_boot_pool_def carry_over_boot_pool_def seq_def client_call_def get_ds_def Let_def
          split: option.splits)
  next
    case (Some g)
    obtain d where d: "parse_api boot_args pools ?boot = Inr d" using parse_api_total [OF boot_plain] by blast
    then have "record_map d" using record_map_parse [OF boot_plain assms(2)] by blast
    with Some Inr d assms(1) show ?thesis
      by (auto simp: add_boot_pool_def seq_def client_call_def Let_def record_map_pool_errors)
  qed
qed

lemma build_pools_ok:
  assumes "build_pools env datasets raw st = (Inr pools, st')" "record_map (ds st EpPool)"
  shows "records capacity_ok pools"
proof -
  let ?a = "keyed_args ''guid'' POOL_VALS POOL_ENSURE_VALS"
  obtain p1 where p1: "parse_api ?a (ds st EpPool) raw = Inr p1"
    using parse_api_total [of ?a "''guid''"] by auto
  then have "record_map p1" using record_map_parse [of ?a "''guid''"] assms(2) by simp
  then have r1: "record_map (apply_pool_errors p1 raw)" by (rule record_map_pool_errors)
  obtain r2 st2 where b: "add_boot_pool env (apply_pool_errors p1 raw) st = (r2, st2)" by fastforce
  with assms(1) p1 obtain p2 where p2: "r2 = Inr p2"
    by (cases r2) (auto simp: build_pools_def seq_def get_ds_def)
  have "record_map p2" using add_boot_pool_records r1 assms(2) b p2 by blast
  then obtain stale p3 where p3: "capacity_loop datasets (is_failing st2 KEY_DATASET_QUERY) p2 = Inr (stale, p3)"
      "records capacity_ok p3" using capacity_loop_ok by blast
  with assms(1) p1 b p2 show ?thesis by (auto simp: build_pools_def seq_def get_ds_def)
qed

lemma maps_pool: "keeps maps_ok (get_pool env)"
proof (rule keepsI)
  fix st
  assume st: "maps_ok st"
  obtain r1 st1 where c: "compute_dataset env st = (r1, st1)" by fastforce
  have k: "keeps maps_ok (compute_dataset env)" "keeps maps_ok (build_pools env d raw)" for d raw
    unfolding compute_dataset_def build_pools_def add_boot_pool_def carry_over_boot_pool_def Let_def
    by (intro keeps_intros maps_intros)+
  have st1: "maps_ok st1" using keepsD [OF k(1) st] c by simp
  show "maps_ok (snd (get_pool env st))"
  proof (cases "\<exists>d raw. r1 = Inr d \<and> rpc env ''pool.query'' PNone = Inr raw \<and> \<not> malformed_pools raw")
    case False
    have "maps_ok (set_failing KEY_DATASET_NOT_PUBLISHED (noted KEY_POOL_QUERY True st1))"
      by (rule maps_frame [OF st1]) simp_all
    with False c st1 show ?thesis
      by (cases r1; cases "rpc env ''pool.query'' PNone")
        (auto simp: get_pool_def seq_def client_call_def get_ds_def)
  next
    case True
    then obtain d raw where dr: "r1 = Inr d" "rpc env ''pool.query'' PNone = Inr raw" "\<not> malformed_pools raw"
      by blast
    let ?st = "clear_failing KEY_DATASET_NOT_PUBLISHED (noted KEY_POOL_QUERY False st1)"
    obtain r2 st2 where b: "build_pools env d raw ?st = (r2, st2)" by fastforce
    have ok: "maps_ok ?st" by (rule maps_frame [OF st1]) simp_all
    then have st2: "maps_ok st2" using keepsD [OF k(2) [of d raw] ok] b by simp
    show ?thesis
    proof (cases r2)
      case (Inl e)
      with dr c b st2 show ?thesis by (simp add: get_pool_def seq_def client_call_def)
    next
      case (Inr pools)
      have "records capacity_ok pools"
        using build_pools_ok b Inr maps_record [OF ok, of EpPool] by (auto simp: keyed_endpoint_def)
      moreover have "record_map d"
        using compute_dataset_cases [OF c] dr(1) record_map_parse [of "keyed_args ''id'' DATASET_VALS []" "''id''"]
          maps_record [OF st, of EpDataset] by (auto simp: keyed_endpoint_def)
      ultimately have "maps_ok (set_ds EpPool pools (set_ds EpDataset d st2))"
        using st2 by (auto simp: maps_ok_def elim: records_mono)
      with Inr dr c b show ?thesis by (simp add: get_pool_def seq_def client_call_def put_ds_def)
    qed
  qed
qed

end
