(* ===== verification/Refreshes.thy ===== *)
theory Refreshes
  imports MapInv
begin

text \<open>
  \<open>TrueNASState\<close> as a state machine: its steps are the refreshes, each with an environment of its
  own, in any order.  The contract a refresh keeps is a locale; every handler is an instance.
\<close>

definition state_ok :: "truenas_state \<Rightarrow> bool" where
  "state_ok st \<longleftrightarrow> maps_ok st \<and> flags_ok False st"

text \<open>
  A refresh keeps the invariant and writes no endpoint but its own, however it ends.
\<close>

locale refresh_contract =
  fixes run :: "refresh_env \<Rightarrow> pydict refresh" and own :: "endpoint set"
  assumes keeps_maps: "keeps maps_ok (run env)"
    and keeps_flags: "keeps (flags_ok latched) (run env)"
    and keeps_others: "keeps (same_except own d) (run env)"
begin

lemma keeps_ok: "state_ok st \<Longrightarrow> state_ok (snd (run env st))"
  using keepsD [OF keeps_maps] keepsD [OF keeps_flags] by (simp add: state_ok_def)

lemma keeps_latch: "flags_ok True st \<Longrightarrow> flags_ok True (snd (run env st))"
  by (rule keepsD [OF keeps_flags])

lemma others: "ep \<notin> own \<Longrightarrow> ds (snd (run env st)) ep = ds st ep"
  using keepsD [OF keeps_others, of "ds st" st env] by (simp add: same_except_def)

lemma polls_ok: "state_ok st \<Longrightarrow> state_ok (fold (\<lambda>env s. snd (run env s)) envs st)"
  by (induction envs arbitrary: st) (auto intro: keeps_ok)

end

interpretation cloudsync: refresh_contract get_cloudsync "{EpCloudsync}"
  by unfold_locales (rule maps_tasks flags_tasks frame_tasks)+

interpretation replication: refresh_contract get_replication "{EpReplication}"
  by unfold_locales (rule maps_tasks flags_tasks frame_tasks)+

interpretation rsynctask: refresh_contract get_rsync "{EpRsynctask}"
  by unfold_locales (rule maps_tasks flags_tasks frame_tasks)+

interpretation snapshottask: refresh_contract get_snapshottask "{EpSnapshottask}"
  by unfold_locales (rule maps_tasks flags_tasks frame_tasks)+

interpretation cronjob: refresh_contract get_cronjob "{EpCronjob}"
  by unfold_locales (rule maps_tasks flags_tasks frame_tasks)+

interpretation scrub: refresh_contract get_scrub "{EpScrub}"
  by unfold_locales (rule maps_tasks flags_tasks frame_tasks)+

interpretation service: refresh_contract get_service "{EpService}"
  by unfold_locales (rule maps_tasks flags_tasks frame_tasks)+

interpretation vm: refresh_contract get_vm "{EpVm}"
  by unfold_locales (rule maps_tasks flags_tasks frame_tasks)+

interpretation app: refresh_contract get_app "{EpApp}"
  by unfold_locales (rule maps_tasks flags_tasks frame_tasks)+

interpretation certificate: refresh_contract get_certificates "{EpCertificate}"
  by unfold_locales (rule maps_tasks flags_tasks frame_tasks)+

interpretation iface: refresh_contract get_interface "{EpInterface}"
  by unfold_locales (rule maps_tasks flags_tasks frame_tasks)+

interpretation container: refresh_contract get_container "{EpContainer}"
  by unfold_locales (rule maps_container flags_container frame_container)+

interpretation dataset: refresh_contract get_dataset "{EpDataset}"
  by unfold_locales (rule maps_dataset flags_pools frame_pools)+

interpretation pool: refresh_contract get_pool "{EpPool, EpDataset}"
  by unfold_locales (rule maps_pool flags_pools frame_pools)+

interpretation directoryservices: refresh_contract get_directoryservices "{EpDirectoryservices}"
  by unfold_locales (rule maps_directory flags_services frame_services)+

interpretation alerts: refresh_contract get_alerts "{EpAlerts}"
  by unfold_locales (rule maps_flat flags_services frame_services)+

interpretation updates: refresh_contract get_update "{EpUpdate}"
  by unfold_locales (rule maps_flat flags_services frame_services)+

interpretation smb: refresh_contract get_smb "{EpSmb}"
  by unfold_locales (rule maps_smb flags_smb frame_services)+

interpretation arc: refresh_contract get_arc "{EpArc}"
  by unfold_locales (rule maps_flat flags_netdata frame_netdata)+

interpretation ups: refresh_contract get_ups "{EpUps}"
  by unfold_locales (rule maps_ups flags_netdata frame_netdata)+

interpretation disk: refresh_contract get_disk "{EpDisk}"
  by unfold_locales (rule maps_disk flags_disk frame_disk)+

interpretation systeminfo: refresh_contract get_systeminfo "{EpSystemInfo}"
  by unfold_locales (rule maps_systeminfo flags_systeminfo frame_systeminfo)+

interpretation systemstats: refresh_contract get_systemstats "{EpSystemInfo, EpInterface}"
  by unfold_locales (rule maps_systemstats flags_systemstats frame_systemstats)+

section \<open>The state machine\<close>

datatype operation =
    OpDataset | OpPool | OpCloudsync | OpReplication | OpRsync | OpSnapshottask | OpCronjob | OpArc
  | OpUps | OpService | OpVm | OpContainer | OpApp | OpCertificates | OpDirectoryservices | OpAlerts
  | OpInterface | OpScrub | OpSmb | OpUpdate | OpDisk | OpSysteminfo | OpSystemstats

fun run_operation :: "operation \<Rightarrow> refresh_env \<Rightarrow> pydict refresh" where
  "run_operation OpDataset = get_dataset"
| "run_operation OpPool = get_pool"
| "run_operation OpCloudsync = get_cloudsync"
| "run_operation OpReplication = get_replication"
| "run_operation OpRsync = get_rsync"
| "run_operation OpSnapshottask = get_snapshottask"
| "run_operation OpCronjob = get_cronjob"
| "run_operation OpArc = get_arc"
| "run_operation OpUps = get_ups"
| "run_operation OpService = get_service"
| "run_operation OpVm = get_vm"
| "run_operation OpContainer = get_container"
| "run_operation OpApp = get_app"
| "run_operation OpCertificates = get_certificates"
| "run_operation OpDirectoryservices = get_directoryservices"
| "run_operation OpAlerts = get_alerts"
| "run_operation OpInterface = get_interface"
| "run_operation OpScrub = get_scrub"
| "run_operation OpSmb = get_smb"
| "run_operation OpUpdate = get_update"
| "run_operation OpDisk = get_disk"
| "run_operation OpSysteminfo = get_systeminfo"
| "run_operation OpSystemstats = get_systemstats"

fun owned :: "operation \<Rightarrow> endpoint set" where
  "owned OpDataset = {EpDataset}" | "owned OpPool = {EpPool, EpDataset}"
| "owned OpCloudsync = {EpCloudsync}" | "owned OpReplication = {EpReplication}"
| "owned OpRsync = {EpRsynctask}" | "owned OpSnapshottask = {EpSnapshottask}"
| "owned OpCronjob = {EpCronjob}" | "owned OpArc = {EpArc}" | "owned OpUps = {EpUps}"
| "owned OpService = {EpService}" | "owned OpVm = {EpVm}" | "owned OpContainer = {EpContainer}"
| "owned OpApp = {EpApp}" | "owned OpCertificates = {EpCertificate}"
| "owned OpDirectoryservices = {EpDirectoryservices}" | "owned OpAlerts = {EpAlerts}"
| "owned OpInterface = {EpInterface}" | "owned OpScrub = {EpScrub}" | "owned OpSmb = {EpSmb}"
| "owned OpUpdate = {EpUpdate}" | "owned OpDisk = {EpDisk}" | "owned OpSysteminfo = {EpSystemInfo}"
| "owned OpSystemstats = {EpSystemInfo, EpInterface}"

inductive refresh_step :: "truenas_state \<Rightarrow> operation \<Rightarrow> truenas_state \<Rightarrow> bool" where
  refresh: "run_operation op env st = (r, st') \<Longrightarrow> refresh_step st op st'"

inductive reachable :: "truenas_state \<Rightarrow> bool" where
  initial: "reachable init_state"
| step: "reachable st \<Longrightarrow> refresh_step st op st' \<Longrightarrow> reachable st'"

inductive_cases refresh_stepE: "refresh_step st op st'"

lemmas contract_ok =
  cloudsync.keeps_ok replication.keeps_ok rsynctask.keeps_ok snapshottask.keeps_ok cronjob.keeps_ok
  scrub.keeps_ok service.keeps_ok vm.keeps_ok app.keeps_ok certificate.keeps_ok iface.keeps_ok
  container.keeps_ok dataset.keeps_ok pool.keeps_ok directoryservices.keeps_ok alerts.keeps_ok
  updates.keeps_ok smb.keeps_ok arc.keeps_ok ups.keeps_ok disk.keeps_ok systeminfo.keeps_ok
  systemstats.keeps_ok

lemmas contract_others =
  cloudsync.others replication.others rsynctask.others snapshottask.others cronjob.others
  scrub.others service.others vm.others app.others certificate.others iface.others
  container.others dataset.others pool.others directoryservices.others alerts.others
  updates.others smb.others arc.others ups.others disk.others systeminfo.others systemstats.others

lemma step_ok: "refresh_step st op st' \<Longrightarrow> state_ok st \<Longrightarrow> state_ok st'"
  by (elim refresh_stepE) (cases op; simp; metis contract_ok snd_conv)

lemma init_ok: "state_ok init_state"
proof -
  have "maps_ok init_state"
    by (auto simp: maps_ok_def init_state_def initial_ds_def keyed_endpoint_def split: endpoint.split)
  moreover have "flags_ok False init_state" by (simp add: flags_ok_def init_state_def)
  ultimately show ?thesis by (simp add: state_ok_def)
qed

lemma reachable_ok: "reachable st \<Longrightarrow> state_ok st"
  by (induction rule: reachable.induct) (auto intro: init_ok step_ok)

lemmas contract_latch =
  cloudsync.keeps_latch replication.keeps_latch rsynctask.keeps_latch snapshottask.keeps_latch
  cronjob.keeps_latch scrub.keeps_latch service.keeps_latch vm.keeps_latch app.keeps_latch
  certificate.keeps_latch iface.keeps_latch container.keeps_latch dataset.keeps_latch pool.keeps_latch
  directoryservices.keeps_latch alerts.keeps_latch updates.keeps_latch smb.keeps_latch arc.keeps_latch
  ups.keeps_latch disk.keeps_latch systeminfo.keeps_latch systemstats.keeps_latch

lemma step_latch: "refresh_step st op st' \<Longrightarrow> flags_ok True st \<Longrightarrow> flags_ok True st'"
  by (elim refresh_stepE) (cases op; simp; metis contract_latch snd_conv)

lemma step_others: "refresh_step st op st' \<Longrightarrow> ep \<notin> owned op \<Longrightarrow> ds st' ep = ds st ep"
  by (elim refresh_stepE) (cases op; simp; metis contract_others snd_conv insert_iff empty_iff)

section \<open>Properties of the reachable states\<close>

text \<open>
  C16: a refresh writes no endpoint but its own, whether it returns or raises: \<open>get_pool\<close> also
  writes the datasets it is computed from, \<open>get_systemstats\<close> also the interfaces.
\<close>

theorem refresh_writes_own:
  assumes "run_operation op env st = (r, st')" "ep \<notin> owned op"
  shows "ds st' ep = ds st ep"
  by (rule step_others [OF refresh [OF assms(1)] assms(2)])

theorem refresh_writes_own_witness:
  "ds (snd (get_pool boot_outage boot_state)) EpUps = []"
  using refresh_writes_own [of OpPool boot_outage boot_state _ _ EpUps]
  by (simp add: boot_state_def init_state_def initial_ds_def) (metis prod.collapse)

text \<open>
  C3: in every state the library can reach, a published pool is a record whose capacity figures
  are all unknown or consistent: \<open>0 \<le> available \<le> total = size\<close>, \<open>total > 0\<close>,
  \<open>allocated = total - available\<close>, and \<open>usage\<close> between 0 and 100.
\<close>

theorem pool_capacity_reachable:
  assumes "reachable st" "dget (ds st EpPool) u = Some v"
  shows "\<exists>r. v = PDict r \<and> capacity_ok r"
  using records_dget [OF _ assms(2)] reachable_ok [OF assms(1)] by (simp add: state_ok_def maps_ok_def)

text \<open>
  C2: in every reachable state, an endpoint is reported stale exactly when a fallback path of
  its own is failing (or, for \<open>ups\<close>, a graph is stale), the stale endpoints are among the eleven
  documented ones, and every tracked path is one of the classified keys.
\<close>

theorem stale_endpoints_exact:
  assumes "reachable st"
  shows "(ep \<in> set (stale_endpoints st) \<longleftrightarrow>
      (\<exists>key. is_failing st key \<and> fallback_endpoint key = Some ep) \<or> (ep = EpUps \<and> ups_stale_graphs st \<noteq> []))
    \<and> set (stale_endpoints st) \<subseteq> {EpPool, EpDataset, EpUps, EpDirectoryservices, EpAlerts, EpSmb,
        EpSystemInfo, EpInterface, EpScrub, EpService, EpVm}
    \<and> (\<forall>key. is_failing st key \<longrightarrow> known_key key)"
proof -
  have ok: "distinct (map fst (fallback_failing st))" "\<forall>(k, b) \<in> set (fallback_failing st). b \<and> known_key k"
    using reachable_ok [OF assms] by (auto simp: state_ok_def flags_ok_def list_all_iff)
  have fail: "is_failing st k \<longleftrightarrow> (k, True) \<in> set (fallback_failing st)" for k
    using ok(1) by (simp add: is_failing_def)
  have mem: "x \<in> set (stale_endpoints st) \<longleftrightarrow> (\<exists>k. is_failing st k \<and> fallback_endpoint k = Some x)
      \<or> (x = EpUps \<and> ups_stale_graphs st \<noteq> [])" for x
  proof
    assume "x \<in> set (stale_endpoints st)"
    then show "(\<exists>k. is_failing st k \<and> fallback_endpoint k = Some x) \<or> (x = EpUps \<and> ups_stale_graphs st \<noteq> [])"
      by (auto simp: stale_endpoints_def fail List.map_filter_def split: if_splits)
  next
    assume "(\<exists>k. is_failing st k \<and> fallback_endpoint k = Some x) \<or> (x = EpUps \<and> ups_stale_graphs st \<noteq> [])"
    then show "x \<in> set (stale_endpoints st)"
      using failing_stale by (auto simp: stale_endpoints_def)
  qed
  have "x \<in> snd ` set FALLBACK_KEY_ENDPOINTS" if "fallback_endpoint k = Some x" for k x
    using map_of_SomeD [of FALLBACK_KEY_ENDPOINTS k x] that by (force simp: fallback_endpoint_def)
  then have names: "x \<in> {EpPool, EpDataset, EpUps, EpDirectoryservices, EpAlerts, EpSmb,
        EpSystemInfo, EpInterface, EpScrub, EpService, EpVm}" if "x \<in> set (stale_endpoints st)" for x
    using that unfolding mem by (auto simp: FALLBACK_KEY_ENDPOINTS_def)
  show ?thesis using mem names ok(2) fail by blast
qed

text \<open>
  C15: once the server has refused \<open>smb.status\<close>, \<open>smb\<close> stays stale, \<open>get_smb\<close> returns the last
  count without a request and without touching the state, and no refresh lifts the refusal.
\<close>

theorem smb_refusal_latched:
  assumes "reachable st" "smb_denied st"
  shows "EpSmb \<in> set (stale_endpoints st) \<and> get_smb env st = (Inr (ds st EpSmb), st)
    \<and> (refresh_step st op st' \<longrightarrow> smb_denied st' \<and> ds st' EpSmb = ds st EpSmb)"
proof (intro conjI impI)
  have flags: "flags_ok True st"
    using reachable_ok [OF assms(1)] assms(2) by (simp add: state_ok_def flags_ok_def)
  then show "EpSmb \<in> set (stale_endpoints st)"
    using failing_stale [of st KEY_SMB_STATUS EpSmb] assms(2) by (simp add: flags_ok_def)
  show get: "get_smb env st = (Inr (ds st EpSmb), st)" for env
    using assms(2) by (simp add: get_smb_def get_ds_def)
  show "smb_denied st'" if "refresh_step st op st'"
    using step_latch [OF that flags] by (simp add: flags_ok_def)
  show "ds st' EpSmb = ds st EpSmb" if "refresh_step st op st'"
  proof (cases "op = OpSmb")
    case True
    with that get show ?thesis by (auto elim!: refresh_stepE)
  next
    case False
    then have "EpSmb \<notin> owned op" by (cases op) auto
    with that show ?thesis by (rule step_others)
  qed
qed

text \<open>
  C18: in every reachable state, a UPS graph is reported stale only while its field is in the
  published snapshot.
\<close>

theorem ups_stale_has_value:
  assumes "reachable st" "g \<in> set (ups_stale_graphs st)"
  shows "\<exists>v. sget (ds st EpUps) (ups_field g) = Some v"
  using reachable_ok [OF assms(1)] assms(2)
  by (auto simp: state_ok_def maps_ok_def list_all_iff has_key_def)

section \<open>Instances\<close>

text \<open>An environment from the answers it gives; everything else is answered by \<open>None\<close>.\<close>

definition answers :: "(string \<times> (py_exn + pyval)) list \<Rightarrow> refresh_env" where
  "answers as = \<lparr>rpc = (\<lambda>method params. case map_of as method of Some r \<Rightarrow> r | None \<Rightarrow> Inr PNone),
     enable_private_methods = Inr (), utc_now = 1700000000000000\<rparr>"

lemma reachable_run: "reachable st \<Longrightarrow> reachable (snd (run_operation op env st))"
  by (rule reachable.step, assumption, rule refresh, rule surjective_pairing)

definition boot_only :: refresh_env where
  "boot_only = answers
     [(''pool.query'', Inr (PList [])), (''pool.dataset.query'', Inr (PList [])),
      (''boot.get_state'', Inr (PDict [(PStr ''name'', PStr ''boot-pool''), (PStr ''size'', PInt 100),
         (PStr ''free'', PInt 30), (PStr ''allocated'', PInt 60)]))]"

definition after_boot :: truenas_state where
  "after_boot = snd (run_operation OpPool boot_only init_state)"

lemma after_boot_reachable: "reachable after_boot"
  unfolding after_boot_def by (rule reachable_run) (rule initial)

theorem pool_capacity_reachable_witness:
  "\<exists>r. dget (ds after_boot EpPool) (PStr ''boot-pool'') = Some (PDict r) \<and> capacity_ok r"
proof -
  have "dget (ds after_boot EpPool) (PStr ''boot-pool'') \<noteq> None" by code_simp
  then obtain v where v: "dget (ds after_boot EpPool) (PStr ''boot-pool'') = Some v" by blast
  from pool_capacity_reachable [OF after_boot_reachable v] v show ?thesis by blast
qed

theorem stale_endpoints_exact_witness: "EpDisk \<notin> set (stale_endpoints after_boot)"
  using stale_endpoints_exact [OF after_boot_reachable, of EpDisk] by auto

definition smb_refusal :: refresh_env where
  "smb_refusal = answers [(''smb.status'', Inl (TrueNAS (TrueNASCallError
     \<lparr>ce_message = PStr ''refused'', ce_code = PInt 1, ce_errname = PStr ''EACCES'',
       ce_reason = PNone, ce_data = PNone\<rparr>)))]"

definition after_refusal :: truenas_state where
  "after_refusal = snd (run_operation OpSmb smb_refusal init_state)"

theorem smb_refusal_latched_witness:
  "get_smb (answers [(''smb.status'', Inr (PList [PNone]))]) after_refusal
    = (Inr (ds after_refusal EpSmb), after_refusal)"
proof -
  have "reachable after_refusal" unfolding after_refusal_def by (rule reachable_run) (rule initial)
  moreover have "smb_denied after_refusal" by code_simp
  ultimately show ?thesis using smb_refusal_latched by blast
qed

definition ups_answer :: refresh_env where
  "ups_answer = answers
     [(''reporting.netdata_graphs'', Inr (PList [PDict [(PStr ''name'', PStr ''upsload'')]])),
      (''reporting.netdata_graph'', Inr (PList [PDict [(PStr ''aggregations'',
         PDict [(PStr ''mean'', PDict [(PStr ''load'', PInt 17)])])]]))]"

definition after_ups :: truenas_state where
  "after_ups = snd (run_operation OpUps (answers []) (snd (run_operation OpUps ups_answer init_state)))"

theorem ups_stale_has_value_witness: "\<exists>v. sget (ds after_ups EpUps) ''load'' = Some v"
proof -
  have "reachable after_ups"
    unfolding after_ups_def by (rule reachable_run, rule reachable_run, rule initial)
  moreover have "''upsload'' \<in> set (ups_stale_graphs after_ups)" by code_simp
  ultimately have "\<exists>v. sget (ds after_ups EpUps) (ups_field ''upsload'') = Some v"
    by (rule ups_stale_has_value)
  moreover have "ups_field ''upsload'' = ''load''" by code_simp
  ultimately show ?thesis by simp
qed

end
