(* ===== verification/TaskLaws.thy ===== *)
theory TaskLaws
  imports Refreshes
begin

text \<open>
  What the single-query endpoints promise: a tracked query is reported stale exactly when the
  cached snapshot was served, and the fields the handlers derive have the values they document.
\<close>

section \<open>Runs of the shared steps\<close>

lemma tracked_query_run:
  assumes "rpc env method PNone = Inr raw" "parse_api a (ds st ep) raw = Inr d"
  shows "tracked_query env ep method key a st
    = (Inr (), set_ds ep d (noted key (\<not> primary_usable ''id'' raw) st))"
  using assms
  by (simp add: tracked_query_def client_call_def parse_into_def get_ds_def put_ds_def seq_def)

lemma for_items_post:
  assumes "for_items f d = (Inr (), d')" "\<And>k r r'. f k r = (Inr (), r') \<Longrightarrow> Q r'"
  shows "records Q d'"
  using assms
  by (induction f d arbitrary: d' rule: for_items.induct) (auto split: prod.splits sum.splits)

lemma for_records_post:
  assumes "for_records ep f st = (Inr d, st')" "\<And>k r r'. f k r = (Inr (), r') \<Longrightarrow> Q r'"
  shows "d = ds st' ep \<and> records Q d"
proof -
  obtain res d1 where i: "for_items f (ds st ep) = (res, d1)" by fastforce
  with assms(1) have "res = Inr ()" "d = d1" "st' = set_ds ep d1 st"
    by (cases res; auto simp: for_records_def in_ds_def zoom_def seq_def get_ds_def)+
  with i for_items_post [of f "ds st ep" d1 Q] assms(2) show ?thesis by auto
qed

lemma seq_Inr: "seq m f st = (Inr x, st') \<Longrightarrow> \<exists>y st1. m st = (Inr y, st1) \<and> f y st1 = (Inr x, st')"
  by (auto simp: seq_def split: prod.splits sum.splits)

section \<open>Staleness\<close>

lemma distinct_noted: "distinct (map fst (fallback_failing st)) \<Longrightarrow> distinct (map fst (fallback_failing (noted k f st)))"
  by (simp add: tracking_defs distinct_update distinct_delete)

text \<open>The endpoint is stale when one of the paths routed to it is failing; the scrub tasks have one.\<close>

lemma scrub_stale:
  assumes "distinct (map fst (fallback_failing st))"
  shows "EpScrub \<in> set (stale_endpoints st) \<longleftrightarrow> is_failing st KEY_SCRUB_QUERY"
proof
  assume "EpScrub \<in> set (stale_endpoints st)"
  then obtain k where k: "(k, True) \<in> set (fallback_failing st)" "fallback_endpoint k = Some EpScrub"
    by (auto simp: stale_endpoints_def List.map_filter_def split: if_splits)
  from k(2) have "(k, EpScrub) \<in> set FALLBACK_KEY_ENDPOINTS" by (simp add: fallback_endpoint_def map_of_SomeD)
  then have "k = KEY_SCRUB_QUERY" by (auto simp: FALLBACK_KEY_ENDPOINTS_def)
  with k(1) assms show "is_failing st KEY_SCRUB_QUERY" by (simp add: is_failing_def)
qed (erule failing_stale, simp)

text \<open>
  C17: the scrub tasks are among \<open>stale_endpoints\<close> exactly when the cached ones were served: while
  they are, the snapshot is the previous one, otherwise its ids are those of the answer.
\<close>

theorem scrub_stale_iff_cached:
  assumes "rpc env ''pool.scrub.query'' PNone = Inr raw" "get_scrub env st = (r, st')"
    and "distinct (map fst (fallback_failing st))"
  shows "r = Inr (ds st' EpScrub)
    \<and> (if EpScrub \<in> set (stale_endpoints st') then ds st' EpScrub = ds st EpScrub
       else \<exists>xs. source_entries raw = Some xs \<and>
          (\<forall>u. dget (ds st' EpScrub) u \<noteq> None \<longleftrightarrow> (\<exists>x \<in> set xs. \<exists>v. uid_of ''id'' x = Some v \<and> same_key v u)))
    \<and> (EpScrub \<in> set (stale_endpoints st') \<longleftrightarrow>
         (case source_entries raw of None \<Rightarrow> True | Some xs \<Rightarrow> xs \<noteq> [] \<and> (\<forall>x \<in> set xs. uid_of ''id'' x = None)))"
proof -
  let ?a = "keyed_args ''id'' SCRUB_VALS []"
  have pk: "plain_keyed ?a ''id''" "pa_prune ?a" by simp_all
  obtain d where d: "parse_api ?a (ds st EpScrub) raw = Inr d" using parse_api_total [OF pk(1)] by blast
  have run: "r = Inr d" "st' = set_ds EpScrub d (noted KEY_SCRUB_QUERY (\<not> primary_usable ''id'' raw) st)"
    using assms(2) by (auto simp: get_scrub_def seq_def get_ds_def tracked_query_run [OF assms(1) d])
  have "distinct (map fst (fallback_failing st'))" using distinct_noted [OF assms(3)] by (simp add: run)
  then have stale: "EpScrub \<in> set (stale_endpoints st') \<longleftrightarrow> \<not> primary_usable ''id'' raw"
    by (simp add: scrub_stale) (simp add: run)
  show ?thesis
  proof (cases "primary_usable ''id'' raw")
    case False
    then have "parse_api ?a (ds st EpScrub) raw = Inr (ds st EpScrub)"
      by (intro parse_api_unusable [OF pk(1)]) (auto simp: primary_usable_iff seen_uids_empty split: option.splits)
    with d have "d = ds st EpScrub" by simp
    with False stale run show ?thesis by (auto simp: primary_usable_iff split: option.splits)
  next
    case True
    then obtain xs where xs: "source_entries raw = Some xs" "xs = [] \<or> (\<exists>x \<in> set xs. uid_of ''id'' x \<noteq> None)"
      by (auto simp: primary_usable_iff split: option.splits)
    have "dget d u \<noteq> None \<longleftrightarrow> (\<exists>x \<in> set xs. \<exists>v. uid_of ''id'' x = Some v \<and> same_key v u)" for u
    proof (cases "xs = []")
      case True
      with d xs show ?thesis by (simp add: parse_api_plain [OF pk(1)])
    next
      case False
      with xs have "seen_uids ''id'' xs \<noteq> []" by (auto simp: seen_uids_empty)
      from dget_parse_usable [OF pk xs(1) this d] show ?thesis
        using parse_fold_dom [of ?a "''id''" xs "ds st EpScrub" u] by (auto simp: set_seen_uids)
    qed
    with True stale run xs show ?thesis by auto
  qed
qed

theorem scrub_stale_iff_cached_witness:
  "EpScrub \<notin> set (stale_endpoints (snd (get_scrub (answers [(''pool.scrub.query'', Inr scrub_payload)]) init_state)))
    \<and> dget (ds (snd (get_scrub (answers [(''pool.scrub.query'', Inr scrub_payload)]) init_state)) EpScrub) (PInt 1) \<noteq> None"
proof -
  let ?env = "answers [(''pool.scrub.query'', Inr scrub_payload)]"
  have rpc: "rpc ?env ''pool.scrub.query'' PNone = Inr scrub_payload" by (simp add: answers_def)
  have "get_scrub ?env init_state = (fst (get_scrub ?env init_state), snd (get_scrub ?env init_state))" by simp
  note scrub_stale_iff_cached [OF rpc this]
  moreover have "distinct (map fst (fallback_failing init_state))" by (simp add: init_state_def)
  ultimately show ?thesis using scrub_entries scrub_uid by fastforce
qed

section \<open>Derived fields\<close>

lemma put_item_run [simp]: "put_item n v r = (Inr (), sset r n v)"
  by (simp add: put_item_def)

lemma item_or_run [simp]: "item_or n d r = (Inr (get_or r n d), r)"
  by (simp add: item_or_def)

lemma seq_item_or [simp]: "seq (item_or n d) f r = f (get_or r n d) r"
  by (simp add: seq_def)

lemma seq_put_item [simp]: "seq (put_item n v) f r = f () (sset r n v)"
  by (simp add: seq_def)

text \<open>
  Every cron job gets a non-empty display name: its description, else its command, else a
  label with its id.
\<close>

theorem cronjob_display_name:
  assumes "get_cronjob env st = (Inr d, st')" "dget d u = Some v"
  shows "\<exists>r c s. v = PDict r \<and> sget r ''display_name'' = Some (PStr (c # s))
    \<and> (stripped (get_or r ''description'' PNone) \<noteq> [] \<longrightarrow>
         sget r ''display_name'' = Some (PStr (stripped (get_or r ''description'' PNone))))"
proof -
  let ?Q = "\<lambda>r. \<exists>c s. sget r ''display_name'' = Some (PStr (c # s))
    \<and> (stripped (get_or r ''description'' PNone) \<noteq> [] \<longrightarrow>
         sget r ''display_name'' = Some (PStr (stripped (get_or r ''description'' PNone))))"
  have body: "?Q r'" if "cronjob_name k r = (Inr (), r')" for k r r'
    using that by (auto simp: cronjob_name_def neq_Nil_conv split: if_splits)
  from seq_Inr [OF assms(1) [unfolded get_cronjob_def]] obtain st1 where
    "for_records EpCronjob cronjob_name st1 = (Inr d, st')" by blast
  from for_records_post [OF this, of ?Q] body have "records ?Q d" by blast
  from records_dget [OF this assms(2)] show ?thesis by blast
qed

definition cron_answer :: refresh_env where
  "cron_answer = answers [(''cronjob.query'', Inr (PList [PDict [(PStr ''id'', PInt 7)]]))]"

lemma run_returns: "\<not> isl (fst m) \<Longrightarrow> m = (Inr (projr (fst m)), snd m)"
  by (cases m) (auto split: sum.splits)

theorem cronjob_display_name_witness:
  "\<exists>r c s. dget (projr (fst (get_cronjob cron_answer init_state))) (PInt 7) = Some (PDict r)
    \<and> sget r ''display_name'' = Some (PStr (c # s))"
proof -
  have "\<not> isl (fst (get_cronjob cron_answer init_state))" by code_simp
  note run = run_returns [OF this]
  have "dget (projr (fst (get_cronjob cron_answer init_state))) (PInt 7) \<noteq> None" by code_simp
  then obtain v where v: "dget (projr (fst (get_cronjob cron_answer init_state))) (PInt 7) = Some v" by blast
  from cronjob_display_name [OF run v] v show ?thesis by auto
qed

text \<open>
  The days until a certificate expires are never negative, and \<open>None\<close> exactly when its
  expiry date is unknown.
\<close>

theorem certificate_days_nonneg:
  assumes "get_certificates env st = (Inr d, st')" "dget d u = Some v"
  shows "\<exists>r w. v = PDict r \<and> sget r ''days_until_expiry'' = Some w
    \<and> (case get_or r ''until'' PNone of PDate us \<Rightarrow> \<exists>n. w = PInt n \<and> 0 \<le> n | _ \<Rightarrow> w = PNone)"
proof -
  let ?Q = "\<lambda>r. \<exists>w. sget r ''days_until_expiry'' = Some w
    \<and> (case get_or r ''until'' PNone of PDate us \<Rightarrow> \<exists>n. w = PInt n \<and> 0 \<le> n | _ \<Rightarrow> w = PNone)"
  have body: "?Q r'" if "certificate_expiry env r = (Inr (), r')" for r r'
    using that by (cases "get_or r ''until'' PNone") (auto simp: certificate_expiry_def)
  from seq_Inr [OF assms(1) [unfolded get_certificates_def]] obtain st1 where
    "for_records EpCertificate (\<lambda>_. certificate_expiry env) st1 = (Inr d, st')" by blast
  from for_records_post [OF this, of ?Q] body have "records ?Q d" by blast
  from records_dget [OF this assms(2)] show ?thesis by blast
qed

definition cert_answer :: refresh_env where
  "cert_answer = answers
     [(''certificate.query'', Inr (PList [PDict [(PStr ''name'', PStr ''web''), (PStr ''until'', PNone)]]))]"

theorem certificate_days_nonneg_witness:
  "\<exists>r w. dget (projr (fst (get_certificates cert_answer init_state))) (PStr ''web'') = Some (PDict r)
    \<and> sget r ''days_until_expiry'' = Some w"
proof -
  have "\<not> isl (fst (get_certificates cert_answer init_state))" by code_simp
  note run = run_returns [OF this]
  have "dget (projr (fst (get_certificates cert_answer init_state))) (PStr ''web'') \<noteq> None" by code_simp
  then obtain v where v: "dget (projr (fst (get_certificates cert_answer init_state))) (PStr ''web'') = Some v"
    by blast
  from certificate_days_nonneg [OF run v] v show ?thesis by auto
qed

text \<open>
  The fallback-only field \<open>job_state\<close> of a replication task is in no published record.
\<close>

theorem replication_job_state_dropped:
  assumes "get_replication env st = (Inr d, st')" "dget d u = Some v"
  shows "\<exists>r. v = PDict r \<and> sget r ''job_state'' = None"
proof -
  let ?Q = "\<lambda>r. sget r ''job_state'' = None"
  have body: "?Q r'" if "replication_state r = (Inr (), r')" for r r'
    using that by (auto simp: replication_state_def seq_def pop_item_def split: if_splits)
  from seq_Inr [OF assms(1) [unfolded get_replication_def]] obtain st1 where
    "for_records EpReplication (\<lambda>_. replication_state) st1 = (Inr d, st')" by blast
  from for_records_post [OF this, of ?Q] body have "records ?Q d" by blast
  from records_dget [OF this assms(2)] show ?thesis by blast
qed

definition replication_answer :: refresh_env where
  "replication_answer = answers [(''replication.query'', Inr (PList [PDict [(PStr ''id'', PInt 3),
     (PStr ''job'', PDict [(PStr ''state'', PStr ''SUCCESS'')])]]))]"

theorem replication_job_state_dropped_witness:
  "\<exists>r. dget (projr (fst (get_replication replication_answer init_state))) (PInt 3) = Some (PDict r)
    \<and> sget r ''job_state'' = None"
proof -
  have "\<not> isl (fst (get_replication replication_answer init_state))" by code_simp
  note run = run_returns [OF this]
  have "dget (projr (fst (get_replication replication_answer init_state))) (PInt 3) \<noteq> None" by code_simp
  then obtain v where v: "dget (projr (fst (get_replication replication_answer init_state))) (PInt 3) = Some v"
    by blast
  from replication_job_state_dropped [OF run v] v show ?thesis by auto
qed

section \<open>Two reactions to bad answers\<close>

text \<open>
  C39: the container endpoint drops every container when the query answers with something that
  is no list, and reports nothing stale: unlike the tracked endpoints it neither keeps the
  snapshot nor tracks the failure.
\<close>

theorem container_malformed_drops_all:
  assumes "version st = Some v" "\<not> is_list raw"
    and "rpc env (if version_ge_26 v then ''container.query'' else ''virt.instance.query'') PNone = Inr raw"
  shows "get_container env st = (Inr [], set_ds EpContainer [] st)"
proof -
  have e: "as_entries raw = []" using assms(2) by (cases raw) auto
  have p: "parse_api (keyed_args ''id'' vs es) d (PList []) = Inr []" for vs es d
    by (simp add: parse_api_plain [of _ "''id''"])
  show ?thesis
    using assms(1,3) e p
    by (auto simp: get_container_def detect_version_def compute_container_v26_def
        compute_container_legacy_def client_call_def parse_into_def get_ds_def put_ds_def
        for_records_def in_ds_def zoom_def seq_def Let_def set_ds_def split: if_splits)
qed

theorem container_malformed_drops_all_witness:
  "fst (get_container (answers []) (init_state\<lparr>version := Some (25, 4)\<rparr>)) = Inr []"
  using container_malformed_drops_all [of "init_state\<lparr>version := Some (25, 4)\<rparr>" "(25, 4)" PNone "answers []"]
  by (simp add: version_ge_26_def answers_def)

definition unnamed_service :: refresh_env where
  "unnamed_service = answers
     [(''service.query'', Inr (PList [PDict [(PStr ''id'', PInt 1), (PStr ''service'', PList [])]]))]"

text \<open>
  A service entry without a name whose \<open>service\<close> field is a list makes \<open>get_service\<close> raise
  a \<open>TypeError\<close> from the lookup of the display name, after the snapshot was replaced.
\<close>

theorem service_unhashable_raises:
  "fst (get_service unnamed_service init_state) = Inl (Builtin TypeError)
    \<and> dget (ds (snd (get_service unnamed_service init_state)) EpService) (PInt 1) \<noteq> None"
  by code_simp

end
