(* ===== verification/HelperLaws.thy ===== *)
theory HelperLaws
  imports Helpers
begin

text \<open>
  What the computations of \<open>domain/_helpers.py\<close> promise: the error totals count each leaf
  device once, a published temperature is a sane one, cpusets and version strings are read back
  as they are written, and the boot time does not move within its tolerance.
\<close>

section \<open>Error totals\<close>

text \<open>The leaf devices below a vdev, and what one counter sums to over them.\<close>

function vdev_leaves :: "pyval \<Rightarrow> pyval list" where
  "vdev_leaves vdev =
     (case vdev of
        PDict d \<Rightarrow> (case dget d (PStr ''children'') of
            Some (PList (c # cs)) \<Rightarrow> concat (map vdev_leaves (c # cs)) | _ \<Rightarrow> [vdev])
      | _ \<Rightarrow> [])"
  by pat_completeness auto
termination
  by (relation "measure size") (auto dest: size_child)

declare vdev_leaves.simps [simp del]

definition topology_leaves :: "pyval \<Rightarrow> pyval list" where
  "topology_leaves topology =
     concat (map (\<lambda>category. case category of PList vs \<Rightarrow> concat (map vdev_leaves vs) | _ \<Rightarrow> [])
       (dict_values topology))"

definition leaf_sum :: "string \<Rightarrow> pyval list \<Rightarrow> int" where
  "leaf_sum counter leaves = sum_list (map (\<lambda>l. as_int (field (field l ''stats'') counter)) leaves)"

lemma leaf_sum_simps [simp]:
  "leaf_sum c [] = 0"
  "leaf_sum c (l # ls) = as_int (field (field l ''stats'') c) + leaf_sum c ls"
  "leaf_sum c (ls @ ms) = leaf_sum c ls + leaf_sum c ms"
  by (simp_all add: leaf_sum_def)

definition plus_leaves :: "error_totals \<Rightarrow> pyval list \<Rightarrow> error_totals" where
  "plus_leaves t ls =
     t\<lparr>tot_read := tot_read t + leaf_sum ''read_errors'' ls,
       tot_write := tot_write t + leaf_sum ''write_errors'' ls,
       tot_checksum := tot_checksum t + leaf_sum ''checksum_errors'' ls\<rparr>"

lemma plus_leaves_simps [simp]:
  "plus_leaves t [] = t"
  "plus_leaves (plus_leaves t ls) ms = plus_leaves t (ls @ ms)"
  by (simp_all add: plus_leaves_def)

lemma fold_plus_leaves:
  "(\<And>x t. x \<in> set xs \<Longrightarrow> f x t = plus_leaves t (g x)) \<Longrightarrow>
    fold f xs t = plus_leaves t (concat (map g xs))"
  by (induction xs arbitrary: t) simp_all

lemma accumulate_leaf:
  "(case sget d ''stats'' of Some (PDict s) \<Rightarrow> add_stats (PDict s) t | _ \<Rightarrow> t)
    = plus_leaves t [PDict d]"
  by (auto simp: plus_leaves_def add_stats_def get_or_def split: option.splits pyval.splits)

lemma accumulate_vdev_leaves: "accumulate_vdev_errors v t = plus_leaves t (vdev_leaves v)"
proof (induction v arbitrary: t rule: vdev_leaves.induct)
  case (1 v)
  show ?case
  proof (cases "\<exists>d c cs. v = PDict d \<and> sget d ''children'' = Some (PList (c # cs))")
    case True
    then obtain d c cs where v: "v = PDict d" "sget d ''children'' = Some (PList (c # cs))" by blast
    have "fold accumulate_vdev_errors (c # cs) t = plus_leaves t (concat (map vdev_leaves (c # cs)))"
      by (rule fold_plus_leaves) (use 1 [OF v] in blast)
    with v show ?thesis
      by (simp add: accumulate_vdev_errors.simps [of "PDict d"] vdev_leaves.simps [of "PDict d"])
  next
    case False
    then show ?thesis
      by (subst accumulate_vdev_errors.simps, subst vdev_leaves.simps)
        (auto simp only: accumulate_leaf plus_leaves_simps
          split: pyval.split option.split list.split)
  qed
qed

text \<open>
  C31: the error totals of a pool are the sums over the leaf devices of its topology: a mirror's
  or raidz's own counters are not counted on top of its disks'.
\<close>

theorem topology_errors_leaves:
  "aggregate_topology_errors topology =
     (leaf_sum ''read_errors'' (topology_leaves topology),
      leaf_sum ''write_errors'' (topology_leaves topology),
      leaf_sum ''checksum_errors'' (topology_leaves topology))"
proof (cases topology)
  case (PDict d)
  let ?f = "\<lambda>category t. case category of PList vdevs \<Rightarrow> fold accumulate_vdev_errors vdevs t | _ \<Rightarrow> t"
  let ?g = "\<lambda>category. case category of PList vs \<Rightarrow> concat (map vdev_leaves vs) | _ \<Rightarrow> []"
  have "?f x t = plus_leaves t (?g x)" for x t
    using fold_plus_leaves [of _ accumulate_vdev_errors vdev_leaves t]
    by (simp add: accumulate_vdev_leaves split: pyval.split)
  then have "fold ?f (map snd d) zero_totals = plus_leaves zero_totals (concat (map ?g (map snd d)))"
    by (rule fold_plus_leaves)
  with PDict show ?thesis
    by (simp add: aggregate_topology_errors_def topology_leaves_def plus_leaves_def zero_totals_def Let_def)
qed (simp_all add: aggregate_topology_errors_def topology_leaves_def)

section \<open>Medians and temperatures\<close>

lemma set_num_insort: "set (num_insort x xs) = insert x (set xs)"
  by (induction xs) auto

lemma set_num_sort: "set (num_sort xs) = set xs"
  by (induction xs) (simp_all add: num_sort_def set_num_insort)

lemma length_num_insort: "length (num_insort x xs) = Suc (length xs)"
  by (induction xs) auto

lemma length_num_sort: "length (num_sort xs) = length xs"
  by (induction xs) (simp_all add: num_sort_def length_num_insort)

lemma num_sort_Nil [simp]: "num_sort xs = [] \<longleftrightarrow> xs = []"
  using set_num_sort [of xs] by (metis set_empty)

lemma num_le_Fin:
  "num_le (NFloat (Fin l)) x \<and> num_le x (NFloat (Fin u)) \<longleftrightarrow> (\<exists>q. num_exact x = Fin q \<and> l \<le> q \<and> q \<le> u)"
  by (cases "num_exact x") (auto simp: num_le_def num_less_def num_eq_def)

lemma sane_iff: "sane_temperature x \<longleftrightarrow> (\<exists>q. num_exact x = Fin q \<and> 0 \<le> q \<and> q \<le> 100)"
  unfolding sane_temperature_def by (rule num_le_Fin)

lemma to_float_between:
  assumes "0 \<le> x" "x \<le> of_int n" "n \<le> 2 ^ 53"
  shows "\<exists>y. to_float x = Fin y \<and> 0 \<le> y \<and> y \<le> of_int n"
proof -
  have n: "(0::int) \<le> n" using order_trans [OF assms(1,2)] by simp
  have "x \<le> of_int (2 ^ 53)" using assms(2) of_int_le_iff [of n "2 ^ 53", where 'a = rat] assms(3)
    by (meson order_trans)
  then have "to_float x = Fin (fl64 x)" by (rule to_float_bounded [rotated]) (use assms(1) in auto)
  moreover have "fl64 x \<le> of_int n"
    using fl64_mono [OF assms(2)] fl64_int [of n] assms(3) n by simp
  ultimately show ?thesis using fl64_nonneg [OF assms(1)] by simp
qed

text \<open>The midpoint of two numbers between 0 and 100 is one.\<close>

lemma num_float_small:
  assumes "num_exact x = Fin q" "0 \<le> q" "q \<le> 100"
  shows "num_float x = Inr (Fin q)"
  using assms
proof (cases x)
  case (NInt i)
  with assms have "q = of_int i" "\<bar>i\<bar> \<le> 2 ^ 53" by auto
  then show ?thesis using to_float_int [of i] NInt by simp
qed simp

lemma num_add_small:
  assumes "num_exact x = Fin p" "0 \<le> p" "p \<le> 100" "num_exact y = Fin q" "0 \<le> q" "q \<le> 100"
  shows "\<exists>s r. num_add x y = Inr s \<and> num_exact s = Fin r \<and> 0 \<le> r \<and> r \<le> 200"
proof (cases "(\<exists>i. x = NInt i) \<and> (\<exists>j. y = NInt j)")
  case True
  with assms show ?thesis by (auto simp: num_add_def num_lift_def)
next
  case False
  have "num_add x y = Inr (NFloat (to_float (p + q)))"
    using False num_float_small [OF assms(1-3)] num_float_small [OF assms(4-6)]
    by (cases x; cases y) (auto simp: num_add_def num_lift_def)
  moreover have "\<exists>r. to_float (p + q) = Fin r \<and> 0 \<le> r \<and> r \<le> of_int 200"
    by (rule to_float_between) (use assms in auto)
  ultimately show ?thesis by auto
qed

lemma num_half_small:
  assumes "num_exact s = Fin r" "0 \<le> r" "r \<le> 200"
  shows "\<exists>m. num_div s (NInt 2) = Inr m \<and> sane_temperature m"
proof -
  obtain y where y: "to_float (r / 2) = Fin y" "0 \<le> y" "y \<le> 100"
    using to_float_between [of "r / 2" 100] assms by auto
  have two: "to_float 2 = Fin 2" using to_float_int [of 2] by simp
  show ?thesis using assms(1) y two by (cases s) (auto simp: num_div_def sane_iff)
qed

lemma median_sane:
  assumes "xs \<noteq> []" "\<forall>x \<in> set xs. sane_temperature x"
  shows "\<exists>m. median xs = Inr m \<and> sane_temperature m"
proof -
  let ?s = "num_sort xs" let ?n = "length xs"
  have len: "length ?s = ?n" "0 < ?n" using assms(1) by (simp_all add: length_num_sort)
  have sane: "sane_temperature (?s ! i)" if "i < ?n" for i
    using nth_mem [of i ?s] that len assms(2) by (simp add: set_num_sort)
  show ?thesis
  proof (cases "?n mod 2 = 1")
    case True
    then show ?thesis using len sane [of "?n div 2"] by (simp add: median_def Let_def)
  next
    case False
    have "?n div 2 - 1 < ?n" "?n div 2 < ?n" using len(2) by linarith+
    then obtain p q where
      pq: "num_exact (?s ! (?n div 2 - 1)) = Fin p" "0 \<le> p" "p \<le> 100"
        "num_exact (?s ! (?n div 2)) = Fin q" "0 \<le> q" "q \<le> 100"
      using sane unfolding sane_iff by metis
    from num_add_small [OF this] num_half_small show ?thesis
      using False len assms(1) by (fastforce simp: median_def Let_def)
  qed
qed

definition temps_sane :: "(string \<times> pynum) list \<Rightarrow> bool" where
  "temps_sane temps = list_all (\<lambda>(k, v). sane_temperature v) temps"

lemma temps_sane_update: "temps_sane t \<Longrightarrow> sane_temperature m \<Longrightarrow> temps_sane (AList.update k m t)"
  unfolding temps_sane_def by (induction t) auto

lemma add_disk_temp_sane:
  assumes "temps_sane t" "add_disk_temp e t = Inr t'"
  shows "temps_sane t'"
proof (cases "\<exists>d. e = PDict d \<and> truthy (get_or d ''identifier'' PNone)")
  case True
  then obtain d vs where "e = PDict d" "truthy (get_or d ''identifier'' PNone)"
      and t': "(case filter sane_temperature vs of [] \<Rightarrow> Inr t
        | xs \<Rightarrow> res_map (\<lambda>m. AList.update (py_str (get_or d ''identifier'' PNone)) m t) (median xs)) = Inr t'"
    using assms(2) by (auto simp: add_disk_temp_def res_bind_Inr_iff)
  show ?thesis
  proof (cases "filter sane_temperature vs")
    case Nil
    with t' assms(1) show ?thesis by simp
  next
    case (Cons x xs)
    then have "\<forall>y \<in> set (x # xs). sane_temperature y"
      by (metis (mono_tags, lifting) mem_Collect_eq set_filter)
    then obtain m where "median (x # xs) = Inr m" "sane_temperature m"
      using median_sane [of "x # xs"] by blast
    with t' Cons show ?thesis using temps_sane_update [OF assms(1)] by auto
  qed
next
  case False
  with assms show ?thesis by (auto simp: add_disk_temp_def split: pyval.splits)
qed

text \<open>
  C32: whatever a netdata response holds, every disk temperature extracted from it lies between
  0 and 100 degrees.
\<close>

theorem disk_temps_sane:
  assumes "disk_temps_from_graph_data graph_data = Inr temps" "(disk, v) \<in> set temps"
  shows "num_le (NInt 0) v \<and> num_le v (NInt 100)"
proof -
  have "temps_sane temps"
    by (rule res_fold_invariant [OF assms(1) [unfolded disk_temps_from_graph_data_def]])
      (auto simp: temps_sane_def [of "[]"] intro: add_disk_temp_sane)
  then have "sane_temperature v" using assms(2) by (auto simp: temps_sane_def list_all_iff)
  then show ?thesis
    by (auto simp: sane_iff num_le_def num_less_def num_eq_def)
qed

theorem disk_temps_sane_witness:
  "num_le (NInt 0) (NFloat (Fin 42)) \<and> num_le (NFloat (Fin 42)) (NInt 100)"
proof (rule disk_temps_sane)
  show "disk_temps_from_graph_data [PDict [(PStr ''identifier'', PStr ''sda''),
      (PStr ''aggregations'', PDict [(PStr ''mean'',
         PDict [(PStr ''a'', PInt 40), (PStr ''b'', PInt 44), (PStr ''c'', PInt 900)])])]]
      = Inr [(''sda'', NFloat (Fin 42))]"
    by code_simp
qed simp

section \<open>Netdata means\<close>

text \<open>A graph item has a usable reading: a finite aggregated mean or a finite raw sample.\<close>

definition usable_reading :: "pyval \<Rightarrow> bool" where
  "usable_reading item =
     (list_ex is_finite_number (dict_values (mean_of_item item))
      \<or> (case field item ''data'' of
           PList points \<Rightarrow> list_ex (\<lambda>p. case p of PList (t # vs) \<Rightarrow> list_ex is_finite_number vs | _ \<Rightarrow> False) points
         | _ \<Rightarrow> False))"

lemma finite_numbers_Nil: "finite_numbers vs = [] \<longleftrightarrow> \<not> list_ex is_finite_number vs"
  by (induction vs) auto

lemma add_sample_not_Nil [simp]: "add_sample i v s \<noteq> []"
  by (cases s) (auto split: if_splits)

lemma fold_samples_Nil:
  "fold (\<lambda>(i, x) s. if is_finite_number x then add_sample i (the (as_num x)) s else s) ixs s = [] \<longleftrightarrow>
    s = [] \<and> (\<forall>(i, x) \<in> set ixs. \<not> is_finite_number x)"
  by (induction ixs arbitrary: s) (auto split: if_splits)

lemma ball_zip_snd:
  "length is = length xs \<Longrightarrow> (\<forall>(i, x) \<in> set (zip is xs). P x) \<longleftrightarrow> (\<forall>x \<in> set xs. P x)"
  by (induction "is" xs rule: list_induct2) auto

lemma add_point_Nil:
  "add_point p s = [] \<longleftrightarrow>
    s = [] \<and> \<not> (case p of PList (t # vs) \<Rightarrow> list_ex is_finite_number vs | _ \<Rightarrow> False)"
proof (cases "\<exists>t v vs. p = PList (t # v # vs)")
  case True
  then obtain t v vs where p: "p = PList (t # v # vs)" by blast
  have "(\<forall>(i, x) \<in> set (zip [0..<length (v # vs)] (v # vs)). \<not> is_finite_number x)
      \<longleftrightarrow> (\<forall>x \<in> set (v # vs). \<not> is_finite_number x)"
    by (rule ball_zip_snd) simp
  then show ?thesis
    by (simp only: p add_point_def pyval.case list.case fold_samples_Nil) (auto simp: list_ex_iff)
next
  case False
  then show ?thesis by (auto simp: add_point_def split: pyval.split list.split)
qed

lemma fold_add_point_Nil:
  "fold add_point ps s = [] \<longleftrightarrow> s = [] \<and>
    \<not> list_ex (\<lambda>p. case p of PList (t # vs) \<Rightarrow> list_ex is_finite_number vs | _ \<Rightarrow> False) ps"
  by (induction ps arbitrary: s) (auto simp: add_point_Nil)

lemma res_list_length: "res_list ms = Inr xs \<Longrightarrow> length xs = length ms"
proof (induction ms arbitrary: xs)
  case (Cons m ms)
  then show ?case by (cases m; cases "res_list ms") auto
qed simp

lemma raw_sample_values_Nil:
  assumes "raw_sample_values data = Inr vs"
  shows "vs = [] \<longleftrightarrow> \<not> (case data of PList points \<Rightarrow>
    list_ex (\<lambda>p. case p of PList (t # vs) \<Rightarrow> list_ex is_finite_number vs | _ \<Rightarrow> False) points | _ \<Rightarrow> False)"
proof (cases data)
  case (PList points)
  with assms have "length vs = length (fold add_point points [])"
    using res_list_length by (fastforce simp: raw_sample_values_def)
  then have "vs = [] \<longleftrightarrow> fold add_point points [] = []" by (metis length_0_conv)
  with PList show ?thesis by (simp add: fold_add_point_Nil)
qed (use assms in \<open>auto simp: raw_sample_values_def\<close>)

lemma item_values_Nil: "item_values item = Inr vs \<Longrightarrow> vs = [] \<longleftrightarrow> \<not> usable_reading item"
  using finite_numbers_Nil [of "dict_values (mean_of_item item)"]
    raw_sample_values_Nil [of "field item ''data''" vs]
  by (auto simp: item_values_def usable_reading_def split: list.splits)

text \<open>
  C33: the mean of a netdata graph is \<open>None\<close> only when its first series item holds no usable
  reading, neither an aggregated mean nor a raw sample.
\<close>

theorem netdata_mean_missing_iff:
  assumes "netdata_mean_value graph_data = Inr r"
  shows "r = None \<longleftrightarrow> (case first_item graph_data of None \<Rightarrow> True | Some item \<Rightarrow> \<not> usable_reading item)"
proof (cases "first_item graph_data")
  case None
  with assms show ?thesis by (auto simp: netdata_mean_value_def)
next
  case (Some item)
  with assms obtain vs where vs: "item_values item = Inr vs"
      "(if vs = [] then Inr None else res_map (Some \<circ> num_round_to 2) (py_mean vs)) = Inr r"
    by (auto simp: netdata_mean_value_def res_bind_Inr_iff)
  then have "r = None \<longleftrightarrow> vs = []"
    by (cases "py_mean vs") (auto split: if_splits)
  with Some item_values_Nil [OF vs(1)] show ?thesis by simp
qed

theorem netdata_mean_missing_iff_witness:
  "usable_reading (PDict [(PStr ''data'', PList [PList [PInt 0, PInt 0]])])"
proof -
  have "netdata_mean_value (PList [PDict [(PStr ''data'', PList [PList [PInt 0, PInt 0]])]])
      = Inr (Some (NFloat (Fin 0)))"
    by code_simp
  from netdata_mean_missing_iff [OF this] show ?thesis by simp
qed

section \<open>Decimal numerals inside strings\<close>

lemma length_nat_digits:
  assumes "0 \<le> n" "n < 10 ^ k" "0 < k"
  shows "length (nat_digits n) \<le> k"
  using assms
proof (induction n arbitrary: k rule: nat_digits.induct)
  case (1 n)
  show ?case
  proof (cases "n < 10")
    case True
    with 1 show ?thesis by (simp add: nat_digits.simps [of n])
  next
    case False
    then obtain j where k: "k = Suc j" "0 < j" using 1 by (cases k; cases "k - 1") auto
    have "n div 10 < 10 ^ j" using 1(3) k by (simp add: div_less_iff_less_mult mult.commute)
    with 1 False k show ?thesis by (subst nat_digits.simps) simp
  qed
qed

lemma parse_int_nat:
  assumes "0 \<le> i" "i < 10 ^ 9"
  shows "parse_int (int_str i) = Some i"
  using assms length_nat_digits [of i 9] by (intro parse_int_int_str) (simp add: int_str_def)

lemma int_str_nonneg: "0 \<le> i \<Longrightarrow> int_str i = nat_digits i"
  by (simp add: int_str_def)

lemma nat_digits_set: "0 \<le> i \<Longrightarrow> c \<in> set (nat_digits i) \<Longrightarrow> is_digit c"
  using nat_digits_correct by blast

lemma digit_chars:
  "is_digit c \<Longrightarrow> \<not> is_space c \<and> c \<noteq> CHR '','' \<and> c \<noteq> CHR ''-'' \<and> c \<noteq> CHR ''.''
    \<and> c \<noteq> CHR ''T'' \<and> c \<noteq> CHR ''S''"
  by (auto simp: is_digit_def is_space_def Let_def)

section \<open>Cpusets\<close>

text \<open>A cpuset as the kernel prints it: ranges of CPUs, a range of one CPU as its number.\<close>

definition cpu_range_str :: "int \<times> int \<Rightarrow> string" where
  "cpu_range_str r = (case r of (lo, hi) \<Rightarrow>
     if lo = hi then int_str lo else int_str lo @ ''-'' @ int_str hi)"

definition cpu_range_ok :: "int \<times> int \<Rightarrow> bool" where
  "cpu_range_ok r = (case r of (lo, hi) \<Rightarrow> 0 \<le> lo \<and> lo \<le> hi \<and> hi < 10 ^ 9)"

lemma split_first_append: "c \<notin> set a \<Longrightarrow> split_first c (a @ c # b) = (a, Some b)"
  by (induction a) auto

lemma split_first_absent: "c \<notin> set a \<Longrightarrow> split_first c a = (a, None)"
  by (induction a) auto

lemma strip_id: "s \<noteq> [] \<Longrightarrow> \<forall>c \<in> set s. \<not> is_space c \<Longrightarrow> strip s = s"
  using strip_by_id [of s is_space] by (simp add: strip_def strip_by_def)

lemma cpu_range_str_chars:
  assumes "cpu_range_ok r"
  shows "cpu_range_str r \<noteq> [] \<and> (\<forall>c \<in> set (cpu_range_str r). \<not> is_space c \<and> c \<noteq> CHR '','')"
proof -
  obtain lo hi where r: "r = (lo, hi)" by fastforce
  have "is_digit c \<or> c = CHR ''-''" if "c \<in> set (cpu_range_str r)" for c
    using that assms r nat_digits_set [of lo c] nat_digits_set [of hi c]
    by (auto simp: cpu_range_str_def cpu_range_ok_def int_str_nonneg split: if_splits)
  moreover have "\<not> is_space CHR ''-''" by (simp add: is_space_def)
  ultimately have "\<forall>c \<in> set (cpu_range_str r). \<not> is_space c \<and> c \<noteq> CHR '',''"
    using digit_chars by auto
  moreover have "cpu_range_str r \<noteq> []"
    using assms r by (auto simp: cpu_range_str_def cpu_range_ok_def int_str_nonneg)
  ultimately show ?thesis by blast
qed

lemma cpuset_part_range:
  assumes "cpu_range_ok (lo, hi)"
  shows "cpuset_part (cpu_range_str (lo, hi)) = hi - lo + 1"
proof -
  have b: "0 \<le> lo" "lo \<le> hi" "hi < 10 ^ 9" using assms by (auto simp: cpu_range_ok_def)
  have no_dash: "CHR ''-'' \<notin> set (int_str lo)"
    using nat_digits_set [of lo] digit_chars b by (auto simp: int_str_nonneg)
  have st: "strip (cpu_range_str (lo, hi)) = cpu_range_str (lo, hi)" "cpu_range_str (lo, hi) \<noteq> []"
    using cpu_range_str_chars [OF assms] strip_id by blast+
  have pi: "parse_int (int_str lo) = Some lo" "parse_int (int_str hi) = Some hi"
    using parse_int_nat b by simp_all
  show ?thesis
  proof (cases "lo = hi")
    case True
    then have "cpu_range_str (lo, hi) = int_str lo" by (simp add: cpu_range_str_def)
    with True st pi split_first_absent [OF no_dash] show ?thesis
      by (simp add: cpuset_part_def Let_def)
  next
    case False
    then have "cpu_range_str (lo, hi) = int_str lo @ CHR ''-'' # int_str hi"
      by (simp add: cpu_range_str_def)
    with b st pi show ?thesis
      by (simp add: cpuset_part_def split_first_append [OF no_dash] Let_def)
  qed
qed

lemma split_on_append: "c \<notin> set w \<Longrightarrow> split_on c (w @ c # s) = w # split_on c s"
  by (induction w) auto

lemma split_on_join:
  "ws \<noteq> [] \<Longrightarrow> \<forall>w \<in> set ws. c \<notin> set w \<Longrightarrow> split_on c (join [c] ws) = ws"
proof (induction ws)
  case (Cons w ws)
  show ?case
  proof (cases ws)
    case Nil
    with Cons.prems show ?thesis by (simp add: join_def split_on_absent)
  next
    case (Cons w' ws')
    have "join [c] (w # ws) = w @ c # join [c] ws" by (simp add: join_def Cons)
    with Cons.IH Cons.prems Cons show ?thesis by (simp add: split_on_append)
  qed
qed simp

lemma set_join: "set (join sep ws) \<subseteq> set sep \<union> (\<Union>w \<in> set ws. set w)"
  by (auto simp: join_def split: list.splits)

lemma fold_count: "fold (\<lambda>x n. n + f x) xs k = k + sum_list (map f xs)" for k :: int
  by (induction xs arbitrary: k) auto

text \<open>
  C36: a cpuset printed as ranges is counted back: the size is the number of CPUs in the ranges.
\<close>

theorem cpuset_size_ranges:
  assumes "rs \<noteq> []" "\<forall>r \<in> set rs. cpu_range_ok r"
  shows "cpuset_size (PStr (join '','' (map cpu_range_str rs))) = (\<Sum>(lo, hi) \<leftarrow> rs. hi - lo + 1)"
proof -
  let ?s = "join '','' (map cpu_range_str rs)"
  have split: "split_on CHR '','' ?s = map cpu_range_str rs"
    by (rule split_on_join) (use assms cpu_range_str_chars in auto)
  have "c = CHR '','' \<or> (\<exists>r \<in> set rs. c \<in> set (cpu_range_str r))" if "c \<in> set ?s" for c
    using that set_join [of "'',''" "map cpu_range_str rs"] by auto
  moreover have "\<not> is_space CHR '',''" by (simp add: is_space_def)
  ultimately have "\<forall>c \<in> set ?s. \<not> is_space c" using assms(2) cpu_range_str_chars by metis
  moreover have "?s \<noteq> []"
    using assms cpu_range_str_chars by (cases rs) (auto simp: join_def)
  ultimately have "strip ?s \<noteq> []" using strip_id by metis
  then have "cpuset_size (PStr ?s) = (\<Sum>r \<leftarrow> rs. cpuset_part (cpu_range_str r))"
    by (simp add: cpuset_size_def split fold_count o_def)
  also have "\<dots> = (\<Sum>(lo, hi) \<leftarrow> rs. hi - lo + 1)"
    using assms(2) by (intro arg_cong [of _ _ sum_list] map_cong) (auto simp: cpuset_part_range)
  finally show ?thesis .
qed

theorem cpuset_size_ranges_witness: "cpuset_size (PStr ''0-3,6'') = 5"
proof -
  have "join '','' (map cpu_range_str [(0, 3), (6, 6)]) = ''0-3,6''" by code_simp
  moreover have "\<forall>r \<in> set [(0, 3), (6, 6)]. cpu_range_ok r" by (simp add: cpu_range_ok_def)
  moreover have "(\<Sum>(lo, hi) \<leftarrow> [(0, 3), (6, 6)]. hi - lo + 1) = (5 :: int)" by simp
  ultimately show ?thesis using cpuset_size_ranges [of "[(0, 3), (6, 6)]"] by (metis list.distinct(1))
qed

section \<open>Versions\<close>

lemma contains_skip:
  "c \<notin> set u \<Longrightarrow> contains (c # n) (u @ v) = contains (c # n) v"
  by (induction u) auto

lemma contains_Cons_False: "\<not> contains n (x # xs) \<Longrightarrow> \<not> starts_with n (x # xs) \<and> \<not> contains n xs"
  by simp

lemma remove_sub_absent: "\<not> contains n s \<Longrightarrow> remove_sub n s = s"
proof (induction s)
  case Nil
  show ?case by (simp add: remove_sub.simps [of n])
next
  case (Cons x xs)
  then show ?case by (subst remove_sub.simps) simp
qed

lemma remove_sub_prefix: "n \<noteq> [] \<Longrightarrow> remove_sub n (n @ s) = remove_sub n s"
  by (cases n) (subst remove_sub.simps, simp)+

text \<open>Version numbers: what may follow one is not a further digit of it.\<close>

definition version_suffix :: "string \<Rightarrow> bool" where
  "version_suffix s =
     ((s = [] \<or> \<not> is_digit (hd s)) \<and> \<not> contains ''TrueNAS-'' s \<and> \<not> contains ''SCALE-'' s)"

definition version_prefixes :: "string list" where
  "version_prefixes = [[], ''TrueNAS-'', ''SCALE-'', ''TrueNAS-SCALE-'']"

lemma takeWhile_digits:
  assumes "\<forall>c \<in> set ds. is_digit c" "s = [] \<or> \<not> is_digit (hd s)"
  shows "takeWhile is_digit (ds @ s) = ds" "dropWhile is_digit (ds @ s) = s"
  using assms by (induction ds) (auto simp: takeWhile_eq_Nil_iff dropWhile_eq_self_iff)

lemma version_at_numbers:
  assumes a: "0 \<le> a" "a < 10 ^ 9" and b: "0 \<le> b" "b < 10 ^ 9" and s: "s = [] \<or> \<not> is_digit (hd s)"
  shows "version_at (nat_digits a @ ''.'' @ nat_digits b @ s) = Some (a, b)"
proof -
  let ?r = "''.'' @ nat_digits b @ s"
  have len: "length (nat_digits a) \<le> 9" "length (nat_digits b) \<le> 9"
    using length_nat_digits [of a 9] length_nat_digits [of b 9] a b by simp_all
  have A: "\<forall>c \<in> set (nat_digits a). is_digit c" "digits_val (nat_digits a) = a"
    and B: "\<forall>c \<in> set (nat_digits b). is_digit c" "digits_val (nat_digits b) = b"
    using nat_digits_correct a b by blast+
  have "?r = [] \<or> \<not> is_digit (hd ?r)" by (simp add: is_digit_def)
  from takeWhile_digits [OF A(1) this] takeWhile_digits [OF B(1) s] show ?thesis
    using len A(2) B(2) by (simp add: version_at_def Let_def Suc_le_eq)
qed

lemma search_version_here: "s \<noteq> [] \<Longrightarrow> version_at s = Some v \<Longrightarrow> search_version s = Some v"
  by (cases s) auto

text \<open>
  C37: a version string is read back: with either product prefix, or both, the major and minor
  numbers are those printed, whatever follows the minor number.
\<close>

theorem version_roundtrip:
  assumes "prefix \<in> set version_prefixes" "version_suffix s"
    and "0 \<le> major" "major < 10 ^ 9" "0 \<le> minor" "minor < 10 ^ 9"
  shows "parse_version_tuple (PStr (prefix @ int_str major @ ''.'' @ int_str minor @ s)) = (major, minor)"
proof -
  let ?v = "nat_digits major @ ''.'' @ nat_digits minor @ s"
  have digits: "CHR ''T'' \<notin> set (nat_digits n) \<and> CHR ''S'' \<notin> set (nat_digits n)" if "0 \<le> n" for n
    using nat_digits_set [OF that] digit_chars by blast
  have "\<not> contains ''TrueNAS-'' ?v" "\<not> contains ''SCALE-'' ?v"
    using contains_skip [of "CHR ''T''" "nat_digits major @ ''.'' @ nat_digits minor" "''rueNAS-''" s]
      contains_skip [of "CHR ''S''" "nat_digits major @ ''.'' @ nat_digits minor" "''CALE-''" s]
      digits assms(2,3,5) by (simp_all add: version_suffix_def)
  then have plain: "remove_sub ''TrueNAS-'' ?v = ?v" "remove_sub ''SCALE-'' ?v = ?v"
      "remove_sub ''TrueNAS-'' (''SCALE-'' @ ?v) = ''SCALE-'' @ ?v"
    using remove_sub_absent contains_skip [of "CHR ''T''" "''SCALE-''" "''rueNAS-''" ?v] by simp_all
  have "remove_sub ''SCALE-'' (remove_sub ''TrueNAS-'' (prefix @ ?v)) = ?v"
    using assms(1) plain remove_sub_prefix [of "''TrueNAS-''" "?v"]
      remove_sub_prefix [of "''TrueNAS-''" "''SCALE-'' @ ?v"] remove_sub_prefix [of "''SCALE-''" "?v"]
    unfolding version_prefixes_def by auto
  moreover have "search_version ?v = Some (major, minor)"
    using version_at_numbers [OF assms(3-6), of s] assms(2)
    by (intro search_version_here) (simp_all add: version_suffix_def)
  ultimately show ?thesis
    using assms by (simp add: parse_version_tuple_def int_str_nonneg)
qed

theorem version_roundtrip_witness:
  "parse_version_tuple (PStr (''TrueNAS-SCALE-'' @ int_str 25 @ ''.'' @ int_str 10 @ ''.0-BETA.1'')) = (25, 10)"
  by (rule version_roundtrip) (simp_all add: version_prefixes_def version_suffix_def is_digit_def)

section \<open>Boot times\<close>

lemma num_sub_self: "num_sub (NInt i) (NInt j) = Inr (NInt (i - j))"
  by (simp add: num_sub_def num_lift_def)

lemma stable_uptime_int:
  "stable_uptime_epoch (PInt p) up now tol =
     (if \<not> is_finite_number up then Inr p
      else res_map (\<lambda>n. if tol < \<bar>n - p\<bar> then n else p)
        (res_bind (num_sub (NInt now) (the (as_num up))) num_int))"
proof -
  have "num_less (NInt a) (num_abs (NInt b)) = (a < \<bar>b\<bar>)" for a b
    by (simp add: num_less_def num_abs_def del: of_int_abs)
  then show ?thesis
    by (cases "num_sub (NInt now) (the (as_num up))"; cases "num_int (projr (num_sub (NInt now) (the (as_num up))))")
      (auto simp: stable_uptime_epoch_def num_sub_self)
qed

text \<open>
  C38: the boot time is damped and then stable: a poll keeps the previous boot time or moves it
  by more than the tolerance, and repeating the poll on its own result keeps the result.
\<close>

theorem uptime_epoch_damped:
  assumes "stable_uptime_epoch (PInt p) up now tol = Inr e" "0 \<le> tol"
  shows "(e = p \<or> tol < \<bar>e - p\<bar>) \<and> stable_uptime_epoch (PInt e) up now tol = Inr e"
  using assms
  by (cases "res_bind (num_sub (NInt now) (the (as_num up))) num_int")
    (auto simp: stable_uptime_int split: if_splits)

theorem uptime_epoch_damped_witness:
  "stable_uptime_epoch (PInt 99000) (PFloat (Fin (1001 / 2))) 100000 300 = Inr 99499
    \<and> stable_uptime_epoch (PInt 99499) (PFloat (Fin (1001 / 2))) 100000 300 = Inr 99499"
proof -
  have "stable_uptime_epoch (PInt 99000) (PFloat (Fin (1001 / 2))) 100000 300 = Inr 99499"
    by code_simp
  from this uptime_epoch_damped [OF this] show ?thesis by simp
qed

end
