(* ===== verification/Client.thy ===== *)
theory Client
  imports Exceptions
begin

text \<open>
  The state of \<open>TrueNASClient\<close> (\<open>client.py\<close>) and its synchronous pieces: the tables of pending
  calls, reply hooks and subscriptions, the routing of one message, the detach of a connection,
  and what a reply means to its caller.  A connection and a queue are numbers, a future is named
  by the id of its call (one is created per id).  Messages are the decoded JSON values; what
  \<open>json.loads\<close> rejects never reaches the routing.  A queue holds everything ever put into it:
  reading it changes nothing else in the client.
\<close>

section \<open>State\<close>

type_synonym conn = nat
type_synonym queue_id = nat

datatype future = Unresolved | Resolved pydict | FailedWith truenas_error | CancelledFuture

datatype queue_item = Notification pydict | SUBSCRIPTION_TERMINATOR

record client =
  current_ws :: "conn option"
  next_id_value :: int
  pending_calls :: "int list"
  futures :: "int \<Rightarrow> future"
  reply_hooks :: "(int \<times> (queue_id \<times> string)) list"
  subscriptions :: "(string \<times> queue_id) list"
  subscription_events :: "(string \<times> string) list"
  reader_task :: "conn option"
  private_methods :: bool
  private_methods_ws :: "conn option"
  private_methods_warned :: bool
  queues :: "queue_id \<Rightarrow> queue_item list"
  registered :: "queue_id \<Rightarrow> string option"

definition JOB_TERMINAL_STATES :: "string list" where
  "JOB_TERMINAL_STATES = [''SUCCESS'', ''FAILED'', ''ABORTED'']"

definition JOB_MISSING_RETRY_LIMIT :: nat where "JOB_MISSING_RETRY_LIMIT = 5"

definition CLOSED_BY_CLIENT :: string where "CLOSED_BY_CLIENT = ''connection closed by the client''"

definition SET_OPTIONS :: string where "SET_OPTIONS = ''core.set_options''"

definition PRIVATE_METHODS_OPTION :: pyval where
  "PRIVATE_METHODS_OPTION = PDict [(PStr ''private_methods'', PBool True)]"

section \<open>Construction\<close>

text \<open>The URL \<open>__init__\<close> builds, or the \<open>ValueError\<close> on a host with a scheme or a path.\<close>

definition client_url :: "string \<Rightarrow> bool \<Rightarrow> int option \<Rightarrow> builtin_error + string" where
  "client_url host use_tls port =
     (if contains ''://'' host \<or> contains ''/'' host then Inl ValueError
      else Inr ((if use_tls then ''wss'' else ''ws'') @ ''://''
        @ (case port of None \<Rightarrow> host | Some p \<Rightarrow> host @ '':'' @ py_str (PInt p)) @ ''/api/current''))"

section \<open>Requests\<close>

definition normalize_params :: "pyval \<Rightarrow> pyval" where
  "normalize_params params =
     (case params of PNone \<Rightarrow> PList [] | PList xs \<Rightarrow> PList xs | v \<Rightarrow> PList [v])"

text \<open>What \<open>json.dumps\<close> accepts: a \<open>datetime\<close> is no JSON value, as a value or as a key.\<close>

fun json_serializable :: "pyval \<Rightarrow> bool" where
  "json_serializable (PDate _) = False"
| "json_serializable (PList xs) = list_all json_serializable xs"
| "json_serializable (PDict d) = list_all (\<lambda>(k, v). (case k of PDate _ \<Rightarrow> False | _ \<Rightarrow> json_serializable v)) d"
| "json_serializable _ = True"

definition unregister_call :: "int \<Rightarrow> 'a client_scheme \<Rightarrow> 'a client_scheme" where
  "unregister_call rpc_id c = c\<lparr>pending_calls := removeAll rpc_id (pending_calls c),
     reply_hooks := AList.delete rpc_id (reply_hooks c)\<rparr>"

text \<open>The part of \<open>_call_on_connection\<close> that registers a call; \<open>hook\<close> is the \<open>on_reply\<close> of \<open>subscribe\<close>.\<close>

definition register_call ::
  "(queue_id \<times> string) option \<Rightarrow> 'a client_scheme \<Rightarrow> int \<times> 'a client_scheme" where
  "register_call hook c =
     (let rpc_id = next_id_value c in
      (rpc_id, c\<lparr>next_id_value := rpc_id + 1, pending_calls := pending_calls c @ [rpc_id],
         reply_hooks := (case hook of None \<Rightarrow> reply_hooks c | Some h \<Rightarrow> AList.update rpc_id h (reply_hooks c))\<rparr>))"

definition set_future :: "int \<Rightarrow> future \<Rightarrow> 'a client_scheme \<Rightarrow> 'a client_scheme" where
  "set_future rpc_id f c = c\<lparr>futures := (futures c)(rpc_id := f)\<rparr>"

text \<open>Cancelling the task that awaits a future cancels the future, unless it is done.\<close>

definition cancel_future :: "int \<Rightarrow> 'a client_scheme \<Rightarrow> 'a client_scheme" where
  "cancel_future rpc_id c =
     (if futures c rpc_id = Unresolved then set_future rpc_id CancelledFuture c else c)"

section \<open>Detaching a connection\<close>

definition queue_put :: "queue_id \<Rightarrow> queue_item \<Rightarrow> 'a client_scheme \<Rightarrow> 'a client_scheme" where
  "queue_put q x c = c\<lparr>queues := (queues c)(q := queues c q @ [x])\<rparr>"

definition fail_pending_calls :: "string \<Rightarrow> 'a client_scheme \<Rightarrow> 'a client_scheme" where
  "fail_pending_calls message c =
     fold (\<lambda>rpc_id c. if futures c rpc_id = Unresolved
         then set_future rpc_id (FailedWith (TrueNASConnectionClosedError message DisconnectPhase)) c else c)
       (pending_calls c) c\<lparr>pending_calls := [], reply_hooks := []\<rparr>"

definition end_subscriptions :: "'a client_scheme \<Rightarrow> 'a client_scheme" where
  "end_subscriptions c =
     fold (\<lambda>q c. queue_put q SUBSCRIPTION_TERMINATOR c) (map snd (subscriptions c))
       c\<lparr>subscriptions := [], subscription_events := []\<rparr>"

text \<open>The reader task it returns is the \<open>reader_task\<close> before.\<close>

definition detach_connection_locked :: "string \<Rightarrow> 'a client_scheme \<Rightarrow> 'a client_scheme" where
  "detach_connection_locked message c =
     end_subscriptions (fail_pending_calls message
       (c\<lparr>current_ws := None, private_methods_ws := None, reader_task := None\<rparr>))"

definition teardown_connection :: "conn \<Rightarrow> string option \<Rightarrow> 'a client_scheme \<Rightarrow> 'a client_scheme" where
  "teardown_connection ws cause c =
     (if current_ws c \<noteq> Some ws then c
      else detach_connection_locked (case cause of None \<Rightarrow> ''connection lost'' | Some m \<Rightarrow> m) c)"

section \<open>Routing a message\<close>

text \<open>The hook of \<open>subscribe\<close>: it tracks the queue under the id of the reply.\<close>

definition register_subscription ::
  "queue_id \<Rightarrow> string \<Rightarrow> pydict \<Rightarrow> 'a client_scheme \<Rightarrow> 'a client_scheme" where
  "register_subscription queue event reply c =
     (case get_or reply ''result'' PNone of
        PStr sid \<Rightarrow> c\<lparr>subscriptions := AList.update sid queue (subscriptions c),
          subscription_events := AList.update sid event (subscription_events c),
          registered := (registered c)(queue := Some sid)\<rparr>
      | _ \<Rightarrow> c)"

definition handle_rpc_response ::
  "conn \<Rightarrow> int \<Rightarrow> pydict \<Rightarrow> 'a client_scheme \<Rightarrow> 'a client_scheme" where
  "handle_rpc_response ws msg_id candidate c =
     (if current_ws c \<noteq> Some ws then c
      else
        (let c' = unregister_call msg_id c in
         if msg_id \<notin> set (pending_calls c) \<or> futures c msg_id \<noteq> Unresolved then c'
         else set_future msg_id (Resolved candidate)
           (case map_of (reply_hooks c) msg_id of
              None \<Rightarrow> c'
            | Some (queue, event) \<Rightarrow> register_subscription queue event candidate c')))"

definition handle_subscription_notification ::
  "conn \<Rightarrow> string \<Rightarrow> pydict \<Rightarrow> 'a client_scheme \<Rightarrow> 'a client_scheme" where
  "handle_subscription_notification ws msg_id candidate c =
     (if current_ws c \<noteq> Some ws then c
      else (case map_of (subscriptions c) msg_id of
          None \<Rightarrow> c | Some queue \<Rightarrow> queue_put queue (Notification candidate) c))"

definition matches_subscription :: "string \<Rightarrow> string \<Rightarrow> bool" where
  "matches_subscription collection event_name =
     (collection = event_name
      \<or> (CHR '':'' \<in> set collection \<and> takeWhile (\<lambda>x. x \<noteq> CHR '':'') collection = event_name))"

fun queues_of :: "(string \<times> queue_id) list \<Rightarrow> string list \<Rightarrow> builtin_error + queue_id list" where
  "queues_of subs [] = Inr []"
| "queues_of subs (sub_id # ids) =
     (case map_of subs sub_id of
        None \<Rightarrow> Inl KeyError
      | Some q \<Rightarrow> res_map (\<lambda>qs. q # qs) (queues_of subs ids))"

definition get_matching_queues ::
  "conn \<Rightarrow> pyval \<Rightarrow> 'a client_scheme \<Rightarrow> builtin_error + queue_id list" where
  "get_matching_queues ws collection c =
     (case collection of
        PStr s \<Rightarrow>
          if current_ws c \<noteq> Some ws then Inr []
          else queues_of (subscriptions c)
                 (map fst (filter (\<lambda>(sub_id, event_name). matches_subscription s event_name)
                   (subscription_events c)))
      | _ \<Rightarrow> Inr [])"

definition deliver :: "queue_id list \<Rightarrow> pydict \<Rightarrow> 'a client_scheme \<Rightarrow> 'a client_scheme" where
  "deliver qs candidate c = fold (\<lambda>q c. queue_put q (Notification candidate) c) qs c"

text \<open>The second half of a collection notification: the queues not yet notified, each once.\<close>

fun deliver_new :: "queue_id list \<Rightarrow> queue_id list \<Rightarrow> pydict \<Rightarrow> 'a client_scheme \<Rightarrow> 'a client_scheme" where
  "deliver_new notified [] candidate c = c"
| "deliver_new notified (q # qs) candidate c =
     (if q \<in> set notified then deliver_new notified qs candidate c
      else deliver_new (q # notified) qs candidate (queue_put q (Notification candidate) c))"

definition is_collection_update :: "pydict \<Rightarrow> bool" where
  "is_collection_update candidate =
     (get_or candidate ''method'' PNone = PStr ''collection_update''
      \<and> is_dict (get_or candidate ''params'' PNone))"

datatype route_kind = RpcReply int | SubscriptionMessage string | CollectionMessage

text \<open>The dispatch of \<open>_route_message\<close>: \<open>isinstance(True, int)\<close> holds.\<close>

definition route_message :: "pydict \<Rightarrow> route_kind" where
  "route_message candidate =
     (case get_or candidate ''id'' PNone of
        PInt i \<Rightarrow> RpcReply i
      | PBool b \<Rightarrow> RpcReply (if b then 1 else 0)
      | PStr s \<Rightarrow> SubscriptionMessage s
      | _ \<Rightarrow> CollectionMessage)"

section \<open>Outcomes\<close>

text \<open>What \<open>_call_on_connection\<close> makes of the reply.\<close>

definition call_outcome :: "string \<Rightarrow> pydict \<Rightarrow> py_exn + pyval" where
  "call_outcome method response =
     (if truthy (get_or response ''error'' PNone)
      then Inl (TrueNAS (build_call_error (get_or response ''error'' PNone)))
      else (case sget response ''result'' of
          None \<Rightarrow> Inl (TrueNAS (TrueNASMalformedResponseError
                     (''response for '' @ str_repr method @ '' has no result'')))
        | Some v \<Rightarrow> Inr v))"

text \<open>The reply to the login, and to \<open>core.set_options\<close> at connect (an error is only logged).\<close>

definition login_outcome :: "pydict \<Rightarrow> py_exn + unit" where
  "login_outcome response =
     (if truthy (get_or response ''error'' PNone)
      then Inl (TrueNAS (build_call_error (get_or response ''error'' PNone)))
      else if get_or response ''result'' PNone \<noteq> PBool True
      then Inl (TrueNAS (TrueNASAuthenticationError ''TrueNAS rejected the API key''))
      else Inr ())"

definition log_private_methods_failure :: "'a client_scheme \<Rightarrow> 'a client_scheme" where
  "log_private_methods_failure c = c\<lparr>private_methods_warned := True\<rparr>"

definition option_reply :: "pydict \<Rightarrow> 'a client_scheme \<Rightarrow> 'a client_scheme" where
  "option_reply response c =
     (if truthy (get_or response ''error'' PNone) \<or> sget response ''result'' = None
      then log_private_methods_failure c else c)"

text \<open>How a request before the reader runs can end: a reply, a timeout, a lost connection, or
  another exception (a cancellation).\<close>

datatype transport = Reply pydict | NoReply | ConnectionLost string | OtherRaise builtin_error

definition request_before_reader :: "string \<Rightarrow> transport \<Rightarrow> py_exn + pydict" where
  "request_before_reader what outcome =
     (case outcome of
        Reply r \<Rightarrow> Inr r
      | NoReply \<Rightarrow> Inl (TrueNAS (TrueNASCallTimeoutError (''timed out while waiting for '' @ what @ '' response'')))
      | ConnectionLost s \<Rightarrow> Inl (TrueNAS (TrueNASConnectionClosedError s LoginPhase))
      | OtherRaise e \<Rightarrow> Inl (Builtin e))"

text \<open>\<open>_await_response\<close> on the messages received: the first dictionary with the id, if any.  A
  message is \<open>None\<close> when it is no text or no JSON.\<close>

fun await_response :: "int \<Rightarrow> pyval option list \<Rightarrow> pydict option" where
  "await_response rpc_id [] = None"
| "await_response rpc_id (Some (PDict d) # ms) =
     (if py_eq (get_or d ''id'' PNone) (PInt rpc_id) then Some d else await_response rpc_id ms)"
| "await_response rpc_id (_ # ms) = await_response rpc_id ms"

text \<open>\<open>_open_websocket\<close> on the outcomes of its two attempts.\<close>

datatype open_outcome = OpenOk | OpenFailed connect_exn | OpenRaised builtin_error

definition open_websocket :: "open_outcome \<Rightarrow> open_outcome \<Rightarrow> py_exn + unit" where
  "open_websocket first second =
     (case first of
        OpenOk \<Rightarrow> Inr ()
      | OpenRaised e \<Rightarrow> Inl (Builtin e)
      | OpenFailed x \<Rightarrow>
          if cx_kind x = OSTimeoutError then
            (case second of
               OpenOk \<Rightarrow> Inr ()
             | OpenRaised e \<Rightarrow> Inl (Builtin e)
             | OpenFailed y \<Rightarrow> Inl (TrueNAS (classify_connect_exception y)))
          else Inl (TrueNAS (classify_connect_exception x)))"

section \<open>Jobs\<close>

definition resolve_job_result :: "int \<Rightarrow> pydict \<Rightarrow> pyval \<Rightarrow> py_exn + pyval" where
  "resolve_job_result job_id job state =
     (if state = PStr ''SUCCESS'' then Inr (get_or job ''result'' PNone)
      else Inl (TrueNAS (build_call_error (PDict [(PStr ''message'',
        py_or (get_or job ''error'' PNone)
          (PStr (''job '' @ py_str (PInt job_id) @ '' ended with state '' @ py_str state)))]))))"

text \<open>\<open>jobs[0]\<close> for a truthy \<open>jobs\<close>, and its \<open>state\<close> as \<open>state in _JOB_TERMINAL_STATES\<close> reads it.\<close>

definition first_job :: "pyval \<Rightarrow> builtin_error + pyval" where
  "first_job jobs =
     (case jobs of
        PList (x # _) \<Rightarrow> Inr x
      | PStr (x # _) \<Rightarrow> Inr (PStr [x])
      | PDict d \<Rightarrow> (case dget d (PInt 0) of None \<Rightarrow> Inl KeyError | Some v \<Rightarrow> Inr v)
      | _ \<Rightarrow> Inl TypeError)"

definition job_state :: "pyval \<Rightarrow> builtin_error + (pydict \<times> pyval \<times> bool)" where
  "job_state jobs = res_bind (first_job jobs) (\<lambda>job.
     case job of
       PDict d \<Rightarrow>
         (let state = get_or d ''state'' PNone in
          if \<not> hashable state then Inl TypeError
          else Inr (d, state, state \<in> set (map PStr JOB_TERMINAL_STATES)))
     | _ \<Rightarrow> Inl AttributeError)"

text \<open>The loop on the answers of the successive \<open>core.get_jobs\<close> calls; \<open>None\<close> while it still polls.\<close>

fun poll_job :: "int \<Rightarrow> nat \<Rightarrow> (py_exn + pyval) list \<Rightarrow> (py_exn + pyval) option" where
  "poll_job job_id missing_count [] = None"
| "poll_job job_id missing_count (Inl e # answers) = Some (Inl e)"
| "poll_job job_id missing_count (Inr jobs # answers) =
     (if truthy jobs then
        (case job_state jobs of
           Inl e \<Rightarrow> Some (Inl (Builtin e))
         | Inr (job, state, terminal) \<Rightarrow>
             if terminal then Some (resolve_job_result job_id job state) else poll_job job_id 0 answers)
      else if JOB_MISSING_RETRY_LIMIT \<le> missing_count + 1
      then Some (Inl (TrueNAS (TrueNASMalformedResponseError (''job '' @ py_str (PInt job_id)
        @ '' did not appear in core.get_jobs after '' @ py_str (PInt (int (missing_count + 1))) @ '' attempts''))))
      else poll_job job_id (missing_count + 1) answers)"

definition wait_for_job :: "pyval \<Rightarrow> (py_exn + pyval) list \<Rightarrow> (py_exn + pyval) option" where
  "wait_for_job job_id answers =
     (case job_id of
        PInt i \<Rightarrow> poll_job i 0 answers
      | _ \<Rightarrow> Some (Inl (TrueNAS (TrueNASMalformedResponseError
               (''job=True expected an integer job id, got '' @ py_repr job_id)))))"

section \<open>Reading a subscription\<close>

text \<open>\<open>_drain_events\<close>: the events up to the terminator, and what stays in the queue.\<close>

fun drain_events :: "queue_item list \<Rightarrow> pydict list \<times> queue_item list" where
  "drain_events [] = ([], [])"
| "drain_events (SUBSCRIPTION_TERMINATOR # queue) = ([], queue)"
| "drain_events (Notification envelope # queue) =
     (case drain_events queue of (events, rest) \<Rightarrow> (envelope # events, rest))"

text \<open>
  \<open>get_subscription_events\<close>: \<open>arrived\<close> is the queue when it is read; with a timeout that is the
  moment the first item is there, and an empty queue when none came in time.
\<close>

definition get_subscription_events ::
  "string \<Rightarrow> bool \<Rightarrow> queue_item list \<Rightarrow> 'a client_scheme \<Rightarrow> builtin_error + pydict list \<times> queue_item list" where
  "get_subscription_events subscription_id timed arrived c =
     (if map_of (subscriptions c) subscription_id = None then Inl KeyError
      else if \<not> timed then Inr (drain_events arrived)
      else (case arrived of
          [] \<Rightarrow> Inr ([], [])
        | SUBSCRIPTION_TERMINATOR # queue \<Rightarrow> Inr ([], queue)
        | Notification envelope # queue \<Rightarrow>
            (case drain_events queue of (events, rest) \<Rightarrow> Inr (envelope # events, rest))))"

definition is_subscribed :: "string \<Rightarrow> 'a client_scheme \<Rightarrow> bool" where
  "is_subscribed subscription_id c = (map_of (subscriptions c) subscription_id \<noteq> None)"

end
