(* ===== verification/ClientSteps.thy ===== *)
theory ClientSteps
  imports Client
begin

text \<open>
  The operations of \<open>TrueNASClient\<close> (\<open>client.py\<close>) as a state machine.  A task runs one public
  operation; its state is the \<open>await\<close> it is suspended at.  One event runs one task or one reader
  from its \<open>await\<close> to the next: between two awaits nothing else runs, as in \<open>asyncio\<close>.
  \<open>self._lock\<close> is held across the awaits its \<open>async with\<close> encloses; a section that encloses none
  needs the lock free and is one event.  Who gets a free lock is left open.  The network is the
  argument of the events: what is received, whether a send or a login succeeds, when a timeout
  or a cancellation strikes.
\<close>

section \<open>Tasks and readers\<close>

text \<open>The callers of \<open>_call_on_connection\<close>, with what they go on with.\<close>

datatype caller =
    ForCall string pyval
  | ForSubscribe queue_id string
  | ForUnsubscribe "conn option" string
  | ForPrivateMethods conn

fun method_of :: "caller \<Rightarrow> string" where
  "method_of (ForCall method params) = method"
| "method_of (ForSubscribe queue event) = ''core.subscribe''"
| "method_of (ForUnsubscribe ws sid) = ''core.unsubscribe''"
| "method_of (ForPrivateMethods ws) = SET_OPTIONS"

fun params_of :: "caller \<Rightarrow> pyval" where
  "params_of (ForCall method params) = params"
| "params_of (ForSubscribe queue event) = PList [PStr event]"
| "params_of (ForUnsubscribe ws sid) = PList [PStr sid]"
| "params_of (ForPrivateMethods ws) = PList [PRIVATE_METHODS_OPTION]"

fun expected_ws :: "caller \<Rightarrow> conn option" where
  "expected_ws (ForUnsubscribe ws sid) = ws"
| "expected_ws (ForPrivateMethods ws) = Some ws"
| "expected_ws _ = None"

fun on_reply :: "caller \<Rightarrow> (queue_id \<times> string) option" where
  "on_reply (ForSubscribe queue event) = Some (queue, event)"
| "on_reply _ = None"

datatype outcome = Returned pyval | ReturnedQueue string queue_id | Raised py_exn

datatype task =
    NoTask
  | Opening
  | LoggingIn conn int
  | SettingOption conn int
  | ConnectCleanup conn py_exn
  | AwaitingLock caller
  | Sending caller conn int
  | Waiting caller conn int
  | TimedOut caller conn int
  | CallClosing caller conn int truenas_error
  | Forgetting "conn option" string outcome
  | AwaitingPrivateLock
  | Closing conn
  | AwaitingReader conn
  | Finished outcome

text \<open>A reader waits for a message, for the lock to route one (or the second half of one), or
  for the lock to tear its connection down.\<close>

datatype reader =
    NoReader
  | Reading
  | Routing pydict
  | RoutingUpdate pydict "queue_id list"
  | TearingDown "string option"
  | ReaderDone

record machine = client +
  lock :: "nat option"
  private_lock :: "nat option"
  tasks :: "nat \<Rightarrow> task"
  readers :: "conn \<Rightarrow> reader"
  open_sockets :: "conn list"
  next_ws :: conn
  next_queue :: queue_id

definition init_machine :: machine where
  "init_machine = \<lparr>current_ws = None, next_id_value = 1, pending_calls = [],
     futures = (\<lambda>_. Unresolved), reply_hooks = [], subscriptions = [], subscription_events = [],
     reader_task = None, private_methods = False, private_methods_ws = None,
     private_methods_warned = False, queues = (\<lambda>_. []), registered = (\<lambda>_. None),
     lock = None, private_lock = None, tasks = (\<lambda>_. NoTask), readers = (\<lambda>_. NoReader),
     open_sockets = [], next_ws = 0, next_queue = 0\<rparr>"

definition goto :: "nat \<Rightarrow> task \<Rightarrow> machine \<Rightarrow> machine" where
  "goto t s m = m\<lparr>tasks := (tasks m)(t := s)\<rparr>"

definition acquire :: "nat \<Rightarrow> machine \<Rightarrow> machine" where "acquire t m = m\<lparr>lock := Some t\<rparr>"

definition release :: "machine \<Rightarrow> machine" where "release m = m\<lparr>lock := None\<rparr>"

definition finish :: "nat \<Rightarrow> outcome \<Rightarrow> machine \<Rightarrow> machine" where "finish t o' = goto t (Finished o')"

section \<open>Sockets and readers\<close>

text \<open>\<open>task.cancel()\<close> on a reader: in the teardown it is waiting in \<open>finally\<close> already.\<close>

definition cancel_reader :: "conn \<Rightarrow> machine \<Rightarrow> machine" where
  "cancel_reader ws m = m\<lparr>readers := (readers m)(ws :=
     (case readers m ws of
        NoReader \<Rightarrow> NoReader | ReaderDone \<Rightarrow> ReaderDone | TearingDown _ \<Rightarrow> ReaderDone
      | _ \<Rightarrow> TearingDown None))\<rparr>"

definition drop_socket :: "conn \<Rightarrow> machine \<Rightarrow> machine" where
  "drop_socket ws m = m\<lparr>open_sockets := removeAll ws (open_sockets m)\<rparr>"

definition release_socket :: "conn \<Rightarrow> machine \<Rightarrow> machine" where
  "release_socket ws m = drop_socket ws (cancel_reader ws m)"

section \<open>\<open>connect\<close>\<close>

definition start_connect :: "nat \<Rightarrow> machine \<Rightarrow> machine" where
  "start_connect t m =
     (if current_ws m \<noteq> None then finish t (Returned PNone) m else goto t Opening (acquire t m))"

definition send_before_reader :: "machine \<Rightarrow> int \<times> machine" where
  "send_before_reader m = (next_id_value m, m\<lparr>next_id_value := next_id_value m + 1\<rparr>)"

definition connect_opened :: "nat \<Rightarrow> open_outcome \<Rightarrow> open_outcome \<Rightarrow> machine \<Rightarrow> machine" where
  "connect_opened t first second m =
     (case open_websocket first second of
        Inl e \<Rightarrow> finish t (Raised e) (release m)
      | Inr _ \<Rightarrow>
          (let ws = next_ws m;
               m = m\<lparr>next_ws := ws + 1, open_sockets := ws # open_sockets m\<rparr>
           in case send_before_reader m of (rpc_id, m) \<Rightarrow> goto t (LoggingIn ws rpc_id) m))"

definition attach :: "nat \<Rightarrow> conn \<Rightarrow> machine \<Rightarrow> machine" where
  "attach t ws m =
     (let m = m\<lparr>current_ws := Some ws\<rparr>;
          m = (if private_methods m then m\<lparr>private_methods_ws := Some ws\<rparr> else m);
          m = m\<lparr>reader_task := Some ws, readers := (readers m)(ws := Reading)\<rparr>
      in finish t (Returned PNone) (release m))"

definition connect_logged_in :: "nat \<Rightarrow> conn \<Rightarrow> transport \<Rightarrow> machine \<Rightarrow> machine" where
  "connect_logged_in t ws answer m =
     (case (case request_before_reader ''login'' answer of
              Inl e \<Rightarrow> Inl e | Inr response \<Rightarrow> login_outcome response) of
        Inl e \<Rightarrow> goto t (ConnectCleanup ws e) m
      | Inr _ \<Rightarrow>
          if private_methods m then
            (case send_before_reader m of (rpc_id, m) \<Rightarrow> goto t (SettingOption ws rpc_id) m)
          else attach t ws m)"

definition connect_option_set :: "nat \<Rightarrow> conn \<Rightarrow> transport \<Rightarrow> machine \<Rightarrow> machine" where
  "connect_option_set t ws answer m =
     (case request_before_reader SET_OPTIONS answer of
        Inl e \<Rightarrow> goto t (ConnectCleanup ws e) m
      | Inr response \<Rightarrow> attach t ws (option_reply response m))"

text \<open>The exception of a cancelled close replaces the one being handled.\<close>

definition connect_cleaned_up :: "nat \<Rightarrow> conn \<Rightarrow> py_exn \<Rightarrow> bool \<Rightarrow> machine \<Rightarrow> machine" where
  "connect_cleaned_up t ws e cancelled m =
     finish t (Raised (if cancelled then Builtin CancelledError else e)) (release (drop_socket ws m))"

section \<open>What the callers of \<open>_call_on_connection\<close> do with its result\<close>

definition untrack :: "queue_id \<Rightarrow> machine \<Rightarrow> machine" where
  "untrack queue m =
     (case registered m queue of
        None \<Rightarrow> m
      | Some sid \<Rightarrow>
          if map_of (subscriptions m) sid = Some queue
          then m\<lparr>subscriptions := AList.delete sid (subscriptions m),
                 subscription_events := AList.delete sid (subscription_events m)\<rparr>
          else m)"

definition subscribe_result :: "queue_id \<Rightarrow> string \<Rightarrow> conn \<Rightarrow> py_exn + pyval \<Rightarrow> machine \<Rightarrow> outcome" where
  "subscribe_result queue event ws res m =
     (case res of
        Inl e \<Rightarrow> Raised e
      | Inr (PStr sid) \<Rightarrow>
          if current_ws m \<noteq> Some ws
          then Raised (TrueNAS (TrueNASConnectionClosedError
                 (''connection closed while subscribing to '' @ str_repr event) CallPhase))
          else ReturnedQueue sid queue
      | Inr v \<Rightarrow> Raised (TrueNAS (TrueNASMalformedResponseError
                   (''core.subscribe returned non-string subscription id: '' @ py_repr v))))"

fun is_call_error :: "py_exn \<Rightarrow> bool" where
  "is_call_error (TrueNAS (TrueNASCallError _)) = True"
| "is_call_error _ = False"

fun is_rejected_option :: "py_exn \<Rightarrow> bool" where
  "is_rejected_option (TrueNAS (TrueNASCallError _)) = True"
| "is_rejected_option (TrueNAS (TrueNASMalformedResponseError _)) = True"
| "is_rejected_option _ = False"

fun returned :: "py_exn + pyval \<Rightarrow> outcome" where
  "returned (Inl e) = Raised e"
| "returned (Inr v) = Returned v"

definition option_sent :: "conn \<Rightarrow> machine \<Rightarrow> machine" where
  "option_sent ws m = (if current_ws m = Some ws then m\<lparr>private_methods_ws := Some ws\<rparr> else m)"

definition conclude :: "nat \<Rightarrow> caller \<Rightarrow> conn \<Rightarrow> py_exn + pyval \<Rightarrow> machine \<Rightarrow> machine" where
  "conclude t p ws res m =
     (case p of
        ForCall method params \<Rightarrow> finish t (returned res) m
      | ForSubscribe queue event \<Rightarrow>
          (case subscribe_result queue event ws res m of
             Raised e \<Rightarrow> finish t (Raised e) (untrack queue m)
           | o' \<Rightarrow> finish t o' m)
      | ForUnsubscribe expected sid \<Rightarrow>
          (case res of
             Inl e \<Rightarrow> if is_call_error e then finish t (Raised e) m
                       else goto t (Forgetting expected sid (Raised e)) m
           | Inr v \<Rightarrow> goto t (Forgetting expected sid (Returned PNone)) m)
      | ForPrivateMethods w \<Rightarrow>
          (let m' = m\<lparr>private_lock := None\<rparr> in
           case res of
             Inl e \<Rightarrow> if is_rejected_option e
                       then finish t (Returned PNone) (option_sent w (log_private_methods_failure m'))
                       else finish t (Raised e) m'
           | Inr v \<Rightarrow> finish t (Returned PNone) (option_sent w m')))"

section \<open>\<open>_call_on_connection\<close>\<close>

definition begin_call :: "nat \<Rightarrow> caller \<Rightarrow> machine \<Rightarrow> machine" where
  "begin_call t p m =
     (if expected_ws p \<noteq> None \<and> current_ws m \<noteq> expected_ws p
      then conclude t p 0 (Inl (TrueNAS (TrueNASConnectionClosedError
             (''connection closed before '' @ str_repr (method_of p) @ '' was sent'') CallPhase))) m
      else (case current_ws m of
          None \<Rightarrow> conclude t p 0 (Inl (TrueNAS (TrueNASConnectionError
                    ''not connected; call connect() first''))) m
        | Some ws \<Rightarrow>
            if \<not> json_serializable (normalize_params (params_of p))
            then conclude t p ws (Inl (Builtin TypeError)) (m\<lparr>next_id_value := next_id_value m + 1\<rparr>)
            else (case register_call (on_reply p) m of
                (rpc_id, m) \<Rightarrow> goto t (Sending p ws rpc_id) (acquire t m))))"

definition call_sent :: "nat \<Rightarrow> caller \<Rightarrow> conn \<Rightarrow> int \<Rightarrow> machine \<Rightarrow> machine" where
  "call_sent t p ws rpc_id m = goto t (Waiting p ws rpc_id) (release m)"

text \<open>\<open>_close_websocket_locked\<close>: it detaches and suspends in the close, or does nothing.\<close>

definition call_failed_locked ::
  "nat \<Rightarrow> caller \<Rightarrow> conn \<Rightarrow> int \<Rightarrow> string \<Rightarrow> truenas_error \<Rightarrow> machine \<Rightarrow> machine" where
  "call_failed_locked t p ws rpc_id message err m =
     (if current_ws m = Some ws
      then goto t (CallClosing p ws rpc_id err) (acquire t (detach_connection_locked message m))
      else conclude t p ws (Inl (TrueNAS err)) (unregister_call rpc_id (release m)))"

definition send_failed :: "nat \<Rightarrow> caller \<Rightarrow> conn \<Rightarrow> int \<Rightarrow> string \<Rightarrow> machine \<Rightarrow> machine" where
  "send_failed t p ws rpc_id send_error m =
     call_failed_locked t p ws rpc_id send_error (TrueNASConnectionClosedError send_error CallPhase)
       (unregister_call rpc_id m)"

definition send_raised :: "nat \<Rightarrow> caller \<Rightarrow> conn \<Rightarrow> int \<Rightarrow> builtin_error \<Rightarrow> machine \<Rightarrow> machine" where
  "send_raised t p ws rpc_id e m =
     conclude t p ws (Inl (Builtin e)) (release (unregister_call rpc_id m))"

definition call_answered :: "nat \<Rightarrow> caller \<Rightarrow> conn \<Rightarrow> int \<Rightarrow> machine \<Rightarrow> machine option" where
  "call_answered t p ws rpc_id m =
     (case futures m rpc_id of
        Resolved response \<Rightarrow>
          Some (conclude t p ws (call_outcome (method_of p) response) (unregister_call rpc_id m))
      | FailedWith e \<Rightarrow> Some (conclude t p ws (Inl (TrueNAS e)) (unregister_call rpc_id m))
      | _ \<Rightarrow> None)"

definition call_cancelled :: "nat \<Rightarrow> caller \<Rightarrow> conn \<Rightarrow> int \<Rightarrow> machine \<Rightarrow> machine" where
  "call_cancelled t p ws rpc_id m =
     conclude t p ws (Inl (Builtin CancelledError)) (unregister_call rpc_id (cancel_future rpc_id m))"

definition call_timed_out :: "nat \<Rightarrow> caller \<Rightarrow> conn \<Rightarrow> int \<Rightarrow> machine \<Rightarrow> machine" where
  "call_timed_out t p ws rpc_id m = goto t (TimedOut p ws rpc_id) (cancel_future rpc_id m)"

definition closed_after :: "caller \<Rightarrow> string" where
  "closed_after p = ''connection closed after '' @ str_repr (method_of p) @ '' timed out''"

definition close_timed_out :: "nat \<Rightarrow> caller \<Rightarrow> conn \<Rightarrow> int \<Rightarrow> machine \<Rightarrow> machine" where
  "close_timed_out t p ws rpc_id m =
     call_failed_locked t p ws rpc_id (closed_after p)
       (TrueNASCallTimeoutError (''timed out while waiting for response to '' @ str_repr (method_of p))) m"

text \<open>A cancellation while it waits for the lock: the detach runs without it.\<close>

definition timeout_cancelled :: "nat \<Rightarrow> caller \<Rightarrow> conn \<Rightarrow> int \<Rightarrow> machine \<Rightarrow> machine" where
  "timeout_cancelled t p ws rpc_id m =
     conclude t p ws (Inl (Builtin CancelledError)) (unregister_call rpc_id
       (if current_ws m = Some ws
        then release_socket ws (detach_connection_locked (closed_after p) m) else m))"

definition call_closed ::
  "nat \<Rightarrow> caller \<Rightarrow> conn \<Rightarrow> int \<Rightarrow> truenas_error \<Rightarrow> bool \<Rightarrow> machine \<Rightarrow> machine" where
  "call_closed t p ws rpc_id err cancelled m =
     conclude t p ws (Inl (if cancelled then Builtin CancelledError else TrueNAS err))
       (unregister_call rpc_id (release (release_socket ws m)))"

section \<open>\<open>subscribe\<close>, \<open>unsubscribe\<close>, \<open>enable_private_methods\<close>, \<open>close\<close>\<close>

definition start_subscribe :: "nat \<Rightarrow> string \<Rightarrow> machine \<Rightarrow> machine" where
  "start_subscribe t event m =
     (let queue = next_queue m in
      begin_call t (ForSubscribe queue event) (m\<lparr>next_queue := queue + 1\<rparr>))"

definition start_unsubscribe :: "nat \<Rightarrow> string \<Rightarrow> machine \<Rightarrow> machine" where
  "start_unsubscribe t sid m =
     (if map_of (subscriptions m) sid = None then finish t (Returned PNone) m
      else goto t (AwaitingLock (ForUnsubscribe (current_ws m) sid)) m)"

definition forget_subscription :: "nat \<Rightarrow> conn option \<Rightarrow> string \<Rightarrow> outcome \<Rightarrow> machine \<Rightarrow> machine" where
  "forget_subscription t ws sid o' m =
     finish t o'
       (if current_ws m \<noteq> ws then m
        else
          (let m' = m\<lparr>subscriptions := AList.delete sid (subscriptions m),
                      subscription_events := AList.delete sid (subscription_events m)\<rparr>
           in case map_of (subscriptions m) sid of
                None \<Rightarrow> m' | Some queue \<Rightarrow> queue_put queue SUBSCRIPTION_TERMINATOR m'))"

definition start_enable :: "nat \<Rightarrow> machine \<Rightarrow> machine" where
  "start_enable t m = goto t AwaitingPrivateLock (m\<lparr>private_methods := True\<rparr>)"

definition enable_locked :: "nat \<Rightarrow> machine \<Rightarrow> machine" where
  "enable_locked t m =
     (case current_ws m of
        None \<Rightarrow> finish t (Returned PNone) m
      | Some ws \<Rightarrow>
          if private_methods_ws m = Some ws then finish t (Returned PNone) m
          else goto t (AwaitingLock (ForPrivateMethods ws)) (m\<lparr>private_lock := Some t\<rparr>))"

definition start_close :: "nat \<Rightarrow> machine \<Rightarrow> machine" where
  "start_close t m =
     (case current_ws m of
        None \<Rightarrow> finish t (Returned PNone) m
      | Some ws \<Rightarrow> goto t (Closing ws) (acquire t (detach_connection_locked CLOSED_BY_CLIENT m)))"

definition close_done :: "nat \<Rightarrow> conn \<Rightarrow> machine \<Rightarrow> machine" where
  "close_done t ws m = goto t (AwaitingReader ws) (release m)"

definition close_finished :: "nat \<Rightarrow> conn \<Rightarrow> outcome \<Rightarrow> machine \<Rightarrow> machine" where
  "close_finished t ws o' m = finish t o' (release_socket ws m)"

definition close_cancelled :: "nat \<Rightarrow> conn \<Rightarrow> machine \<Rightarrow> machine" where
  "close_cancelled t ws m =
     finish t (Raised (Builtin CancelledError)) (release (release_socket ws m))"

section \<open>The reader\<close>

definition set_reader :: "conn \<Rightarrow> reader \<Rightarrow> machine \<Rightarrow> machine" where
  "set_reader ws r m = m\<lparr>readers := (readers m)(ws := r)\<rparr>"

text \<open>A message that is no JSON object is skipped.\<close>

definition receive :: "conn \<Rightarrow> pyval option \<Rightarrow> machine \<Rightarrow> machine" where
  "receive ws message m =
     (case message of Some (PDict candidate) \<Rightarrow> set_reader ws (Routing candidate) m | _ \<Rightarrow> m)"

text \<open>
  A collection notification takes the lock once for its own collection and, if it is a
  \<open>collection_update\<close>, once more for that of its parameters.  A \<open>KeyError\<close> would end the reader.
\<close>

definition route_collection :: "conn \<Rightarrow> pydict \<Rightarrow> machine \<Rightarrow> machine" where
  "route_collection ws candidate m =
     (case get_matching_queues ws (get_or candidate ''collection'' PNone) m of
        Inl e \<Rightarrow> set_reader ws (TearingDown (Some [])) m
      | Inr qs \<Rightarrow>
          set_reader ws (if is_collection_update candidate then RoutingUpdate candidate qs else Reading)
            (deliver qs candidate m))"

definition route_update :: "conn \<Rightarrow> pydict \<Rightarrow> queue_id list \<Rightarrow> machine \<Rightarrow> machine" where
  "route_update ws candidate notified m =
     (case get_matching_queues ws (field (get_or candidate ''params'' PNone) ''collection'') m of
        Inl e \<Rightarrow> set_reader ws (TearingDown (Some [])) m
      | Inr qs \<Rightarrow> set_reader ws Reading (deliver_new notified qs candidate m))"

definition route :: "conn \<Rightarrow> pydict \<Rightarrow> machine \<Rightarrow> machine" where
  "route ws candidate m =
     (case route_message candidate of
        RpcReply rpc_id \<Rightarrow> set_reader ws Reading (handle_rpc_response ws rpc_id candidate m)
      | SubscriptionMessage sid \<Rightarrow>
          set_reader ws Reading (handle_subscription_notification ws sid candidate m)
      | CollectionMessage \<Rightarrow> route_collection ws candidate m)"

definition reader_teardown :: "conn \<Rightarrow> string option \<Rightarrow> machine \<Rightarrow> machine" where
  "reader_teardown ws cause m = set_reader ws ReaderDone (teardown_connection ws cause m)"

section \<open>Events\<close>

datatype client_event =
    Connect nat
  | Opened nat open_outcome open_outcome
  | LoginAnswer nat transport
  | OptionAnswer nat transport
  | ConnectCleaned nat bool
  | Call nat string pyval
  | Subscribe nat string
  | Unsubscribe nat string
  | EnablePrivate nat
  | PrivateLock nat
  | PrivateLockCancelled nat
  | LockForCall nat
  | LockCancelled nat
  | Sent nat
  | SendFailed nat string
  | SendRaised nat builtin_error
  | Answered nat
  | CallCancelled nat
  | Timeout nat
  | TimeoutLock nat
  | TimeoutCancelled nat
  | CallClosed nat bool
  | Forget nat
  | ForgetCancelled nat
  | Close nat
  | CloseDone nat
  | CloseCancelled nat
  | ReaderAwaited nat
  | AwaitCancelled nat
  | Receive conn "pyval option"
  | Route conn
  | Lost conn string
  | Crashed conn string
  | Teardown conn

text \<open>
  An operation whose first section takes the lock starts in a free lock.  A lost connection has
  closed its socket; an unexpected exception in the reader has not.
\<close>

inductive client_step :: "machine \<Rightarrow> client_event \<Rightarrow> machine \<Rightarrow> bool" where
  connect: "tasks m t = NoTask \<Longrightarrow> lock m = None \<Longrightarrow>
    client_step m (Connect t) (start_connect t m)"
| opened: "tasks m t = Opening \<Longrightarrow> client_step m (Opened t a b) (connect_opened t a b m)"
| login: "tasks m t = LoggingIn ws i \<Longrightarrow> client_step m (LoginAnswer t a) (connect_logged_in t ws a m)"
| option: "tasks m t = SettingOption ws i \<Longrightarrow> client_step m (OptionAnswer t a) (connect_option_set t ws a m)"
| cleaned: "tasks m t = ConnectCleanup ws x \<Longrightarrow>
    client_step m (ConnectCleaned t b) (connect_cleaned_up t ws x b m)"
| call: "tasks m t = NoTask \<Longrightarrow> lock m = None \<Longrightarrow>
    client_step m (Call t f ps) (begin_call t (ForCall f ps) m)"
| subscribe: "tasks m t = NoTask \<Longrightarrow> lock m = None \<Longrightarrow>
    client_step m (Subscribe t ev) (start_subscribe t ev m)"
| unsubscribe: "tasks m t = NoTask \<Longrightarrow> lock m = None \<Longrightarrow>
    client_step m (Unsubscribe t sid) (start_unsubscribe t sid m)"
| enable: "tasks m t = NoTask \<Longrightarrow> client_step m (EnablePrivate t) (start_enable t m)"
| private_lock: "tasks m t = AwaitingPrivateLock \<Longrightarrow> private_lock m = None \<Longrightarrow>
    client_step m (PrivateLock t) (enable_locked t m)"
| private_lock_cancelled: "tasks m t = AwaitingPrivateLock \<Longrightarrow>
    client_step m (PrivateLockCancelled t) (finish t (Raised (Builtin CancelledError)) m)"
| lock_for_call: "tasks m t = AwaitingLock p \<Longrightarrow> lock m = None \<Longrightarrow>
    client_step m (LockForCall t) (begin_call t p m)"
| lock_cancelled: "tasks m t = AwaitingLock p \<Longrightarrow>
    client_step m (LockCancelled t) (conclude t p 0 (Inl (Builtin CancelledError)) m)"
| sent: "tasks m t = Sending p ws i \<Longrightarrow> client_step m (Sent t) (call_sent t p ws i m)"
| send_failed: "tasks m t = Sending p ws i \<Longrightarrow> client_step m (SendFailed t x) (send_failed t p ws i x m)"
| send_raised: "tasks m t = Sending p ws i \<Longrightarrow> client_step m (SendRaised t er) (send_raised t p ws i er m)"
| answered: "tasks m t = Waiting p ws i \<Longrightarrow> call_answered t p ws i m = Some m' \<Longrightarrow>
    client_step m (Answered t) m'"
| call_cancelled: "tasks m t = Waiting p ws i \<Longrightarrow>
    client_step m (CallCancelled t) (call_cancelled t p ws i m)"
| timed_out: "tasks m t = Waiting p ws i \<Longrightarrow> client_step m (Timeout t) (call_timed_out t p ws i m)"
| timeout_lock: "tasks m t = TimedOut p ws i \<Longrightarrow> lock m = None \<Longrightarrow>
    client_step m (TimeoutLock t) (close_timed_out t p ws i m)"
| timeout_cancelled: "tasks m t = TimedOut p ws i \<Longrightarrow>
    client_step m (TimeoutCancelled t) (timeout_cancelled t p ws i m)"
| call_closed: "tasks m t = CallClosing p ws i er \<Longrightarrow>
    client_step m (CallClosed t b) (call_closed t p ws i er b m)"
| forget: "tasks m t = Forgetting wo sid oc \<Longrightarrow> lock m = None \<Longrightarrow>
    client_step m (Forget t) (forget_subscription t wo sid oc m)"
| forget_cancelled: "tasks m t = Forgetting wo sid oc \<Longrightarrow>
    client_step m (ForgetCancelled t) (finish t (Raised (Builtin CancelledError)) m)"
| close: "tasks m t = NoTask \<Longrightarrow> lock m = None \<Longrightarrow>
    client_step m (Close t) (start_close t m)"
| close_done: "tasks m t = Closing ws \<Longrightarrow> client_step m (CloseDone t) (close_done t ws m)"
| close_cancelled: "tasks m t = Closing ws \<Longrightarrow> client_step m (CloseCancelled t) (close_cancelled t ws m)"
| reader_awaited: "tasks m t = AwaitingReader ws \<Longrightarrow> readers m ws = ReaderDone \<Longrightarrow>
    client_step m (ReaderAwaited t) (close_finished t ws (Returned PNone) m)"
| await_cancelled: "tasks m t = AwaitingReader ws \<Longrightarrow>
    client_step m (AwaitCancelled t) (close_finished t ws (Raised (Builtin CancelledError)) m)"
| receive: "readers m ws = Reading \<Longrightarrow> client_step m (Receive ws msg) (receive ws msg m)"
| route: "readers m ws = Routing c \<Longrightarrow> lock m = None \<Longrightarrow> client_step m (Route ws) (route ws c m)"
| route_update: "readers m ws = RoutingUpdate c qs \<Longrightarrow> lock m = None \<Longrightarrow>
    client_step m (Route ws) (route_update ws c qs m)"
| lost: "readers m ws = Reading \<Longrightarrow>
    client_step m (Lost ws x) (set_reader ws (TearingDown (Some x)) (drop_socket ws m))"
| crashed: "readers m ws = Reading \<Longrightarrow>
    client_step m (Crashed ws x) (set_reader ws (TearingDown (Some x)) m)"
| teardown: "readers m ws = TearingDown cause \<Longrightarrow> lock m = None \<Longrightarrow>
    client_step m (Teardown ws) (reader_teardown ws cause m)"

text \<open>The machines reached by events the environment allows.\<close>

inductive client_reachable :: "(machine \<Rightarrow> client_event \<Rightarrow> bool) \<Rightarrow> machine \<Rightarrow> bool" for allowed where
  client_init: "client_reachable allowed init_machine"
| client_next: "client_reachable allowed m \<Longrightarrow> allowed m e \<Longrightarrow> client_step m e m'
    \<Longrightarrow> client_reachable allowed m'"

inductive_cases client_stepE: "client_step m e m'"
end
