(* ===== verification/ClientLaws.thy ===== *)
theory ClientLaws
  imports ClientSteps
begin

text \<open>
  Invariants of the client: the lock and its holder, the calls and their futures, the tables of
  a connection, subscriptions, the private-methods option, and open sockets.
\<close>

section \<open>Frames\<close>

lemma fold_keep: "(\<And>x c. P (f x c) = P c) \<Longrightarrow> P (fold f xs c) = P c"
  by (induction xs arbitrary: c) auto

lemma queue_put_frame [simp]:
  "current_ws (queue_put q x c) = current_ws c" "next_id_value (queue_put q x c) = next_id_value c"
  "pending_calls (queue_put q x c) = pending_calls c" "futures (queue_put q x c) = futures c"
  "reply_hooks (queue_put q x c) = reply_hooks c" "subscriptions (queue_put q x c) = subscriptions c"
  "subscription_events (queue_put q x c) = subscription_events c"
  "reader_task (queue_put q x c) = reader_task c" "private_methods (queue_put q x c) = private_methods c"
  "private_methods_ws (queue_put q x c) = private_methods_ws c" "registered (queue_put q x c) = registered c"
  "queues (queue_put q x c) = (queues c)(q := queues c q @ [x])"
  by (simp_all add: queue_put_def)

lemma queue_put_machine [simp]:
  "lock (queue_put q x m) = lock m" "private_lock (queue_put q x m) = private_lock m"
  "tasks (queue_put q x m) = tasks m" "readers (queue_put q x m) = readers m"
  "open_sockets (queue_put q x m) = open_sockets m" "next_ws (queue_put q x m) = next_ws m"
  "next_queue (queue_put q x m) = next_queue m"
  by (simp_all add: queue_put_def)

lemma end_subscriptions_frame [simp]:
  "current_ws (end_subscriptions c) = current_ws c" "next_id_value (end_subscriptions c) = next_id_value c"
  "pending_calls (end_subscriptions c) = pending_calls c" "futures (end_subscriptions c) = futures c"
  "reply_hooks (end_subscriptions c) = reply_hooks c" "subscriptions (end_subscriptions c) = []"
  "subscription_events (end_subscriptions c) = []"
  "reader_task (end_subscriptions c) = reader_task c" "private_methods (end_subscriptions c) = private_methods c"
  "private_methods_ws (end_subscriptions c) = private_methods_ws c" "registered (end_subscriptions c) = registered c"
  unfolding end_subscriptions_def by (subst fold_keep; simp)+

lemma end_subscriptions_machine [simp]:
  "lock (end_subscriptions m) = lock m" "private_lock (end_subscriptions m) = private_lock m"
  "tasks (end_subscriptions m) = tasks m" "readers (end_subscriptions m) = readers m"
  "open_sockets (end_subscriptions m) = open_sockets m" "next_ws (end_subscriptions m) = next_ws m"
  "next_queue (end_subscriptions m) = next_queue m"
  unfolding end_subscriptions_def by (subst fold_keep; simp)+

lemma fold_queue_put:
  "set (queues (fold (\<lambda>q c. queue_put q x c) qs c) q) = set (queues c q) \<union> (if q \<in> set qs then {x} else {})"
  by (induction qs arbitrary: c) auto

lemma end_subscriptions_queues:
  "set (queues (end_subscriptions c) q)
    = set (queues c q) \<union> (if q \<in> snd ` set (subscriptions c) then {SUBSCRIPTION_TERMINATOR} else {})"
  by (simp add: end_subscriptions_def fold_queue_put)

lemma set_future_frame [simp]:
  "futures (set_future i f c) = (futures c)(i := f)"
  "current_ws (set_future i f c) = current_ws c" "next_id_value (set_future i f c) = next_id_value c"
  "pending_calls (set_future i f c) = pending_calls c" "reply_hooks (set_future i f c) = reply_hooks c"
  "subscriptions (set_future i f c) = subscriptions c" "subscription_events (set_future i f c) = subscription_events c"
  "reader_task (set_future i f c) = reader_task c" "private_methods (set_future i f c) = private_methods c"
  "private_methods_ws (set_future i f c) = private_methods_ws c" "registered (set_future i f c) = registered c"
  "queues (set_future i f c) = queues c"
  by (simp_all add: set_future_def)

lemma set_future_machine [simp]:
  "lock (set_future i f m) = lock m" "private_lock (set_future i f m) = private_lock m"
  "tasks (set_future i f m) = tasks m" "readers (set_future i f m) = readers m"
  "open_sockets (set_future i f m) = open_sockets m" "next_ws (set_future i f m) = next_ws m"
  "next_queue (set_future i f m) = next_queue m"
  by (simp_all add: set_future_def)

lemma fail_pending_frame [simp]:
  "pending_calls (fail_pending_calls x c) = []" "reply_hooks (fail_pending_calls x c) = []"
  "current_ws (fail_pending_calls x c) = current_ws c" "next_id_value (fail_pending_calls x c) = next_id_value c"
  "subscriptions (fail_pending_calls x c) = subscriptions c"
  "subscription_events (fail_pending_calls x c) = subscription_events c"
  "reader_task (fail_pending_calls x c) = reader_task c" "private_methods (fail_pending_calls x c) = private_methods c"
  "private_methods_ws (fail_pending_calls x c) = private_methods_ws c" "registered (fail_pending_calls x c) = registered c"
  "queues (fail_pending_calls x c) = queues c"
  unfolding fail_pending_calls_def by (subst fold_keep; simp)+

lemma fail_pending_machine [simp]:
  "lock (fail_pending_calls x m) = lock m" "private_lock (fail_pending_calls x m) = private_lock m"
  "tasks (fail_pending_calls x m) = tasks m" "readers (fail_pending_calls x m) = readers m"
  "open_sockets (fail_pending_calls x m) = open_sockets m" "next_ws (fail_pending_calls x m) = next_ws m"
  "next_queue (fail_pending_calls x m) = next_queue m"
  unfolding fail_pending_calls_def by (subst fold_keep; simp)+

lemma fold_fail:
  "futures (fold (\<lambda>i c. if futures c i = Unresolved then set_future i f c else c) is c) i
    = (if i \<in> set is \<and> futures c i = Unresolved \<and> f \<noteq> Unresolved then f else futures c i)"
  by (induction "is" arbitrary: c) auto

lemma fail_pending_futures [simp]:
  "futures (fail_pending_calls x c) i =
    (if i \<in> set (pending_calls c) \<and> futures c i = Unresolved
     then FailedWith (TrueNASConnectionClosedError x DisconnectPhase) else futures c i)"
  by (simp add: fail_pending_calls_def fold_fail)

lemma detach_frame [simp]:
  "current_ws (detach_connection_locked x c) = None" "pending_calls (detach_connection_locked x c) = []"
  "reply_hooks (detach_connection_locked x c) = []" "subscriptions (detach_connection_locked x c) = []"
  "subscription_events (detach_connection_locked x c) = []" "reader_task (detach_connection_locked x c) = None"
  "private_methods_ws (detach_connection_locked x c) = None"
  "private_methods (detach_connection_locked x c) = private_methods c"
  "next_id_value (detach_connection_locked x c) = next_id_value c"
  "registered (detach_connection_locked x c) = registered c"
  "futures (detach_connection_locked x c) i =
    (if i \<in> set (pending_calls c) \<and> futures c i = Unresolved
     then FailedWith (TrueNASConnectionClosedError x DisconnectPhase) else futures c i)"
  by (simp_all add: detach_connection_locked_def)

lemma detach_machine [simp]:
  "lock (detach_connection_locked x m) = lock m" "private_lock (detach_connection_locked x m) = private_lock m"
  "tasks (detach_connection_locked x m) = tasks m" "readers (detach_connection_locked x m) = readers m"
  "open_sockets (detach_connection_locked x m) = open_sockets m" "next_ws (detach_connection_locked x m) = next_ws m"
  "next_queue (detach_connection_locked x m) = next_queue m"
  by (simp_all add: detach_connection_locked_def)

lemma detach_queues:
  "set (queues (detach_connection_locked x c) q)
    = set (queues c q) \<union> (if q \<in> snd ` set (subscriptions c) then {SUBSCRIPTION_TERMINATOR} else {})"
  by (simp add: detach_connection_locked_def end_subscriptions_queues)

lemma unregister_frame [simp]:
  "pending_calls (unregister_call i c) = removeAll i (pending_calls c)"
  "reply_hooks (unregister_call i c) = AList.delete i (reply_hooks c)"
  "current_ws (unregister_call i c) = current_ws c" "next_id_value (unregister_call i c) = next_id_value c"
  "futures (unregister_call i c) = futures c" "subscriptions (unregister_call i c) = subscriptions c"
  "subscription_events (unregister_call i c) = subscription_events c"
  "reader_task (unregister_call i c) = reader_task c" "private_methods (unregister_call i c) = private_methods c"
  "private_methods_ws (unregister_call i c) = private_methods_ws c" "registered (unregister_call i c) = registered c"
  "queues (unregister_call i c) = queues c"
  by (simp_all add: unregister_call_def)

lemma unregister_machine [simp]:
  "lock (unregister_call i m) = lock m" "private_lock (unregister_call i m) = private_lock m"
  "tasks (unregister_call i m) = tasks m" "readers (unregister_call i m) = readers m"
  "open_sockets (unregister_call i m) = open_sockets m" "next_ws (unregister_call i m) = next_ws m"
  "next_queue (unregister_call i m) = next_queue m"
  by (simp_all add: unregister_call_def)

lemma cancel_future_frame [simp]:
  "futures (cancel_future i c) = (futures c)(i := if futures c i = Unresolved then CancelledFuture else futures c i)"
  "pending_calls (cancel_future i c) = pending_calls c" "reply_hooks (cancel_future i c) = reply_hooks c"
  "current_ws (cancel_future i c) = current_ws c" "next_id_value (cancel_future i c) = next_id_value c"
  "subscriptions (cancel_future i c) = subscriptions c"
  "subscription_events (cancel_future i c) = subscription_events c"
  "reader_task (cancel_future i c) = reader_task c" "private_methods (cancel_future i c) = private_methods c"
  "private_methods_ws (cancel_future i c) = private_methods_ws c" "registered (cancel_future i c) = registered c"
  "queues (cancel_future i c) = queues c"
  by (simp_all add: cancel_future_def)

lemma cancel_future_machine [simp]:
  "lock (cancel_future i m) = lock m" "private_lock (cancel_future i m) = private_lock m"
  "tasks (cancel_future i m) = tasks m" "readers (cancel_future i m) = readers m"
  "open_sockets (cancel_future i m) = open_sockets m" "next_ws (cancel_future i m) = next_ws m"
  "next_queue (cancel_future i m) = next_queue m"
  by (simp_all add: cancel_future_def)

text \<open>The moves of the machine, as simplification rules.\<close>

lemmas move_defs = goto_def acquire_def release_def finish_def set_reader_def drop_socket_def
  cancel_reader_def release_socket_def

lemma deliver_frame [simp]:
  "current_ws (deliver qs d m) = current_ws m"
  "next_id_value (deliver qs d m) = next_id_value m"
  "pending_calls (deliver qs d m) = pending_calls m"
  "futures (deliver qs d m) = futures m"
  "reply_hooks (deliver qs d m) = reply_hooks m"
  "subscriptions (deliver qs d m) = subscriptions m"
  "subscription_events (deliver qs d m) = subscription_events m"
  "reader_task (deliver qs d m) = reader_task m"
  "private_methods (deliver qs d m) = private_methods m"
  "private_methods_ws (deliver qs d m) = private_methods_ws m"
  "registered (deliver qs d m) = registered m"
  "lock (deliver qs d m) = lock m"
  "private_lock (deliver qs d m) = private_lock m"
  "tasks (deliver qs d m) = tasks m"
  "readers (deliver qs d m) = readers m"
  "open_sockets (deliver qs d m) = open_sockets m"
  "next_ws (deliver qs d m) = next_ws m"
  "next_queue (deliver qs d m) = next_queue m"
  unfolding deliver_def by (subst fold_keep; simp)+

lemma deliver_new_frame [simp]:
  "current_ws (deliver_new ns qs d m) = current_ws m"
  "next_id_value (deliver_new ns qs d m) = next_id_value m"
  "pending_calls (deliver_new ns qs d m) = pending_calls m"
  "futures (deliver_new ns qs d m) = futures m"
  "reply_hooks (deliver_new ns qs d m) = reply_hooks m"
  "subscriptions (deliver_new ns qs d m) = subscriptions m"
  "subscription_events (deliver_new ns qs d m) = subscription_events m"
  "reader_task (deliver_new ns qs d m) = reader_task m"
  "private_methods (deliver_new ns qs d m) = private_methods m"
  "private_methods_ws (deliver_new ns qs d m) = private_methods_ws m"
  "registered (deliver_new ns qs d m) = registered m"
  "lock (deliver_new ns qs d m) = lock m"
  "private_lock (deliver_new ns qs d m) = private_lock m"
  "tasks (deliver_new ns qs d m) = tasks m"
  "readers (deliver_new ns qs d m) = readers m"
  "open_sockets (deliver_new ns qs d m) = open_sockets m"
  "next_ws (deliver_new ns qs d m) = next_ws m"
  "next_queue (deliver_new ns qs d m) = next_queue m"
  by (induction ns qs d m rule: deliver_new.induct) simp_all

lemma acquire_frame [simp]:
  "current_ws (acquire t m) = current_ws m"
  "next_id_value (acquire t m) = next_id_value m"
  "pending_calls (acquire t m) = pending_calls m"
  "futures (acquire t m) = futures m"
  "reply_hooks (acquire t m) = reply_hooks m"
  "subscriptions (acquire t m) = subscriptions m"
  "subscription_events (acquire t m) = subscription_events m"
  "reader_task (acquire t m) = reader_task m"
  "private_methods (acquire t m) = private_methods m"
  "private_methods_ws (acquire t m) = private_methods_ws m"
  "registered (acquire t m) = registered m"
  "queues (acquire t m) = queues m"
  "private_lock (acquire t m) = private_lock m"
  "tasks (acquire t m) = tasks m"
  "readers (acquire t m) = readers m"
  "open_sockets (acquire t m) = open_sockets m"
  "next_ws (acquire t m) = next_ws m"
  "next_queue (acquire t m) = next_queue m"
  "lock (acquire t m) = Some t"
  by (simp_all add: acquire_def)

lemma release_frame [simp]:
  "current_ws (release m) = current_ws m"
  "next_id_value (release m) = next_id_value m"
  "pending_calls (release m) = pending_calls m"
  "futures (release m) = futures m"
  "reply_hooks (release m) = reply_hooks m"
  "subscriptions (release m) = subscriptions m"
  "subscription_events (release m) = subscription_events m"
  "reader_task (release m) = reader_task m"
  "private_methods (release m) = private_methods m"
  "private_methods_ws (release m) = private_methods_ws m"
  "registered (release m) = registered m"
  "queues (release m) = queues m"
  "private_lock (release m) = private_lock m"
  "tasks (release m) = tasks m"
  "readers (release m) = readers m"
  "open_sockets (release m) = open_sockets m"
  "next_ws (release m) = next_ws m"
  "next_queue (release m) = next_queue m"
  "lock (release m) = None"
  by (simp_all add: release_def)

lemma goto_frame [simp]:
  "current_ws (goto t s m) = current_ws m"
  "next_id_value (goto t s m) = next_id_value m"
  "pending_calls (goto t s m) = pending_calls m"
  "futures (goto t s m) = futures m"
  "reply_hooks (goto t s m) = reply_hooks m"
  "subscriptions (goto t s m) = subscriptions m"
  "subscription_events (goto t s m) = subscription_events m"
  "reader_task (goto t s m) = reader_task m"
  "private_methods (goto t s m) = private_methods m"
  "private_methods_ws (goto t s m) = private_methods_ws m"
  "registered (goto t s m) = registered m"
  "queues (goto t s m) = queues m"
  "lock (goto t s m) = lock m"
  "private_lock (goto t s m) = private_lock m"
  "readers (goto t s m) = readers m"
  "open_sockets (goto t s m) = open_sockets m"
  "next_ws (goto t s m) = next_ws m"
  "next_queue (goto t s m) = next_queue m"
  "tasks (goto t s m) = (tasks m)(t := s)"
  by (simp_all add: goto_def)

lemma drop_socket_frame [simp]:
  "current_ws (drop_socket w m) = current_ws m"
  "next_id_value (drop_socket w m) = next_id_value m"
  "pending_calls (drop_socket w m) = pending_calls m"
  "futures (drop_socket w m) = futures m"
  "reply_hooks (drop_socket w m) = reply_hooks m"
  "subscriptions (drop_socket w m) = subscriptions m"
  "subscription_events (drop_socket w m) = subscription_events m"
  "reader_task (drop_socket w m) = reader_task m"
  "private_methods (drop_socket w m) = private_methods m"
  "private_methods_ws (drop_socket w m) = private_methods_ws m"
  "registered (drop_socket w m) = registered m"
  "queues (drop_socket w m) = queues m"
  "lock (drop_socket w m) = lock m"
  "private_lock (drop_socket w m) = private_lock m"
  "tasks (drop_socket w m) = tasks m"
  "readers (drop_socket w m) = readers m"
  "next_ws (drop_socket w m) = next_ws m"
  "next_queue (drop_socket w m) = next_queue m"
  "open_sockets (drop_socket w m) = removeAll w (open_sockets m)"
  by (simp_all add: drop_socket_def)

lemma cancel_reader_frame [simp]:
  "current_ws (cancel_reader w m) = current_ws m"
  "next_id_value (cancel_reader w m) = next_id_value m"
  "pending_calls (cancel_reader w m) = pending_calls m"
  "futures (cancel_reader w m) = futures m"
  "reply_hooks (cancel_reader w m) = reply_hooks m"
  "subscriptions (cancel_reader w m) = subscriptions m"
  "subscription_events (cancel_reader w m) = subscription_events m"
  "reader_task (cancel_reader w m) = reader_task m"
  "private_methods (cancel_reader w m) = private_methods m"
  "private_methods_ws (cancel_reader w m) = private_methods_ws m"
  "registered (cancel_reader w m) = registered m"
  "queues (cancel_reader w m) = queues m"
  "lock (cancel_reader w m) = lock m"
  "private_lock (cancel_reader w m) = private_lock m"
  "tasks (cancel_reader w m) = tasks m"
  "open_sockets (cancel_reader w m) = open_sockets m"
  "next_ws (cancel_reader w m) = next_ws m"
  "next_queue (cancel_reader w m) = next_queue m"
  by (simp_all add: cancel_reader_def)

lemma release_socket_frame [simp]:
  "current_ws (release_socket w m) = current_ws m"
  "next_id_value (release_socket w m) = next_id_value m"
  "pending_calls (release_socket w m) = pending_calls m"
  "futures (release_socket w m) = futures m"
  "reply_hooks (release_socket w m) = reply_hooks m"
  "subscriptions (release_socket w m) = subscriptions m"
  "subscription_events (release_socket w m) = subscription_events m"
  "reader_task (release_socket w m) = reader_task m"
  "private_methods (release_socket w m) = private_methods m"
  "private_methods_ws (release_socket w m) = private_methods_ws m"
  "registered (release_socket w m) = registered m"
  "queues (release_socket w m) = queues m"
  "lock (release_socket w m) = lock m"
  "private_lock (release_socket w m) = private_lock m"
  "tasks (release_socket w m) = tasks m"
  "next_ws (release_socket w m) = next_ws m"
  "next_queue (release_socket w m) = next_queue m"
  "open_sockets (release_socket w m) = removeAll w (open_sockets m)"
  "readers (release_socket w m) = readers (cancel_reader w m)"
  by (simp_all add: release_socket_def)

section \<open>After the result of a call\<close>

fun settled :: "task \<Rightarrow> bool" where
  "settled (Finished _) = True"
| "settled (Forgetting _ _ _) = True"
| "settled _ = False"

lemmas conclude_defs = conclude_def untrack_def option_sent_def log_private_methods_failure_def
  Let_def finish_def goto_def

lemma conclude_frame [simp]:
  "current_ws (conclude t p ws r m) = current_ws m" "next_id_value (conclude t p ws r m) = next_id_value m"
  "pending_calls (conclude t p ws r m) = pending_calls m" "futures (conclude t p ws r m) = futures m"
  "reply_hooks (conclude t p ws r m) = reply_hooks m" "reader_task (conclude t p ws r m) = reader_task m"
  "private_methods (conclude t p ws r m) = private_methods m"
  "queues (conclude t p ws r m) = queues m" "registered (conclude t p ws r m) = registered m"
  "lock (conclude t p ws r m) = lock m" "readers (conclude t p ws r m) = readers m"
  "open_sockets (conclude t p ws r m) = open_sockets m" "next_ws (conclude t p ws r m) = next_ws m"
  "next_queue (conclude t p ws r m) = next_queue m"
  by (auto simp: conclude_defs split: caller.splits sum.splits outcome.splits option.splits)

lemma conclude_task_settled: "settled (tasks (conclude t p ws r m) t)"
  by (auto simp: conclude_defs split: caller.splits sum.splits outcome.splits option.splits)

lemma conclude_task_others: "t' \<noteq> t \<Longrightarrow> tasks (conclude t p ws r m) t' = tasks m t'"
  by (auto simp: conclude_defs split: caller.splits sum.splits outcome.splits option.splits)

lemma conclude_tasks:
  obtains s where "tasks (conclude t p ws r m) = (tasks m)(t := s)" "settled s"
proof (rule that)
  show "tasks (conclude t p ws r m) = (tasks m)(t := tasks (conclude t p ws r m) t)"
    by (rule ext) (simp add: conclude_task_others)
qed (rule conclude_task_settled)

lemma conclude_private:
  "private_methods_ws (conclude t p ws r m) = private_methods_ws m
    \<or> (\<exists>w. current_ws m = Some w \<and> private_methods_ws (conclude t p ws r m) = Some w)"
  by (auto simp: conclude_defs split: caller.splits sum.splits outcome.splits option.splits)

lemma conclude_subscriptions:
  "(subscriptions (conclude t p ws r m) = subscriptions m
      \<and> subscription_events (conclude t p ws r m) = subscription_events m)
    \<or> (\<exists>q ev sid. p = ForSubscribe q ev \<and> registered m q = Some sid \<and> map_of (subscriptions m) sid = Some q
      \<and> subscriptions (conclude t p ws r m) = AList.delete sid (subscriptions m)
      \<and> subscription_events (conclude t p ws r m) = AList.delete sid (subscription_events m)
      \<and> (\<exists>e. tasks (conclude t p ws r m) = (tasks m)(t := Finished (Raised e))))"
  by (auto simp: conclude_defs split: caller.splits sum.splits outcome.splits option.splits)

section \<open>Views of a task\<close>

fun holds_lock :: "task \<Rightarrow> bool" where
  "holds_lock Opening = True"
| "holds_lock (LoggingIn _ _) = True"
| "holds_lock (SettingOption _ _) = True"
| "holds_lock (ConnectCleanup _ _) = True"
| "holds_lock (Sending _ _ _) = True"
| "holds_lock (CallClosing _ _ _ _) = True"
| "holds_lock (Closing _) = True"
| "holds_lock _ = False"

fun connecting_task :: "task \<Rightarrow> bool" where
  "connecting_task Opening = True"
| "connecting_task (LoggingIn _ _) = True"
| "connecting_task (SettingOption _ _) = True"
| "connecting_task (ConnectCleanup _ _) = True"
| "connecting_task _ = False"

text \<open>The call a task is in, from its registration until it is over.\<close>

fun call_of :: "task \<Rightarrow> (caller \<times> conn \<times> int) option" where
  "call_of (Sending p ws i) = Some (p, ws, i)"
| "call_of (Waiting p ws i) = Some (p, ws, i)"
| "call_of (TimedOut p ws i) = Some (p, ws, i)"
| "call_of (CallClosing p ws i _) = Some (p, ws, i)"
| "call_of _ = None"

fun awaits_reply :: "task \<Rightarrow> (conn \<times> int) option" where
  "awaits_reply (Sending p ws i) = Some (ws, i)"
| "awaits_reply (Waiting p ws i) = Some (ws, i)"
| "awaits_reply _ = None"

text \<open>The socket a task will close.\<close>

fun socket_of :: "task \<Rightarrow> conn option" where
  "socket_of (LoggingIn ws _) = Some ws"
| "socket_of (SettingOption ws _) = Some ws"
| "socket_of (ConnectCleanup ws _) = Some ws"
| "socket_of (CallClosing _ ws _ _) = Some ws"
| "socket_of (Closing ws) = Some ws"
| "socket_of (AwaitingReader ws) = Some ws"
| "socket_of _ = None"

text \<open>The connection an \<open>enable_private_methods\<close> past its lock works on.\<close>

fun enabling :: "task \<Rightarrow> conn option" where
  "enabling (AwaitingLock (ForPrivateMethods ws)) = Some ws"
| "enabling (Sending (ForPrivateMethods ws) _ _) = Some ws"
| "enabling (Waiting (ForPrivateMethods ws) _ _) = Some ws"
| "enabling (TimedOut (ForPrivateMethods ws) _ _) = Some ws"
| "enabling (CallClosing (ForPrivateMethods ws) _ _ _) = Some ws"
| "enabling _ = None"

lemma settled_views [simp]:
  "settled s \<Longrightarrow> \<not> holds_lock s" "settled s \<Longrightarrow> \<not> connecting_task s" "settled s \<Longrightarrow> call_of s = None"
  "settled s \<Longrightarrow> awaits_reply s = None" "settled s \<Longrightarrow> socket_of s = None" "settled s \<Longrightarrow> enabling s = None"
  by (cases s; simp)+

lemma conclude_views [simp]:
  "holds_lock (tasks (conclude t p ws r m) t') \<longleftrightarrow> t' \<noteq> t \<and> holds_lock (tasks m t')"
  "connecting_task (tasks (conclude t p ws r m) t') \<longleftrightarrow> t' \<noteq> t \<and> connecting_task (tasks m t')"
  "call_of (tasks (conclude t p ws r m) t') = (if t' = t then None else call_of (tasks m t'))"
  "awaits_reply (tasks (conclude t p ws r m) t') = (if t' = t then None else awaits_reply (tasks m t'))"
  "socket_of (tasks (conclude t p ws r m) t') = (if t' = t then None else socket_of (tasks m t'))"
  "enabling (tasks (conclude t p ws r m) t') = (if t' = t then None else enabling (tasks m t'))"
  using conclude_task_settled conclude_task_others by (cases "t' = t"; simp)+

section \<open>What the operations unfold to\<close>

lemmas connect_ops = start_connect_def connect_opened_def connect_logged_in_def connect_option_set_def
  connect_cleaned_up_def attach_def send_before_reader_def

lemmas call_ops = start_subscribe_def begin_call_def register_call_def call_sent_def
  send_failed_def send_raised_def call_failed_locked_def call_cancelled_def call_timed_out_def
  close_timed_out_def timeout_cancelled_def call_closed_def

lemmas other_ops = start_unsubscribe_def forget_subscription_def start_enable_def enable_locked_def
  start_close_def close_done_def close_cancelled_def close_finished_def

lemmas reader_ops = receive_def route_def route_collection_def route_update_def reader_teardown_def
  teardown_connection_def handle_rpc_response_def handle_subscription_notification_def
  register_subscription_def

lemmas op_splits = if_splits sum.splits option.splits prod.splits

lemma option_reply_frame [simp]:
  "current_ws (option_reply r m) = current_ws m"
  "next_id_value (option_reply r m) = next_id_value m"
  "pending_calls (option_reply r m) = pending_calls m"
  "futures (option_reply r m) = futures m"
  "reply_hooks (option_reply r m) = reply_hooks m"
  "subscriptions (option_reply r m) = subscriptions m"
  "subscription_events (option_reply r m) = subscription_events m"
  "reader_task (option_reply r m) = reader_task m"
  "private_methods (option_reply r m) = private_methods m"
  "private_methods_ws (option_reply r m) = private_methods_ws m"
  "registered (option_reply r m) = registered m"
  "queues (option_reply r m) = queues m"
  "lock (option_reply r m) = lock m"
  "private_lock (option_reply r m) = private_lock m"
  "tasks (option_reply r m) = tasks m"
  "readers (option_reply r m) = readers m"
  "open_sockets (option_reply r m) = open_sockets m"
  "next_ws (option_reply r m) = next_ws m"
  "next_queue (option_reply r m) = next_queue m"
  by (simp_all add: option_reply_def log_private_methods_failure_def)

text \<open>The reader moves no task and takes no lock.\<close>

lemma set_reader_frame [simp]:
  "current_ws (set_reader w r m) = current_ws m"
  "next_id_value (set_reader w r m) = next_id_value m"
  "pending_calls (set_reader w r m) = pending_calls m"
  "futures (set_reader w r m) = futures m"
  "reply_hooks (set_reader w r m) = reply_hooks m"
  "subscriptions (set_reader w r m) = subscriptions m"
  "subscription_events (set_reader w r m) = subscription_events m"
  "reader_task (set_reader w r m) = reader_task m"
  "private_methods (set_reader w r m) = private_methods m"
  "private_methods_ws (set_reader w r m) = private_methods_ws m"
  "registered (set_reader w r m) = registered m"
  "queues (set_reader w r m) = queues m"
  "lock (set_reader w r m) = lock m"
  "private_lock (set_reader w r m) = private_lock m"
  "tasks (set_reader w r m) = tasks m"
  "open_sockets (set_reader w r m) = open_sockets m"
  "next_ws (set_reader w r m) = next_ws m"
  "next_queue (set_reader w r m) = next_queue m"
  "readers (set_reader w r m) = (readers m)(w := r)"
  by (simp_all add: set_reader_def)

lemma register_subscription_frame [simp]:
  "current_ws (register_subscription q ev d m) = current_ws m"
  "next_id_value (register_subscription q ev d m) = next_id_value m"
  "pending_calls (register_subscription q ev d m) = pending_calls m"
  "futures (register_subscription q ev d m) = futures m"
  "reply_hooks (register_subscription q ev d m) = reply_hooks m"
  "reader_task (register_subscription q ev d m) = reader_task m"
  "private_methods (register_subscription q ev d m) = private_methods m"
  "private_methods_ws (register_subscription q ev d m) = private_methods_ws m"
  "queues (register_subscription q ev d m) = queues m"
  "lock (register_subscription q ev d m) = lock m"
  "private_lock (register_subscription q ev d m) = private_lock m"
  "tasks (register_subscription q ev d m) = tasks m"
  "readers (register_subscription q ev d m) = readers m"
  "open_sockets (register_subscription q ev d m) = open_sockets m"
  "next_ws (register_subscription q ev d m) = next_ws m"
  "next_queue (register_subscription q ev d m) = next_queue m"
  by (simp_all add: register_subscription_def split: pyval.split)

lemma handle_rpc_frame [simp]:
  "current_ws (handle_rpc_response w i d m) = current_ws m"
  "next_id_value (handle_rpc_response w i d m) = next_id_value m"
  "reader_task (handle_rpc_response w i d m) = reader_task m"
  "private_methods (handle_rpc_response w i d m) = private_methods m"
  "private_methods_ws (handle_rpc_response w i d m) = private_methods_ws m"
  "queues (handle_rpc_response w i d m) = queues m"
  "lock (handle_rpc_response w i d m) = lock m"
  "private_lock (handle_rpc_response w i d m) = private_lock m"
  "tasks (handle_rpc_response w i d m) = tasks m"
  "readers (handle_rpc_response w i d m) = readers m"
  "open_sockets (handle_rpc_response w i d m) = open_sockets m"
  "next_ws (handle_rpc_response w i d m) = next_ws m"
  "next_queue (handle_rpc_response w i d m) = next_queue m"
  by (simp_all add: handle_rpc_response_def Let_def split: option.split)

lemma handle_notification_frame [simp]:
  "current_ws (handle_subscription_notification w s d m) = current_ws m"
  "next_id_value (handle_subscription_notification w s d m) = next_id_value m"
  "pending_calls (handle_subscription_notification w s d m) = pending_calls m"
  "futures (handle_subscription_notification w s d m) = futures m"
  "reply_hooks (handle_subscription_notification w s d m) = reply_hooks m"
  "subscriptions (handle_subscription_notification w s d m) = subscriptions m"
  "subscription_events (handle_subscription_notification w s d m) = subscription_events m"
  "reader_task (handle_subscription_notification w s d m) = reader_task m"
  "private_methods (handle_subscription_notification w s d m) = private_methods m"
  "private_methods_ws (handle_subscription_notification w s d m) = private_methods_ws m"
  "registered (handle_subscription_notification w s d m) = registered m"
  "lock (handle_subscription_notification w s d m) = lock m"
  "private_lock (handle_subscription_notification w s d m) = private_lock m"
  "tasks (handle_subscription_notification w s d m) = tasks m"
  "readers (handle_subscription_notification w s d m) = readers m"
  "open_sockets (handle_subscription_notification w s d m) = open_sockets m"
  "next_ws (handle_subscription_notification w s d m) = next_ws m"
  "next_queue (handle_subscription_notification w s d m) = next_queue m"
  by (simp_all add: handle_subscription_notification_def split: option.split)

lemma teardown_frame [simp]:
  "next_id_value (teardown_connection w c m) = next_id_value m"
  "private_methods (teardown_connection w c m) = private_methods m"
  "registered (teardown_connection w c m) = registered m"
  "lock (teardown_connection w c m) = lock m"
  "private_lock (teardown_connection w c m) = private_lock m"
  "tasks (teardown_connection w c m) = tasks m"
  "readers (teardown_connection w c m) = readers m"
  "open_sockets (teardown_connection w c m) = open_sockets m"
  "next_ws (teardown_connection w c m) = next_ws m"
  "next_queue (teardown_connection w c m) = next_queue m"
  by (simp_all add: teardown_connection_def)

lemma receive_frame [simp]:
  "current_ws (receive w x m) = current_ws m"
  "next_id_value (receive w x m) = next_id_value m"
  "pending_calls (receive w x m) = pending_calls m"
  "futures (receive w x m) = futures m"
  "reply_hooks (receive w x m) = reply_hooks m"
  "subscriptions (receive w x m) = subscriptions m"
  "subscription_events (receive w x m) = subscription_events m"
  "reader_task (receive w x m) = reader_task m"
  "private_methods (receive w x m) = private_methods m"
  "private_methods_ws (receive w x m) = private_methods_ws m"
  "registered (receive w x m) = registered m"
  "queues (receive w x m) = queues m"
  "lock (receive w x m) = lock m"
  "private_lock (receive w x m) = private_lock m"
  "tasks (receive w x m) = tasks m"
  "open_sockets (receive w x m) = open_sockets m"
  "next_ws (receive w x m) = next_ws m"
  "next_queue (receive w x m) = next_queue m"
  by (simp_all add: receive_def split: option.split pyval.split)

lemma route_frame [simp]:
  "current_ws (route w d m) = current_ws m"
  "next_id_value (route w d m) = next_id_value m"
  "reader_task (route w d m) = reader_task m"
  "private_methods (route w d m) = private_methods m"
  "private_methods_ws (route w d m) = private_methods_ws m"
  "lock (route w d m) = lock m"
  "private_lock (route w d m) = private_lock m"
  "tasks (route w d m) = tasks m"
  "open_sockets (route w d m) = open_sockets m"
  "next_ws (route w d m) = next_ws m"
  "next_queue (route w d m) = next_queue m"
  by (simp_all add: route_def route_collection_def split: route_kind.split sum.split)

lemma route_update_frame [simp]:
  "current_ws (route_update w d qs m) = current_ws m"
  "next_id_value (route_update w d qs m) = next_id_value m"
  "pending_calls (route_update w d qs m) = pending_calls m"
  "futures (route_update w d qs m) = futures m"
  "reply_hooks (route_update w d qs m) = reply_hooks m"
  "subscriptions (route_update w d qs m) = subscriptions m"
  "subscription_events (route_update w d qs m) = subscription_events m"
  "reader_task (route_update w d qs m) = reader_task m"
  "private_methods (route_update w d qs m) = private_methods m"
  "private_methods_ws (route_update w d qs m) = private_methods_ws m"
  "registered (route_update w d qs m) = registered m"
  "lock (route_update w d qs m) = lock m"
  "private_lock (route_update w d qs m) = private_lock m"
  "tasks (route_update w d qs m) = tasks m"
  "open_sockets (route_update w d qs m) = open_sockets m"
  "next_ws (route_update w d qs m) = next_ws m"
  "next_queue (route_update w d qs m) = next_queue m"
  by (simp_all add: route_update_def split: sum.split)

lemma reader_teardown_frame [simp]:
  "next_id_value (reader_teardown w c m) = next_id_value m"
  "private_methods (reader_teardown w c m) = private_methods m"
  "registered (reader_teardown w c m) = registered m"
  "lock (reader_teardown w c m) = lock m"
  "private_lock (reader_teardown w c m) = private_lock m"
  "tasks (reader_teardown w c m) = tasks m"
  "open_sockets (reader_teardown w c m) = open_sockets m"
  "next_ws (reader_teardown w c m) = next_ws m"
  "next_queue (reader_teardown w c m) = next_queue m"
  by (simp_all add: reader_teardown_def)

text \<open>An answered call ends with what its future holds.\<close>

lemma call_answeredE:
  assumes "call_answered t p ws i m = Some m'"
  obtains response where "futures m i = Resolved response"
      "m' = conclude t p ws (call_outcome (method_of p) response) (unregister_call i m)"
    | e where "futures m i = FailedWith e"
      "m' = conclude t p ws (Inl (TrueNAS e)) (unregister_call i m)"
  using assms by (cases "futures m i") (auto simp: call_answered_def)

section \<open>The lock\<close>

definition lock_ok :: "machine \<Rightarrow> bool" where
  "lock_ok m \<longleftrightarrow> (\<forall>t. holds_lock (tasks m t) \<longleftrightarrow> lock m = Some t)"

lemma lock_ok_iff: "lock_ok m \<Longrightarrow> (lock m = Some t) = holds_lock (tasks m t)"
  by (simp add: lock_ok_def)

lemma lock_ok_free: "lock_ok m \<Longrightarrow> lock m = None \<Longrightarrow> \<not> holds_lock (tasks m t)"
  by (simp add: lock_ok_def)

lemma lock_ok_conclude: "lock_ok m \<Longrightarrow> \<not> holds_lock (tasks m t) \<Longrightarrow> lock_ok (conclude t p w r m)"
  by (auto simp: lock_ok_def)

lemma lock_ok_holders:
  assumes "lock_ok m" "holds_lock (tasks m t)"
  shows "lock_ok (connect_opened t a b m)" "lock_ok (connect_logged_in t ws ans m)"
    "lock_ok (connect_option_set t ws ans m)" "lock_ok (connect_cleaned_up t ws x c m)"
    "lock_ok (call_sent t p ws i m)" "lock_ok (send_failed t p ws i msg m)" "lock_ok (send_raised t p ws i er m)"
    "lock_ok (call_closed t p ws i err c m)" "lock_ok (close_done t ws m)" "lock_ok (close_cancelled t ws m)"
proof -
  from assms have "lock m = Some t" by (simp add: lock_ok_iff)
  with assms(1)
  show "lock_ok (connect_opened t a b m)" "lock_ok (connect_logged_in t ws ans m)"
    "lock_ok (connect_option_set t ws ans m)" "lock_ok (connect_cleaned_up t ws x c m)"
    "lock_ok (call_sent t p ws i m)" "lock_ok (send_failed t p ws i msg m)" "lock_ok (send_raised t p ws i er m)"
    "lock_ok (call_closed t p ws i err c m)" "lock_ok (close_done t ws m)" "lock_ok (close_cancelled t ws m)"
    by (auto simp: connect_ops call_ops other_ops move_defs lock_ok_def Let_def split: op_splits)
qed

lemma lock_ok_starters:
  assumes "lock_ok m" "lock m = None"
  shows "lock_ok (start_connect t m)" "lock_ok (begin_call t p m)" "lock_ok (start_subscribe t ev m)"
    "lock_ok (start_unsubscribe t sid m)" "lock_ok (close_timed_out t p ws i m)"
    "lock_ok (forget_subscription t wo sid oc m)" "lock_ok (start_close t m)"
  using assms by (auto simp: connect_ops call_ops other_ops move_defs lock_ok_def Let_def split: op_splits)

lemma lock_ok_others:
  assumes "lock_ok m" "\<not> holds_lock (tasks m t)"
  shows "lock_ok (start_enable t m)" "lock_ok (enable_locked t m)" "lock_ok (finish t oc m)"
    "lock_ok (call_cancelled t p ws i m)" "lock_ok (call_timed_out t p ws i m)"
    "lock_ok (timeout_cancelled t p ws i m)" "lock_ok (close_finished t ws oc m)"
proof -
  from assms have "lock m \<noteq> Some t" by (simp add: lock_ok_iff)
  with assms(1)
  show "lock_ok (start_enable t m)" "lock_ok (enable_locked t m)" "lock_ok (finish t oc m)"
    "lock_ok (call_cancelled t p ws i m)" "lock_ok (call_timed_out t p ws i m)"
    "lock_ok (timeout_cancelled t p ws i m)" "lock_ok (close_finished t ws oc m)"
    by (auto simp: call_ops other_ops move_defs lock_ok_def Let_def split: op_splits)
qed

lemma lock_ok_answered:
  "lock_ok m \<Longrightarrow> \<not> holds_lock (tasks m t) \<Longrightarrow> lock_ok (conclude t p ws r (unregister_call i m))"
  by (rule lock_ok_conclude) (simp_all add: lock_ok_def)

lemma lock_ok_reader:
  assumes "lock_ok m"
  shows "lock_ok (receive w msg m)" "lock_ok (route w d m)" "lock_ok (route_update w d qs m)"
    "lock_ok (set_reader w rd m)" "lock_ok (drop_socket w m)" "lock_ok (reader_teardown w cause m)"
  using assms by (simp_all add: lock_ok_def drop_socket_def)

lemmas lock_ok_rules = lock_ok_conclude lock_ok_holders lock_ok_starters lock_ok_others lock_ok_answered lock_ok_reader

lemma lock_ok_step: "client_step m e m' \<Longrightarrow> lock_ok m \<Longrightarrow> lock_ok m'"
  by (induction rule: client_step.induct) (auto simp: lock_ok_rules elim!: call_answeredE)

section \<open>The tables of a connection\<close>

text \<open>
  Connecting excludes a current connection; without one the tables are empty; the option was sent
  on the current connection if on any; connections are numbered in order.
\<close>

definition conn_ok :: "machine \<Rightarrow> bool" where
  "conn_ok m \<longleftrightarrow>
     (\<forall>t. connecting_task (tasks m t) \<longrightarrow> current_ws m = None)
     \<and> (current_ws m = None \<longrightarrow> pending_calls m = [] \<and> reply_hooks m = [] \<and> subscriptions m = []
          \<and> subscription_events m = [])
     \<and> reader_task m = current_ws m
     \<and> (private_methods_ws m = None \<or> private_methods_ws m = current_ws m)
     \<and> (\<forall>w. current_ws m = Some w \<longrightarrow> w < next_ws m)
     \<and> (\<forall>t w. socket_of (tasks m t) = Some w \<longrightarrow> w < next_ws m)"

lemma connecting_holds: "connecting_task s \<Longrightarrow> holds_lock s"
  by (cases s) auto

lemma conn_okD:
  assumes "conn_ok m"
  shows "connecting_task (tasks m t) \<Longrightarrow> current_ws m = None"
    "current_ws m = None \<Longrightarrow> pending_calls m = []" "current_ws m = None \<Longrightarrow> reply_hooks m = []"
    "current_ws m = None \<Longrightarrow> subscriptions m = []" "current_ws m = None \<Longrightarrow> subscription_events m = []"
    "current_ws m = Some w \<Longrightarrow> w < next_ws m" "socket_of (tasks m t) = Some w \<Longrightarrow> w < next_ws m"
    "private_methods_ws m = None \<or> private_methods_ws m = current_ws m"
  using assms by (auto simp: conn_ok_def)

lemma connecting_alone:
  "lock_ok m \<Longrightarrow> holds_lock (tasks m t) \<Longrightarrow> t' \<noteq> t \<Longrightarrow> \<not> connecting_task (tasks m t')"
  using connecting_holds [of "tasks m t'"] by (auto simp: lock_ok_def)

lemma conn_ok_goto:
  "\<not> connecting_task s \<Longrightarrow> (\<And>w. socket_of s = Some w \<Longrightarrow> w < next_ws m) \<Longrightarrow> conn_ok m \<Longrightarrow> conn_ok (goto t s m)"
  unfolding conn_ok_def goto_def by (auto split: if_splits)

lemma conn_ok_simps [simp]:
  "conn_ok (release m) = conn_ok m" "conn_ok (acquire t m) = conn_ok m"
  "conn_ok (cancel_future i m) = conn_ok m" "conn_ok (drop_socket w m) = conn_ok m"
  "conn_ok (cancel_reader w m) = conn_ok m" "conn_ok (set_reader w rd m) = conn_ok m"
  "conn_ok (queue_put q x m) = conn_ok m" "conn_ok (set_future i f m) = conn_ok m"
  "conn_ok (m\<lparr>next_id_value := n\<rparr>) = conn_ok m" "conn_ok (m\<lparr>next_queue := q\<rparr>) = conn_ok m"
  "conn_ok (m\<lparr>private_methods := b\<rparr>) = conn_ok m" "conn_ok (m\<lparr>private_lock := l\<rparr>) = conn_ok m"
  by (simp_all add: conn_ok_def move_defs)

lemma conn_ok_tables:
  assumes "conn_ok m"
  shows "conn_ok (unregister_call i m)" "conn_ok (detach_connection_locked x m)"
    "conn_ok (untrack q m)" "conn_ok (option_sent w m)"
    "conn_ok (m\<lparr>subscriptions := AList.delete sid (subscriptions m),
        subscription_events := AList.delete sid (subscription_events m)\<rparr>)"
    "current_ws m \<noteq> None \<Longrightarrow> conn_ok (snd (register_call h m))"
    "current_ws m \<noteq> None \<Longrightarrow> conn_ok (register_subscription q ev d m)"
    "conn_ok (log_private_methods_failure m)"
  using assms
  by (auto simp: conn_ok_def untrack_def option_sent_def register_call_def register_subscription_def
      log_private_methods_failure_def Let_def split: option.split pyval.split)

lemma conn_ok_conclude: "conn_ok m \<Longrightarrow> conn_ok (conclude t p w r m)"
  by (auto simp: conclude_def finish_def Let_def conn_ok_tables intro!: conn_ok_goto
      split: caller.split sum.split outcome.split)

lemma conn_ok_connects:
  assumes "conn_ok m" "lock_ok m"
  shows "conn_ok (start_connect t m)"
    "tasks m t = Opening \<Longrightarrow> conn_ok (connect_opened t a b m)"
    "tasks m t = LoggingIn ws i \<Longrightarrow> conn_ok (connect_logged_in t ws ans m)"
    "tasks m t = SettingOption ws i \<Longrightarrow> conn_ok (connect_option_set t ws ans m)"
    "tasks m t = ConnectCleanup ws x \<Longrightarrow> conn_ok (connect_cleaned_up t ws x c m)"
  using assms(1) conn_okD(1,7) [OF assms(1), where t = t] connecting_alone [OF assms(2), of t]
  by (auto simp: connect_ops move_defs conn_ok_def Let_def less_Suc_eq split: op_splits)

lemma conn_ok_calls:
  assumes "conn_ok m"
  shows "conn_ok (begin_call t p m)" "conn_ok (start_subscribe t ev m)"
    "conn_ok (call_sent t p ws i m)" "conn_ok (send_failed t p ws i msg m)"
    "conn_ok (send_raised t p ws i er m)" "conn_ok (call_cancelled t p ws i m)"
    "conn_ok (call_timed_out t p ws i m)" "conn_ok (close_timed_out t p ws i m)"
    "conn_ok (timeout_cancelled t p ws i m)" "conn_ok (call_closed t p ws i err c m)"
proof -
  have failed: "conn_ok m \<Longrightarrow> conn_ok (call_failed_locked t p ws i x er m)" for t p ws i x er m
    by (auto simp: call_failed_locked_def intro!: conn_ok_goto conn_ok_conclude conn_ok_tables dest: conn_okD(6))
  have bc: "conn_ok m \<Longrightarrow> conn_ok (begin_call t p m)" for t p m
    using conn_ok_tables(6) [of m "on_reply p"]
    by (auto simp: begin_call_def intro!: conn_ok_goto conn_ok_conclude split: option.split prod.split)
  show "conn_ok (begin_call t p m)" "conn_ok (start_subscribe t ev m)"
    "conn_ok (call_sent t p ws i m)" "conn_ok (send_failed t p ws i msg m)"
    "conn_ok (send_raised t p ws i er m)" "conn_ok (call_cancelled t p ws i m)"
    "conn_ok (call_timed_out t p ws i m)" "conn_ok (close_timed_out t p ws i m)"
    "conn_ok (timeout_cancelled t p ws i m)" "conn_ok (call_closed t p ws i err c m)"
    using assms
    by (auto simp: bc failed start_subscribe_def call_sent_def send_failed_def send_raised_def
        call_cancelled_def call_timed_out_def close_timed_out_def timeout_cancelled_def call_closed_def
        release_socket_def Let_def conn_ok_tables intro!: conn_ok_goto conn_ok_conclude)
qed

lemma conn_ok_ops:
  assumes "conn_ok m"
  shows "conn_ok (start_unsubscribe t sid m)" "conn_ok (forget_subscription t wo sid oc m)"
    "conn_ok (start_enable t m)" "conn_ok (enable_locked t m)" "conn_ok (finish t oc m)"
    "conn_ok (start_close t m)" "tasks m t = Closing ws \<Longrightarrow> conn_ok (close_done t ws m)"
    "conn_ok (close_cancelled t ws m)" "conn_ok (close_finished t ws oc m)"
  using assms conn_okD(7) [OF assms, where t = t]
  by (auto simp: other_ops release_socket_def finish_def Let_def conn_ok_tables
      intro!: conn_ok_goto dest: conn_okD(6) split: op_splits)

lemma conn_ok_route: "conn_ok m \<Longrightarrow> conn_ok (handle_rpc_response w i d m)"
  by (auto simp: handle_rpc_response_def Let_def conn_ok_tables split: option.split)

lemma conn_ok_readers:
  assumes "conn_ok m"
  shows "conn_ok (receive w msg m)" "conn_ok (route w d m)" "conn_ok (route_update w d qs m)"
    "conn_ok (reader_teardown w cause m)"
proof -
  have "conn_ok (deliver qs d m)" "conn_ok (deliver_new ns qs d m)" "conn_ok (handle_subscription_notification w s d m)"
    for qs ns s using assms by (simp_all add: conn_ok_def)
  then show "conn_ok (receive w msg m)" "conn_ok (route w d m)" "conn_ok (route_update w d qs m)"
    "conn_ok (reader_teardown w cause m)"
    using assms by (auto simp: receive_def route_def route_collection_def route_update_def reader_teardown_def
        teardown_connection_def conn_ok_tables conn_ok_route split: option.split pyval.split route_kind.split sum.split)
qed

lemma conn_ok_step: "client_step m e m' \<Longrightarrow> lock_ok m \<Longrightarrow> conn_ok m \<Longrightarrow> conn_ok m'"
  by (induction rule: client_step.induct)
    (auto simp: conn_ok_connects conn_ok_calls conn_ok_ops conn_ok_readers conn_ok_conclude conn_ok_tables
      elim!: call_answeredE)

end
