(* ===== verification/ClientCalls.thy ===== *)
theory ClientCalls
  imports ClientLaws
begin

text \<open>
  The calls of the client: which future belongs to whom, and that no reply is lost or misrouted.
\<close>

section \<open>Pending calls\<close>

text \<open>
  Ids are fresh and belong to one task; a call that awaits an unresolved future is registered on
  the current connection; every registered call has its task, and every hook its call.
\<close>

definition ids_fresh :: "machine \<Rightarrow> bool" where
  "ids_fresh m \<longleftrightarrow> (\<forall>t p w i. call_of (tasks m t) = Some (p, w, i) \<longrightarrow> i < next_id_value m)
     \<and> (\<forall>i. next_id_value m \<le> i \<longrightarrow> futures m i = Unresolved)"

definition waits_registered :: "machine \<Rightarrow> bool" where
  "waits_registered m \<longleftrightarrow>
     (\<forall>t w i. awaits_reply (tasks m t) = Some (w, i) \<longrightarrow> futures m i = Unresolved \<longrightarrow>
        i \<in> set (pending_calls m) \<and> current_ws m = Some w)"

definition ids_unique :: "machine \<Rightarrow> bool" where
  "ids_unique m \<longleftrightarrow> (\<forall>t t' p w p' w' i. call_of (tasks m t) = Some (p, w, i) \<longrightarrow>
     call_of (tasks m t') = Some (p', w', i) \<longrightarrow> t = t')"

definition pending_owned :: "machine \<Rightarrow> bool" where
  "pending_owned m \<longleftrightarrow>
     (\<forall>i \<in> set (pending_calls m). \<exists>t p w. call_of (tasks m t) = Some (p, w, i) \<and> current_ws m = Some w)
     \<and> (\<forall>(i, h) \<in> set (reply_hooks m). i \<in> set (pending_calls m))"

definition calls_ok :: "machine \<Rightarrow> bool" where
  "calls_ok m \<longleftrightarrow> ids_fresh m \<and> waits_registered m \<and> ids_unique m \<and> pending_owned m"

lemma calls_okD:
  assumes "calls_ok m"
  shows "call_of (tasks m t) = Some (p, w, i) \<Longrightarrow> i < next_id_value m"
    "awaits_reply (tasks m t) = Some (w, i) \<Longrightarrow> futures m i = Unresolved \<Longrightarrow> i \<in> set (pending_calls m)"
    "awaits_reply (tasks m t) = Some (w, i) \<Longrightarrow> futures m i = Unresolved \<Longrightarrow> current_ws m = Some w"
    "call_of (tasks m t) = Some (p, w, i) \<Longrightarrow> call_of (tasks m t') = Some (p', w', i) \<Longrightarrow> t = t'"
    "i \<in> set (pending_calls m) \<Longrightarrow> \<exists>t p w. call_of (tasks m t) = Some (p, w, i) \<and> current_ws m = Some w"
    "(i, h) \<in> set (reply_hooks m) \<Longrightarrow> i \<in> set (pending_calls m)"
    "next_id_value m \<le> i \<Longrightarrow> futures m i = Unresolved"
proof -
  from assms have "ids_fresh m" "waits_registered m" "ids_unique m" "pending_owned m"
    by (simp_all add: calls_ok_def)
  then show "call_of (tasks m t) = Some (p, w, i) \<Longrightarrow> i < next_id_value m"
    "awaits_reply (tasks m t) = Some (w, i) \<Longrightarrow> futures m i = Unresolved \<Longrightarrow> i \<in> set (pending_calls m)"
    "awaits_reply (tasks m t) = Some (w, i) \<Longrightarrow> futures m i = Unresolved \<Longrightarrow> current_ws m = Some w"
    "call_of (tasks m t) = Some (p, w, i) \<Longrightarrow> call_of (tasks m t') = Some (p', w', i) \<Longrightarrow> t = t'"
    "i \<in> set (pending_calls m) \<Longrightarrow> \<exists>t p w. call_of (tasks m t) = Some (p, w, i) \<and> current_ws m = Some w"
    "(i, h) \<in> set (reply_hooks m) \<Longrightarrow> i \<in> set (pending_calls m)"
    "next_id_value m \<le> i \<Longrightarrow> futures m i = Unresolved"
    by (simp add: ids_fresh_def, simp add: waits_registered_def, simp add: waits_registered_def,
        simp add: ids_unique_def, simp add: pending_owned_def, (force simp: pending_owned_def), simp add: ids_fresh_def)
qed

lemma calls_okI:
  assumes "\<And>t p w i. call_of (tasks m t) = Some (p, w, i) \<Longrightarrow> i < next_id_value m"
    and "\<And>t w i. awaits_reply (tasks m t) = Some (w, i) \<Longrightarrow> futures m i = Unresolved
      \<Longrightarrow> i \<in> set (pending_calls m) \<and> current_ws m = Some w"
    and "\<And>t t' p w p' w' i. call_of (tasks m t) = Some (p, w, i) \<Longrightarrow>
      call_of (tasks m t') = Some (p', w', i) \<Longrightarrow> t = t'"
    and "\<And>i. i \<in> set (pending_calls m) \<Longrightarrow> \<exists>t p w. call_of (tasks m t) = Some (p, w, i) \<and> current_ws m = Some w"
    and "\<And>i h. (i, h) \<in> set (reply_hooks m) \<Longrightarrow> i \<in> set (pending_calls m)"
    and "\<And>i. next_id_value m \<le> i \<Longrightarrow> futures m i = Unresolved"
  shows "calls_ok m"
  unfolding calls_ok_def ids_fresh_def waits_registered_def ids_unique_def pending_owned_def
  using assms by (intro conjI allI impI ballI; (clarify)?; metis)

text \<open>What the invariant looks at.\<close>

lemma calls_ok_cong:
  assumes "\<And>t. call_of (tasks m' t) = call_of (tasks m t)" "\<And>t. awaits_reply (tasks m' t) = awaits_reply (tasks m t)"
    "next_id_value m' = next_id_value m" "futures m' = futures m" "pending_calls m' = pending_calls m"
    "reply_hooks m' = reply_hooks m" "current_ws m' = current_ws m"
  shows "calls_ok m' = calls_ok m"
  using assms
  by (simp add: calls_ok_def ids_fresh_def waits_registered_def ids_unique_def pending_owned_def)

lemma calls_ok_simps [simp]:
  "calls_ok (release m) = calls_ok m" "calls_ok (acquire t m) = calls_ok m"
  "calls_ok (drop_socket w m) = calls_ok m" "calls_ok (cancel_reader w m) = calls_ok m"
  "calls_ok (release_socket w m) = calls_ok m" "calls_ok (set_reader w rd m) = calls_ok m"
  "calls_ok (queue_put q x m) = calls_ok m" "calls_ok (deliver qs d m) = calls_ok m"
  "calls_ok (deliver_new ns qs d m) = calls_ok m" "calls_ok (register_subscription q ev d m) = calls_ok m"
  "calls_ok (m\<lparr>next_queue := n\<rparr>) = calls_ok m" "calls_ok (m\<lparr>private_methods := b\<rparr>) = calls_ok m"
  "calls_ok (m\<lparr>private_lock := l\<rparr>) = calls_ok m"
  "calls_ok (m\<lparr>subscriptions := ss, subscription_events := es\<rparr>) = calls_ok m"
  "calls_ok (receive w msg m) = calls_ok m" "calls_ok (route_update w d qs m) = calls_ok m"
  "calls_ok (handle_subscription_notification w s d m) = calls_ok m"
  by (rule calls_ok_cong; simp)+

lemma calls_ok_goto:
  assumes "calls_ok m" "call_of s = call_of (tasks m t)"
    "awaits_reply s = None \<or> awaits_reply s = awaits_reply (tasks m t)"
  shows "calls_ok (goto t s m)"
proof -
  have c: "call_of (tasks (goto t s m) t') = call_of (tasks m t')" for t'
    using assms(2) by simp
  have a: "awaits_reply (tasks (goto t s m) t') = Some x \<Longrightarrow> awaits_reply (tasks m t') = Some x" for t' x
    using assms(3) by (auto split: if_splits)
  show ?thesis
    by (rule calls_okI; (unfold c)?; (drule a)?) (auto intro: calls_okD [OF assms(1)])
qed

lemma calls_ok_conclude:
  assumes "calls_ok m" "call_of (tasks m t) = None"
  shows "calls_ok (conclude t p w r m)"
proof -
  have c: "call_of (tasks (conclude t p w r m) t') = call_of (tasks m t')" for t'
    using assms(2) by simp
  have a: "awaits_reply (tasks (conclude t p w r m) t') = Some x \<Longrightarrow> awaits_reply (tasks m t') = Some x" for t' x
    by (auto split: if_splits)
  show ?thesis
    by (rule calls_okI; (unfold c)?; (drule a)?) (auto intro: calls_okD [OF assms(1)])
qed

text \<open>A call that ends: its id is unregistered in the same section.\<close>

lemma calls_ok_leave:
  assumes "calls_ok m" "call_of (tasks m t) = Some (p, w, i)"
    and "\<And>t'. call_of (tasks m' t') = (if t' = t then None else call_of (tasks m t'))"
    and "\<And>t'. awaits_reply (tasks m' t') = (if t' = t then None else awaits_reply (tasks m t'))"
    and "next_id_value m' = next_id_value m" "futures m' = futures m"
    "pending_calls m' = removeAll i (pending_calls m)" "reply_hooks m' = AList.delete i (reply_hooks m)"
    "current_ws m' = current_ws m"
  shows "calls_ok m'"
proof (rule calls_okI; (unfold assms(3-9))?)
  have other: "j \<noteq> i" if "t' \<noteq> t" "call_of (tasks m t') = Some (p', w', j)" for t' p' w' j
    using calls_okD(4) [OF assms(1,2)] that by blast
  have waits_call: "\<exists>p'. call_of s = Some (p', x)" if "awaits_reply s = Some x" for s x
    using that by (cases s) auto
  show "i' \<in> set (removeAll i (pending_calls m)) \<and> current_ws m = Some w'"
    if "(if t' = t then None else awaits_reply (tasks m t')) = Some (w', i')" "futures m i' = Unresolved" for t' w' i'
    using that calls_okD(2,3) [OF assms(1)] waits_call other by (fastforce split: if_splits)
  show "\<exists>t' p w. (if t' = t then None else call_of (tasks m t')) = Some (p, w, i') \<and> current_ws m = Some w"
    if "i' \<in> set (removeAll i (pending_calls m))" for i'
    using that calls_okD(5) [OF assms(1), of i'] assms(2) by (auto, metis option.inject prod.inject)
  show "i' \<in> set (removeAll i (pending_calls m))" if "(i', h) \<in> set (AList.delete i (reply_hooks m))" for i' h
    using that calls_okD(6) [OF assms(1)] by (cases h) (auto simp: AList.delete_eq)
qed (use calls_okD [OF assms(1)] in \<open>auto split: if_splits\<close>)

lemma calls_ok_concluded:
  assumes "calls_ok m" "call_of (tasks m t) = Some (p, w, i)"
  shows "calls_ok (conclude t p' w' r (unregister_call i m))"
  by (rule calls_ok_leave [OF assms]) simp_all

lemma calls_ok_pending_fresh: "calls_ok m \<Longrightarrow> i \<in> set (pending_calls m) \<Longrightarrow> i < next_id_value m"
  using calls_okD(1,5) by blast

lemma calls_ok_detach: "calls_ok m \<Longrightarrow> calls_ok (detach_connection_locked x m)"
  by (rule calls_okI) (auto dest: calls_okD calls_ok_pending_fresh split: if_splits)

lemma calls_ok_cancel: "calls_ok m \<Longrightarrow> i < next_id_value m \<Longrightarrow> calls_ok (cancel_future i m)"
  by (rule calls_okI) (auto dest: calls_okD split: if_splits)

text \<open>A reply routed to its call: its future is done, its registration gone.\<close>

lemma handle_rpc_tables:
  fixes m :: machine
  shows "pending_calls (handle_rpc_response w i d m)
    = (if current_ws m = Some w then removeAll i (pending_calls m) else pending_calls m)"
  "reply_hooks (handle_rpc_response w i d m)
    = (if current_ws m = Some w then AList.delete i (reply_hooks m) else reply_hooks m)"
  "futures (handle_rpc_response w i d m)
    = (if current_ws m = Some w \<and> i \<in> set (pending_calls m) \<and> futures m i = Unresolved
       then (futures m)(i := Resolved d) else futures m)"
  by (auto simp: handle_rpc_response_def Let_def split: option.split)

lemma calls_ok_reply:
  assumes "calls_ok m"
  shows "calls_ok (handle_rpc_response w i d m)"
proof (rule calls_okI; (unfold handle_rpc_tables handle_rpc_frame)?)
  show "i' \<in> set (if current_ws m = Some w then removeAll i (pending_calls m) else pending_calls m)
      \<and> current_ws m = Some w'"
    if "awaits_reply (tasks m t) = Some (w', i')"
      "(if current_ws m = Some w \<and> i \<in> set (pending_calls m) \<and> futures m i = Unresolved
        then (futures m)(i := Resolved d) else futures m) i' = Unresolved" for t w' i'
    using that calls_okD(2,3) [OF assms] by (auto split: if_splits)
  show "i' \<in> set (if current_ws m = Some w then removeAll i (pending_calls m) else pending_calls m)"
    if "(i', h) \<in> set (if current_ws m = Some w then AList.delete i (reply_hooks m) else reply_hooks m)" for i' h
    using that calls_okD(6) [OF assms] by (cases h) (auto simp: AList.delete_eq split: if_splits)
qed (use calls_okD(1,4,5,7) [OF assms] calls_ok_pending_fresh [OF assms] in \<open>force split: if_splits\<close>)+

text \<open>A call that starts.\<close>

lemma update_entry: "(a, b) \<in> set (AList.update k v al) \<Longrightarrow> (a, b) = (k, v) \<or> (a, b) \<in> set al"
  by (induction al) (auto split: if_splits)

lemma calls_ok_register:
  assumes "calls_ok m" "call_of (tasks m t) = None" "current_ws m = Some w"
  shows "calls_ok (goto t (Sending p w (next_id_value m)) (acquire t (snd (register_call h m))))"
proof -
  let ?i = "next_id_value m" and ?m = "snd (register_call h m)"
  have new: "next_id_value ?m = ?i + 1" "pending_calls ?m = pending_calls m @ [?i]" "futures ?m = futures m"
    "current_ws ?m = current_ws m" "tasks ?m = tasks m"
    "(i', h') \<in> set (reply_hooks ?m) \<Longrightarrow> i' = ?i \<or> (i', h') \<in> set (reply_hooks m)" for i' h'
    by (auto simp: register_call_def Let_def split: option.splits dest: update_entry)
  have old: "i' \<noteq> ?i" if "call_of (tasks m t') = Some (p', w', i')" for t' p' w' i'
    using calls_okD(1) [OF assms(1) that] by simp
  show ?thesis
  proof (rule calls_okI; (unfold goto_frame acquire_frame new)?)
    show "i' < ?i + 1" if "call_of (((tasks m)(t := Sending p w ?i)) t') = Some (p', w', i')" for t' p' w' i'
      using that calls_okD(1) [OF assms(1)] by (auto split: if_splits) fastforce
    show "i' \<in> set (pending_calls m @ [?i]) \<and> current_ws m = Some w'"
      if "awaits_reply (((tasks m)(t := Sending p w ?i)) t') = Some (w', i')" "futures m i' = Unresolved" for t' w' i'
      using that calls_okD(2,3) [OF assms(1)] assms(3) by (auto split: if_splits)
    show "t1 = t2" if "call_of (((tasks m)(t := Sending p w ?i)) t1) = Some (p1, w1, i')"
      "call_of (((tasks m)(t := Sending p w ?i)) t2) = Some (p2, w2, i')" for t1 t2 p1 w1 p2 w2 i'
      using that old calls_okD(4) [OF assms(1)] by (auto split: if_splits)
    show "\<exists>t' p' w'. call_of (((tasks m)(t := Sending p w ?i)) t') = Some (p', w', i') \<and> current_ws m = Some w'"
      if "i' \<in> set (pending_calls m @ [?i])" for i'
    proof (cases "i' = ?i")
      case True
      then show ?thesis using assms(3) by (intro exI [of _ t]) simp
    next
      case False
      with that obtain t' p' w' where t': "call_of (tasks m t') = Some (p', w', i')" "current_ws m = Some w'"
        using calls_okD(5) [OF assms(1), of i'] by auto
      with assms(2) show ?thesis by (intro exI [of _ t']) auto
    qed
    show "i' \<in> set (pending_calls m @ [?i])" if "(i', h') \<in> set (reply_hooks (snd (register_call h m)))" for i' h'
      using new(6) [OF that] calls_okD(6) [OF assms(1)] by (cases h') auto
    show "futures m i' = Unresolved" if "?i + 1 \<le> i'" for i'
      using that calls_okD(7) [OF assms(1)] by simp
  qed
qed

text \<open>The operations.\<close>

lemma calls_ok_next_id: "calls_ok m \<Longrightarrow> calls_ok (m\<lparr>next_id_value := next_id_value m + 1\<rparr>)"
proof -
  assume ok: "calls_ok m"
  then have "ids_fresh (m\<lparr>next_id_value := next_id_value m + 1\<rparr>)"
    by (auto simp: ids_fresh_def calls_ok_def intro: less_imp_le)
  with ok show ?thesis
    by (simp add: calls_ok_def waits_registered_def ids_unique_def pending_owned_def)
qed

lemma calls_ok_record [simp]:
  "calls_ok (m\<lparr>next_ws := n, open_sockets := ws\<rparr>) = calls_ok m"
  "calls_ok (option_reply r m) = calls_ok m" "calls_ok (untrack q m) = calls_ok m"
  by (rule calls_ok_cong; simp add: untrack_def split: option.split)+

lemma calls_ok_attach:
  assumes "calls_ok m" "conn_ok m" "current_ws m = None" "call_of (tasks m t) = None"
  shows "calls_ok (attach t ws m)"
proof -
  have unawaited: "futures m i = Unresolved \<Longrightarrow> awaits_reply (tasks m t') \<noteq> Some (w, i)" for t' w i
    using calls_okD(3) [OF assms(1), of t' w i] assms(3) by auto
  have "pending_calls m = []" "reply_hooks m = []" using conn_okD(2,3) [OF assms(2,3)] by auto
  then have tables: "set (pending_calls (attach t ws m)) = {}" "set (reply_hooks (attach t ws m)) = {}"
    by (simp_all add: attach_def finish_def Let_def)
  have view: "call_of (tasks (attach t ws m) t') = call_of (tasks m t')"
    "awaits_reply (tasks (attach t ws m) t') = (if t' = t then None else awaits_reply (tasks m t'))"
    "futures (attach t ws m) = futures m" "next_id_value (attach t ws m) = next_id_value m" for t'
    using assms(4) by (simp_all add: attach_def finish_def Let_def)
  show ?thesis
  proof (rule calls_okI; (unfold view tables)?)
    show "i \<in> {} \<and> current_ws (attach t ws m) = Some w"
      if "(if t' = t then None else awaits_reply (tasks m t')) = Some (w, i)" "futures m i = Unresolved" for t' w i
      using that unawaited [OF that(2), of t' w] by (simp split: if_splits)
  qed (use calls_okD(1,4,7) [OF assms(1)] in auto)
qed

lemma calls_ok_connects:
  assumes "calls_ok m" "conn_ok m"
  shows "call_of (tasks m t) = None \<Longrightarrow> calls_ok (start_connect t m)"
    "tasks m t = Opening \<Longrightarrow> calls_ok (connect_opened t a b m)"
    "tasks m t = LoggingIn ws i \<Longrightarrow> calls_ok (connect_logged_in t ws ans m)"
    "tasks m t = SettingOption ws i \<Longrightarrow> calls_ok (connect_option_set t ws ans m)"
    "tasks m t = ConnectCleanup ws x \<Longrightarrow> calls_ok (connect_cleaned_up t ws x c m)"
proof -
  have rep: "conn_ok (option_reply r m) = conn_ok m" for r m by (simp add: conn_ok_def)
  have nid: "calls_ok m \<Longrightarrow> calls_ok (m\<lparr>next_ws := n, open_sockets := os, next_id_value := next_id_value m + 1\<rparr>)" for m n os
    using calls_ok_next_id [of "m\<lparr>next_ws := n, open_sockets := os\<rparr>"] by simp
  note goto = calls_ok_goto and att = calls_ok_attach
  show "call_of (tasks m t) = None \<Longrightarrow> calls_ok (start_connect t m)"
    "tasks m t = Opening \<Longrightarrow> calls_ok (connect_opened t a b m)"
    "tasks m t = ConnectCleanup ws x \<Longrightarrow> calls_ok (connect_cleaned_up t ws x c m)"
    using assms
    by (auto simp: start_connect_def connect_opened_def connect_cleaned_up_def finish_def send_before_reader_def Let_def
        intro!: goto nid split: op_splits)
  show "tasks m t = LoggingIn ws i \<Longrightarrow> calls_ok (connect_logged_in t ws ans m)"
    "tasks m t = SettingOption ws i \<Longrightarrow> calls_ok (connect_option_set t ws ans m)"
    using assms conn_okD(1) [OF assms(2), of t]
    by (auto simp: connect_logged_in_def connect_option_set_def send_before_reader_def rep
        intro!: goto att calls_ok_next_id split: op_splits)
qed

lemma calls_ok_begin:
  assumes "calls_ok m" "call_of (tasks m t) = None"
  shows "calls_ok (begin_call t p m)"
proof (cases "current_ws m")
  case None
  then show ?thesis using calls_ok_conclude [OF assms] by (simp add: begin_call_def)
next
  case (Some ws)
  have "snd (register_call (on_reply p) m) = c \<Longrightarrow> calls_ok (goto t (Sending p ws (next_id_value m)) (acquire t c))" for c
    using calls_ok_register [OF assms Some] by auto
  moreover have "fst (register_call (on_reply p) m) = next_id_value m" by (simp add: register_call_def Let_def)
  ultimately show ?thesis
    using calls_ok_conclude [OF calls_ok_next_id [OF assms(1)]] calls_ok_conclude [OF assms] assms(2) Some
    by (auto simp: begin_call_def split: prod.split)
qed

lemma calls_ok_closing:
  assumes "calls_ok m" "call_of (tasks m t) = Some (p, ws, i)"
  shows "calls_ok (goto t (CallClosing p ws i er) (acquire t (detach_connection_locked x m)))"
  using assms by (intro calls_ok_goto) (simp_all add: calls_ok_detach)

text \<open>\<open>send_failed\<close> has unregistered its call before the detach.\<close>

lemma calls_ok_send_closing:
  assumes "calls_ok m" "call_of (tasks m t) = Some (p, ws, i)"
  shows "calls_ok (goto t (CallClosing p ws i er) (acquire t (detach_connection_locked x (unregister_call i m))))"
    (is "calls_ok ?m'")
proof -
  have view: "call_of (tasks ?m' t') = call_of (tasks m t')"
    "awaits_reply (tasks ?m' t') = (if t' = t then None else awaits_reply (tasks m t'))" for t'
    using assms(2) by simp_all
  have waits_call: "\<exists>p'. call_of s = Some (p', x)" if "awaits_reply s = Some x" for s x
    using that by (cases s) auto
  have other: "t' = t" if "awaits_reply (tasks m t') = Some (w', i)" for t' w'
    using waits_call [OF that] calls_okD(4) [OF assms(1,2)] by blast
  have done': "futures ?m' i' \<noteq> Unresolved"
    if "awaits_reply (tasks m t') = Some (w', i')" "t' \<noteq> t" for t' w' i'
    using that other [of t'] calls_okD(2) [OF assms(1) that(1)] by auto
  have fresh: "futures ?m' i' = Unresolved" if "next_id_value m \<le> i'" for i'
    using that calls_okD(7) [OF assms(1)] calls_ok_pending_fresh [OF assms(1), of i'] by auto
  show ?thesis
  proof (rule calls_okI; (unfold view)?)
    show "i' \<in> set (pending_calls ?m') \<and> current_ws ?m' = Some w'"
      if "(if t' = t then None else awaits_reply (tasks m t')) = Some (w', i')" "futures ?m' i' = Unresolved" for t' w' i'
      using that done' [of t' w' i'] by (simp split: if_splits)
  qed (use calls_okD(1,4) [OF assms(1)] fresh in auto)
qed

lemma calls_ok_calls:
  assumes "calls_ok m" "call_of (tasks m t) = Some (p, ws, i)"
  shows "tasks m t = Sending p ws i \<Longrightarrow> calls_ok (call_sent t p ws i m)"
    "calls_ok (send_failed t p ws i msg m)" "calls_ok (send_raised t p ws i er m)"
    "calls_ok (call_cancelled t p ws i m)" "calls_ok (call_timed_out t p ws i m)"
    "calls_ok (close_timed_out t p ws i m)" "calls_ok (timeout_cancelled t p ws i m)"
    "calls_ok (call_closed t p ws i err c m)"
proof -
  have twice: "unregister_call i (release (unregister_call i m)) = unregister_call i (release m)"
    by (simp add: unregister_call_def release_def AList.delete_eq)
  have comm: "release (unregister_call i m) = unregister_call i (release m)"
    by (simp add: unregister_call_def release_def)
  have fresh: "i < next_id_value m" using calls_okD(1) [OF assms] .
  note leave = calls_ok_concluded [where p = p and w = ws]
  show "calls_ok (send_failed t p ws i msg m)"
    using assms leave [of "release m" t i]
    by (auto simp: send_failed_def call_failed_locked_def twice intro: calls_ok_send_closing)
  show "calls_ok (close_timed_out t p ws i m)"
    using assms leave [of "release m" t i]
    by (auto simp: close_timed_out_def call_failed_locked_def intro: calls_ok_closing)
  show "calls_ok (send_raised t p ws i er m)"
    using assms leave [of "release m" t i] by (simp add: send_raised_def comm)
  show "calls_ok (call_cancelled t p ws i m)"
    using assms fresh leave [of "cancel_future i m" t i] by (simp add: call_cancelled_def calls_ok_cancel)
  show "calls_ok (call_timed_out t p ws i m)"
    using assms fresh by (auto simp: call_timed_out_def intro!: calls_ok_goto calls_ok_cancel)
  show "calls_ok (timeout_cancelled t p ws i m)"
    using assms leave [of m t i] leave [of "release_socket ws (detach_connection_locked (closed_after p) m)" t i]
    by (auto simp: timeout_cancelled_def calls_ok_detach)
  show "calls_ok (call_closed t p ws i err c m)"
    using assms leave [of "release (release_socket ws m)" t i] by (simp add: call_closed_def)
  show "tasks m t = Sending p ws i \<Longrightarrow> calls_ok (call_sent t p ws i m)"
    using assms by (auto simp: call_sent_def intro!: calls_ok_goto)
qed

lemma calls_ok_ops:
  assumes "calls_ok m" "call_of (tasks m t) = None"
  shows "calls_ok (start_subscribe t ev m)" "calls_ok (start_unsubscribe t sid m)"
    "calls_ok (forget_subscription t wo sid oc m)" "calls_ok (start_enable t m)" "calls_ok (enable_locked t m)"
    "calls_ok (finish t oc m)" "calls_ok (start_close t m)" "calls_ok (close_done t ws m)"
    "calls_ok (close_cancelled t ws m)" "calls_ok (close_finished t ws oc m)"
  using assms
  by (auto simp: start_subscribe_def other_ops finish_def Let_def calls_ok_detach
      intro!: calls_ok_begin calls_ok_goto split: option.split)

lemma calls_ok_readers:
  assumes "calls_ok m"
  shows "calls_ok (route w d m)" "calls_ok (reader_teardown w cause m)"
  using assms
  by (auto simp: route_def route_collection_def reader_teardown_def teardown_connection_def calls_ok_reply
      calls_ok_detach split: route_kind.split sum.split)

lemma calls_ok_step:
  assumes "client_step m e m'" "conn_ok m" "calls_ok m"
  shows "calls_ok m'"
  using assms
  by (induction rule: client_step.induct)
    (auto simp: calls_ok_connects calls_ok_begin calls_ok_calls calls_ok_ops calls_ok_readers
      calls_ok_concluded calls_ok_conclude elim!: call_answeredE)

end
