(* ===== verification/ClientRun.thy ===== *)
theory ClientRun
  imports ClientSteps
begin

text \<open>
  The step relation of the client as a function of the event: what happens is determined by the
  machine and the event, and a concrete run can be evaluated.
\<close>

definition guarded :: "bool \<Rightarrow> machine \<Rightarrow> machine option" where
  "guarded b m = (if b then Some m else None)"

lemma guarded_Some [simp]: "guarded b m = Some m' \<longleftrightarrow> b \<and> m' = m" "Some m' = guarded b m \<longleftrightarrow> b \<and> m' = m"
  by (auto simp: guarded_def)

fun do_event :: "client_event \<Rightarrow> machine \<Rightarrow> machine option" where
  "do_event (Connect t) m = guarded (tasks m t = NoTask \<and> lock m = None) (start_connect t m)"
| "do_event (Call t f ps) m = guarded (tasks m t = NoTask \<and> lock m = None) (begin_call t (ForCall f ps) m)"
| "do_event (Subscribe t ev) m = guarded (tasks m t = NoTask \<and> lock m = None) (start_subscribe t ev m)"
| "do_event (Unsubscribe t sid) m = guarded (tasks m t = NoTask \<and> lock m = None) (start_unsubscribe t sid m)"
| "do_event (EnablePrivate t) m = guarded (tasks m t = NoTask) (start_enable t m)"
| "do_event (Close t) m = guarded (tasks m t = NoTask \<and> lock m = None) (start_close t m)"
| "do_event (PrivateLock t) m = guarded (tasks m t = AwaitingPrivateLock \<and> private_lock m = None) (enable_locked t m)"
| "do_event (PrivateLockCancelled t) m = guarded (tasks m t = AwaitingPrivateLock) (finish t (Raised (Builtin CancelledError)) m)"
| "do_event (Opened t a b) m = (case tasks m t of Opening \<Rightarrow> Some (connect_opened t a b m) | _ \<Rightarrow> None)"
| "do_event (LoginAnswer t a) m = (case tasks m t of LoggingIn ws i \<Rightarrow> Some (connect_logged_in t ws a m) | _ \<Rightarrow> None)"
| "do_event (OptionAnswer t a) m = (case tasks m t of SettingOption ws i \<Rightarrow> Some (connect_option_set t ws a m) | _ \<Rightarrow> None)"
| "do_event (ConnectCleaned t c) m = (case tasks m t of ConnectCleanup ws x \<Rightarrow> Some (connect_cleaned_up t ws x c m) | _ \<Rightarrow> None)"
| "do_event (LockForCall t) m = (case tasks m t of AwaitingLock p \<Rightarrow> guarded (lock m = None) (begin_call t p m) | _ \<Rightarrow> None)"
| "do_event (LockCancelled t) m = (case tasks m t of AwaitingLock p \<Rightarrow> Some (conclude t p 0 (Inl (Builtin CancelledError)) m) | _ \<Rightarrow> None)"
| "do_event (Sent t) m = (case tasks m t of Sending p ws i \<Rightarrow> Some (call_sent t p ws i m) | _ \<Rightarrow> None)"
| "do_event (SendFailed t x) m = (case tasks m t of Sending p ws i \<Rightarrow> Some (send_failed t p ws i x m) | _ \<Rightarrow> None)"
| "do_event (SendRaised t er) m = (case tasks m t of Sending p ws i \<Rightarrow> Some (send_raised t p ws i er m) | _ \<Rightarrow> None)"
| "do_event (Answered t) m = (case tasks m t of Waiting p ws i \<Rightarrow> call_answered t p ws i m | _ \<Rightarrow> None)"
| "do_event (CallCancelled t) m = (case tasks m t of Waiting p ws i \<Rightarrow> Some (call_cancelled t p ws i m) | _ \<Rightarrow> None)"
| "do_event (Timeout t) m = (case tasks m t of Waiting p ws i \<Rightarrow> Some (call_timed_out t p ws i m) | _ \<Rightarrow> None)"
| "do_event (TimeoutLock t) m = (case tasks m t of TimedOut p ws i \<Rightarrow> guarded (lock m = None) (close_timed_out t p ws i m) | _ \<Rightarrow> None)"
| "do_event (TimeoutCancelled t) m = (case tasks m t of TimedOut p ws i \<Rightarrow> Some (timeout_cancelled t p ws i m) | _ \<Rightarrow> None)"
| "do_event (CallClosed t c) m = (case tasks m t of CallClosing p ws i er \<Rightarrow> Some (call_closed t p ws i er c m) | _ \<Rightarrow> None)"
| "do_event (Forget t) m = (case tasks m t of Forgetting wo sid oc \<Rightarrow> guarded (lock m = None) (forget_subscription t wo sid oc m) | _ \<Rightarrow> None)"
| "do_event (ForgetCancelled t) m = (case tasks m t of Forgetting wo sid oc \<Rightarrow> Some (finish t (Raised (Builtin CancelledError)) m) | _ \<Rightarrow> None)"
| "do_event (CloseDone t) m = (case tasks m t of Closing ws \<Rightarrow> Some (close_done t ws m) | _ \<Rightarrow> None)"
| "do_event (CloseCancelled t) m = (case tasks m t of Closing ws \<Rightarrow> Some (close_cancelled t ws m) | _ \<Rightarrow> None)"
| "do_event (ReaderAwaited t) m = (case tasks m t of AwaitingReader ws \<Rightarrow> guarded (readers m ws = ReaderDone) (close_finished t ws (Returned PNone) m) | _ \<Rightarrow> None)"
| "do_event (AwaitCancelled t) m = (case tasks m t of AwaitingReader ws \<Rightarrow> Some (close_finished t ws (Raised (Builtin CancelledError)) m) | _ \<Rightarrow> None)"
| "do_event (Receive ws msg) m = guarded (readers m ws = Reading) (receive ws msg m)"
| "do_event (Route ws) m = (case readers m ws of
     Routing c \<Rightarrow> guarded (lock m = None) (route ws c m)
   | RoutingUpdate c qs \<Rightarrow> guarded (lock m = None) (route_update ws c qs m) | _ \<Rightarrow> None)"
| "do_event (Lost ws x) m = guarded (readers m ws = Reading) (set_reader ws (TearingDown (Some x)) (drop_socket ws m))"
| "do_event (Crashed ws x) m = guarded (readers m ws = Reading) (set_reader ws (TearingDown (Some x)) m)"
| "do_event (Teardown ws) m = (case readers m ws of TearingDown cause \<Rightarrow> guarded (lock m = None) (reader_teardown ws cause m) | _ \<Rightarrow> None)"

lemma step_do_event: "client_step m e m' \<Longrightarrow> do_event e m = Some m'"
  by (induction rule: client_step.induct) auto

lemma do_event_step: "do_event e m = Some m' \<Longrightarrow> client_step m e m'"
  by (cases e) (auto intro: client_step.intros split: task.splits reader.splits)

text \<open>A run of allowed events.\<close>

fun run_events :: "(machine \<Rightarrow> client_event \<Rightarrow> bool) \<Rightarrow> client_event list \<Rightarrow> machine \<Rightarrow> machine option" where
  "run_events allowed [] m = Some m"
| "run_events allowed (e # es) m =
     (if allowed m e then (case do_event e m of None \<Rightarrow> None | Some m' \<Rightarrow> run_events allowed es m') else None)"

lemma run_reachable:
  "run_events allowed es m = Some m' \<Longrightarrow> client_reachable allowed m \<Longrightarrow> client_reachable allowed m'"
  by (induction es arbitrary: m) (auto intro: client_next do_event_step split: if_splits option.splits)

definition run :: "(machine \<Rightarrow> client_event \<Rightarrow> bool) \<Rightarrow> client_event list \<Rightarrow> machine" where
  "run allowed es = (case run_events allowed es init_machine of None \<Rightarrow> init_machine | Some m \<Rightarrow> m)"

lemma client_run_reachable: "client_reachable allowed (run allowed es)"
  using run_reachable [OF _ client_init] by (simp add: run_def client_init split: option.split)

definition possible :: "(machine \<Rightarrow> client_event \<Rightarrow> bool) \<Rightarrow> client_event list \<Rightarrow> bool" where
  "possible allowed es = (case run_events allowed es init_machine of None \<Rightarrow> False | Some _ \<Rightarrow> True)"

lemma run_events_append:
  "run_events allowed (es @ es') m =
    (case run_events allowed es m of None \<Rightarrow> None | Some m' \<Rightarrow> run_events allowed es' m')"
  by (induction es arbitrary: m) (auto split: option.split)

lemma run_step: "possible allowed (es @ [e]) \<Longrightarrow> client_step (run allowed es) e (run allowed (es @ [e]))"
  by (auto simp: possible_def run_def run_events_append intro: do_event_step split: option.splits if_splits)

definition login_ok :: transport where
  "login_ok = Reply [(PStr ''result'', PBool True)]"

text \<open>The events of a client that connects, and of a call of it.\<close>

definition connecting :: "client_event list" where
  "connecting = [Connect 0, Opened 0 OpenOk OpenOk, LoginAnswer 0 login_ok]"

definition answer_to :: "int \<Rightarrow> pyval \<Rightarrow> pydict" where
  "answer_to i v = [(PStr ''id'', PInt i), (PStr ''result'', v)]"

definition replying :: "int \<Rightarrow> pyval \<Rightarrow> client_event list" where
  "replying i v = [Receive 0 (Some (PDict (answer_to i v))), Route 0]"

definition calling :: "client_event list" where
  "calling = connecting @ [Call 1 ''system.info'' PNone, Sent 1]"

text \<open>
  The step relation is the function: an event that can happen has one result, which
  \<open>do_event\<close> computes.
\<close>

lemma step_iff_event: "client_step m e m' \<longleftrightarrow> do_event e m = Some m'"
  using step_do_event do_event_step by blast

end
