(* ===== verification/ClientProps.thy ===== *)
theory ClientProps
  imports ClientCalls ClientRun
begin

text \<open>
  Every reachable machine satisfies the invariants of the lock, the connection and the calls; on
  top of them, what a caller can rely on.
\<close>

section \<open>Invariants of the reachable machines\<close>

text \<open>
  An invariant of the machines an environment allows, relative to what is known of them already.
\<close>

locale client_invariant =
  fixes allowed :: "machine \<Rightarrow> client_event \<Rightarrow> bool" and known :: "machine \<Rightarrow> bool"
    and keeps_inv :: "machine \<Rightarrow> bool"
  assumes known: "client_reachable allowed m \<Longrightarrow> known m"
    and holds_init: "keeps_inv init_machine"
    and holds_step: "client_step m e m' \<Longrightarrow> allowed m e \<Longrightarrow> known m \<Longrightarrow> keeps_inv m \<Longrightarrow> keeps_inv m'"
begin

lemma holds: "client_reachable allowed m \<Longrightarrow> keeps_inv m"
  by (induction rule: client_reachable.induct) (auto intro: holds_init holds_step known)

lemma holds_known: "client_reachable allowed m \<Longrightarrow> known m \<and> keeps_inv m"
  using known holds by blast

end

definition core_ok :: "machine \<Rightarrow> bool" where
  "core_ok m \<longleftrightarrow> lock_ok m \<and> conn_ok m \<and> calls_ok m"

lemma machine_init_ok: "core_ok init_machine"
  by (simp add: core_ok_def lock_ok_def conn_ok_def calls_ok_def ids_fresh_def waits_registered_def
      ids_unique_def pending_owned_def init_machine_def)

interpretation core: client_invariant allowed "\<lambda>_. True" core_ok for allowed
  by unfold_locales ((rule TrueI machine_init_ok)+, auto simp: core_ok_def intro: lock_ok_step conn_ok_step calls_ok_step)

lemmas core_okD = core.holds [unfolded core_ok_def, THEN conjunct1]
  core.holds [unfolded core_ok_def, THEN conjunct2, THEN conjunct1]
  core.holds [unfolded core_ok_def, THEN conjunct2, THEN conjunct2]

section \<open>Replies\<close>

text \<open>Nothing but the reader resolves a future.\<close>

lemma resolved_conns:
  "futures (start_connect t m) = futures m" "futures (connect_opened t a b m) = futures m"
  "futures (connect_logged_in t ws ans m) = futures m" "futures (connect_option_set t ws ans m) = futures m"
  "futures (connect_cleaned_up t ws x c m) = futures m"
  by (auto simp: connect_ops move_defs Let_def split: op_splits)

lemma resolved_begin: "futures (begin_call t p m) = futures m"
  by (auto simp: begin_call_def register_call_def Let_def split: op_splits)

lemma resolved_ops:
  "futures (start_subscribe t ev m) = futures m" "futures (start_unsubscribe t sid m) = futures m"
  "futures (forget_subscription t wo sid oc m) = futures m" "futures (start_enable t m) = futures m"
  "futures (enable_locked t m) = futures m" "futures (finish t oc m) = futures m"
  "futures (call_sent t p ws i m) = futures m" "futures (send_raised t p ws i er m) = futures m"
  "futures (call_closed t p ws i err c m) = futures m" "futures (close_done t ws m) = futures m"
  "futures (close_cancelled t ws m) = futures m" "futures (close_finished t ws oc m) = futures m"
  by (auto simp: start_subscribe_def resolved_begin other_ops finish_def call_sent_def send_raised_def
      call_closed_def Let_def split: op_splits)

lemma resolved_closing:
  "futures (send_failed t p ws i msg m) j = Resolved d \<Longrightarrow> futures m j = Resolved d"
  "futures (call_cancelled t p ws i m) j = Resolved d \<Longrightarrow> futures m j = Resolved d"
  "futures (call_timed_out t p ws i m) j = Resolved d \<Longrightarrow> futures m j = Resolved d"
  "futures (close_timed_out t p ws i m) j = Resolved d \<Longrightarrow> futures m j = Resolved d"
  "futures (timeout_cancelled t p ws i m) j = Resolved d \<Longrightarrow> futures m j = Resolved d"
  "futures (start_close t m) j = Resolved d \<Longrightarrow> futures m j = Resolved d"
  "futures (reader_teardown ws cause m) j = Resolved d \<Longrightarrow> futures m j = Resolved d"
  by (auto simp: send_failed_def call_cancelled_def call_timed_out_def close_timed_out_def call_failed_locked_def
      timeout_cancelled_def start_close_def reader_teardown_def teardown_connection_def finish_def
      split: if_splits option.splits)

lemma resolved_route:
  "futures (route ws c m) j = Resolved d \<Longrightarrow> futures m j = Unresolved
    \<Longrightarrow> current_ws m = Some ws \<and> d = c \<and> route_message c = RpcReply j"
  by (auto simp: route_def route_collection_def handle_rpc_tables split: route_kind.splits sum.splits if_splits)

lemma resolved_by_reader:
  assumes "client_step m e m'" "futures m i = Unresolved" "futures m' i = Resolved d"
  shows "\<exists>ws. e = Route ws \<and> current_ws m = Some ws \<and> route_message d = RpcReply i"
  using assms
  by (induction rule: client_step.induct)
    (auto simp: resolved_conns resolved_begin resolved_ops dest: resolved_closing resolved_route elim!: call_answeredE)

section \<open>Waiting calls\<close>

text \<open>The future of a call that still waits is not cancelled: only its own task cancels it.\<close>

definition waits_alive :: "machine \<Rightarrow> bool" where
  "waits_alive m \<longleftrightarrow> (\<forall>t w i. awaits_reply (tasks m t) = Some (w, i) \<longrightarrow> futures m i \<noteq> CancelledFuture)"

lemma awaits_call: "awaits_reply s = Some (w, i) \<Longrightarrow> \<exists>p. call_of s = Some (p, w, i)"
  by (cases s) auto

lemma waits_alive_cong:
  assumes "waits_alive m" "\<And>t w i. awaits_reply (tasks m' t) = Some (w, i) \<Longrightarrow> awaits_reply (tasks m t) = Some (w, i)"
    "\<And>i. futures m' i = CancelledFuture \<Longrightarrow> futures m i = CancelledFuture"
  shows "waits_alive m'"
  using assms unfolding waits_alive_def by blast

lemma waits_alive_cancel:
  assumes "waits_alive m" "calls_ok m" "call_of (tasks m t) = Some (p, w, i)"
    and "\<And>t'. awaits_reply (tasks m' t') = (if t' = t then None else awaits_reply (tasks m t'))"
    and "\<And>j. futures m' j = CancelledFuture \<Longrightarrow> j = i \<or> futures m j = CancelledFuture"
  shows "waits_alive m'"
proof -
  have "t' = t" if "awaits_reply (tasks m t') = Some (w', i)" for t' w'
    using awaits_call [OF that] calls_okD(4) [OF assms(2,3)] by blast
  then show ?thesis
    using assms(1,4,5) unfolding waits_alive_def by (metis option.distinct(1))
qed

lemma waits_alive_keep:
  assumes "waits_alive m"
  shows "waits_alive (start_connect t m)" "waits_alive (connect_opened t a b m)"
    "waits_alive (connect_logged_in t ws ans m)" "waits_alive (connect_option_set t ws ans m)"
    "waits_alive (connect_cleaned_up t ws x c m)"
    "waits_alive (start_unsubscribe t sid m)" "waits_alive (forget_subscription t wo sid oc m)"
    "waits_alive (start_enable t m)" "waits_alive (enable_locked t m)" "waits_alive (finish t oc m)"
    "waits_alive (start_close t m)" "waits_alive (close_done t ws m)" "waits_alive (close_cancelled t ws m)"
    "waits_alive (close_finished t ws oc m)" "waits_alive (receive ws msg m)" "waits_alive (route ws d m)"
    "waits_alive (route_update ws d qs m)" "waits_alive (reader_teardown ws cause m)"
    "waits_alive (set_reader ws rd m)" "waits_alive (drop_socket ws m)"
  by (rule waits_alive_cong [OF assms];
      auto simp: resolved_conns resolved_ops connect_ops other_ops finish_def route_def route_collection_def
        route_update_def reader_teardown_def teardown_connection_def handle_rpc_tables Let_def
        split: op_splits route_kind.splits)+

lemma waits_alive_begin:
  assumes "waits_alive m" "calls_ok m"
  shows "waits_alive (begin_call t p m)" "waits_alive (start_subscribe t ev m)"
proof -
  have new: "futures m (next_id_value m) = Unresolved" using calls_okD(7) [OF assms(2)] by simp
  have bc: "awaits_reply (tasks (begin_call t p m) t') = Some (w, i) \<Longrightarrow>
      awaits_reply (tasks m t') = Some (w, i) \<or> i = next_id_value m" for p m t' w i
    by (auto simp: begin_call_def register_call_def Let_def split: op_splits)
  show "waits_alive (begin_call t p m)"
    using assms(1) new bc by (force simp: waits_alive_def resolved_begin)
  show "waits_alive (start_subscribe t ev m)"
    using assms(1) new bc [where m = "m\<lparr>next_queue := next_queue m + 1\<rparr>"]
    by (force simp: waits_alive_def start_subscribe_def resolved_begin Let_def)
qed

lemma waits_alive_calls:
  assumes "waits_alive m" "calls_ok m" "call_of (tasks m t) = Some (p, ws, i)"
  shows "tasks m t = Sending p ws i \<Longrightarrow> waits_alive (call_sent t p ws i m)"
    "waits_alive (send_failed t p ws i msg m)" "waits_alive (send_raised t p ws i er m)"
    "waits_alive (call_cancelled t p ws i m)" "waits_alive (call_timed_out t p ws i m)"
    "waits_alive (close_timed_out t p ws i m)" "waits_alive (timeout_cancelled t p ws i m)"
    "waits_alive (call_closed t p ws i err c m)"
    "waits_alive (conclude t p ws r (unregister_call i m))"
proof -
  show "tasks m t = Sending p ws i \<Longrightarrow> waits_alive (call_sent t p ws i m)"
    by (rule waits_alive_cong [OF assms(1)]) (auto simp: call_sent_def split: if_splits)
  show "waits_alive (send_failed t p ws i msg m)" "waits_alive (send_raised t p ws i er m)"
    "waits_alive (call_cancelled t p ws i m)" "waits_alive (call_timed_out t p ws i m)"
    "waits_alive (close_timed_out t p ws i m)" "waits_alive (timeout_cancelled t p ws i m)"
    "waits_alive (call_closed t p ws i err c m)"
    "waits_alive (conclude t p ws r (unregister_call i m))"
    by (rule waits_alive_cancel [OF assms];
        auto simp: send_failed_def send_raised_def call_cancelled_def call_timed_out_def close_timed_out_def
          call_failed_locked_def timeout_cancelled_def call_closed_def split: if_splits)+
qed

lemma waits_alive_conclude: "waits_alive m \<Longrightarrow> waits_alive (conclude t p w r m)"
  by (erule waits_alive_cong) (auto split: if_splits)

lemma waits_alive_step:
  assumes "client_step m e m'" "calls_ok m" "waits_alive m"
  shows "waits_alive m'"
  using assms
  by (induction rule: client_step.induct)
    (auto simp: waits_alive_keep waits_alive_begin waits_alive_calls waits_alive_conclude elim!: call_answeredE)

interpretation alive: client_invariant allowed core_ok waits_alive for allowed
proof unfold_locales
  show "waits_alive init_machine" by (simp add: waits_alive_def init_machine_def)
  show "client_reachable allowed m \<Longrightarrow> core_ok m" for m by (rule core.holds)
qed (auto simp: core_ok_def intro: waits_alive_step)

text \<open>
  C1: a call that waits has either an answer it can return with at once, or is registered on
  the connection that is current: whatever closes or loses the connection wakes it, so no call
  waits for a reply that cannot come.
\<close>

theorem waiting_call_woken:
  assumes "client_reachable allowed m" "tasks m t = Waiting p ws i"
  shows "(i \<in> set (pending_calls m) \<and> current_ws m = Some ws \<and> futures m i = Unresolved)
    \<or> (\<exists>m'. client_step m (Answered t) m' \<and> settled (tasks m' t))"
proof (cases "futures m i")
  case Unresolved
  with assms(2) core_okD(3) [OF assms(1)] show ?thesis
    using calls_okD(2,3) [of m t ws i] by simp
next
  case (Resolved d)
  then show ?thesis
    using client_step.answered [OF assms(2)] conclude_task_settled by (fastforce simp: call_answered_def)
next
  case (FailedWith e)
  then show ?thesis
    using client_step.answered [OF assms(2)] conclude_task_settled by (fastforce simp: call_answered_def)
next
  case CancelledFuture
  with assms(2) alive.holds [OF assms(1)] show ?thesis by (simp add: waits_alive_def) (metis awaits_reply.simps(2))
qed

lemma waiting_call_woken_witness:
  "(2 \<in> set (pending_calls (run (\<lambda>_ _. True) calling)) \<and> current_ws (run (\<lambda>_ _. True) calling) = Some 0
      \<and> futures (run (\<lambda>_ _. True) calling) 2 = Unresolved)
    \<or> (\<exists>m'. client_step (run (\<lambda>_ _. True) calling) (Answered 1) m' \<and> settled (tasks m' 1))"
  by (rule waiting_call_woken [OF client_run_reachable, where p = "ForCall ''system.info'' PNone"]) code_simp

text \<open>
  C4: no reply goes astray: the future of a waiting call becomes a reply only by the reader of
  the connection the call was sent on, while that is the current one, and only by a message that
  carries the id of the call.
\<close>

theorem reply_reaches_own_call:
  assumes "client_reachable allowed m" "client_step m e m'" "tasks m t = Waiting p ws i"
    and "futures m i = Unresolved" "futures m' i = Resolved d"
  shows "e = Route ws \<and> current_ws m = Some ws \<and> route_message d = RpcReply i"
  using resolved_by_reader [OF assms(2,4,5)] calls_okD(3) [OF core_okD(3) [OF assms(1)], of t ws i] assms(3,4)
  by auto

lemma reply_reaches_own_call_witness:
  "Route 0 = Route 0 \<and> current_ws (run (\<lambda>_ _. True) (calling @ [hd (replying 2 PNone)])) = Some 0
    \<and> route_message (answer_to 2 PNone) = RpcReply 2"
proof (rule reply_reaches_own_call [OF client_run_reachable run_step])
  show "possible (\<lambda>_ _. True) ((calling @ [hd (replying 2 PNone)]) @ [Route 0])" by code_simp
  show "tasks (run (\<lambda>_ _. True) (calling @ [hd (replying 2 PNone)])) 1 = Waiting (ForCall ''system.info'' PNone) 0 2"
    by code_simp
  show "futures (run (\<lambda>_ _. True) (calling @ [hd (replying 2 PNone)])) 2 = Unresolved" by code_simp
  show "futures (run (\<lambda>_ _. True) ((calling @ [hd (replying 2 PNone)]) @ [Route 0])) 2 = Resolved (answer_to 2 PNone)"
    by code_simp
qed

text \<open>
  C25: nothing is left behind: every pending call belongs to a task that is still in it, on the
  current connection; a reply hook belongs to a pending call; without a connection all the
  tables are empty.
\<close>

theorem tables_hold_live_calls:
  assumes "client_reachable allowed m"
  shows "(\<forall>i \<in> set (pending_calls m). \<exists>t p w. call_of (tasks m t) = Some (p, w, i) \<and> current_ws m = Some w)
    \<and> fst ` set (reply_hooks m) \<subseteq> set (pending_calls m)
    \<and> (current_ws m = None \<longrightarrow> pending_calls m = [] \<and> reply_hooks m = [] \<and> subscriptions m = []
         \<and> subscription_events m = [] \<and> private_methods_ws m = None)"
  using calls_okD(5,6) [OF core_okD(3) [OF assms]] conn_okD(2,3,4,5,8) [OF core_okD(2) [OF assms]]
  by auto

lemma tables_hold_live_calls_witness:
  "\<exists>t p w. call_of (tasks (run (\<lambda>_ _. True) calling) t) = Some (p, w, 2)
    \<and> current_ws (run (\<lambda>_ _. True) calling) = Some w"
proof -
  have "2 \<in> set (pending_calls (run (\<lambda>_ _. True) calling))" by code_simp
  then show ?thesis using tables_hold_live_calls [OF client_run_reachable [of "\<lambda>_ _. True" calling]] by blast
qed

end
