(* ===== verification/ClientTrace.thy ===== *)
theory ClientTrace
  imports ClientProps
begin

text \<open>
  Runs of the client from any machine on, with the log of the requests that were answered: what was
  sent, and on which connection, where the state of the client keeps only its own notes of it.
\<close>

section \<open>The log\<close>

text \<open>
  The requests whose reply a task reads in a step, beside the login: the option that \<open>connect\<close> sends
  before the reader runs, and those of \<open>_call_on_connection\<close>.
\<close>

type_synonym request = "conn \<times> string \<times> pyval"

definition answered_requests :: "machine \<Rightarrow> client_event \<Rightarrow> request list" where
  "answered_requests m e =
     (case e of
        OptionAnswer t (Reply r) \<Rightarrow>
          (case tasks m t of
             SettingOption ws i \<Rightarrow> [(ws, SET_OPTIONS, PList [PRIVATE_METHODS_OPTION])] | _ \<Rightarrow> [])
      | Answered t \<Rightarrow>
          (case tasks m t of
             Waiting p ws i \<Rightarrow>
               (case futures m i of Resolved r \<Rightarrow> [(ws, method_of p, normalize_params (params_of p))] | _ \<Rightarrow> [])
           | _ \<Rightarrow> [])
      | _ \<Rightarrow> [])"

inductive client_log :: "machine \<Rightarrow> request list \<Rightarrow> machine \<Rightarrow> bool" for m where
  log_start: "client_log m [] m"
| log_step: "client_log m h m' \<Longrightarrow> client_step m' e m'' \<Longrightarrow> client_log m (h @ answered_requests m' e) m''"

lemma client_log_reachable:
  "client_log m h m' \<Longrightarrow> client_reachable (\<lambda>_ _. True) m \<Longrightarrow> client_reachable (\<lambda>_ _. True) m'"
  by (induction rule: client_log.induct) (auto intro: client_next)

lemma client_log_init: "client_log init_machine h m \<Longrightarrow> client_reachable (\<lambda>_ _. True) m"
  using client_log_reachable client_init by blast

lemma reachable_any: "client_reachable allowed m \<Longrightarrow> client_reachable (\<lambda>_ _. True) m"
  by (induction rule: client_reachable.induct) (auto intro: client_init client_next)

text \<open>What every step keeps holds all along a run.\<close>

lemma client_log_keeps:
  assumes "client_log m h m'" "client_reachable (\<lambda>_ _. True) m" "P m"
    and "\<And>m e m'. client_step m e m' \<Longrightarrow> client_reachable (\<lambda>_ _. True) m \<Longrightarrow> P m \<Longrightarrow> P m'"
  shows "P m'"
  using assms(1,3)
proof (induction rule: client_log.induct)
  case (log_step h m' e m'')
  then show ?case using assms(4) client_log_reachable [OF log_step.hyps(1) assms(2)] by blast
qed simp

text \<open>The log of a list of events.\<close>

fun log_of :: "client_event list \<Rightarrow> machine \<Rightarrow> request list" where
  "log_of [] m = []"
| "log_of (e # es) m =
     answered_requests m e @ (case do_event e m of None \<Rightarrow> [] | Some m' \<Rightarrow> log_of es m')"

lemma run_events_log:
  "run_events allowed es m = Some m' \<Longrightarrow> client_log m0 h m \<Longrightarrow> client_log m0 (h @ log_of es m) m'"
proof (induction es arbitrary: m h)
  case (Cons e es)
  then obtain m1 where m1: "do_event e m = Some m1" "run_events allowed es m1 = Some m'"
    by (auto split: if_splits option.splits)
  from Cons.IH [OF m1(2) log_step [OF Cons.prems(2) do_event_step [OF m1(1)]]] m1(1) show ?case by simp
qed simp

lemma run_log: "possible allowed es \<Longrightarrow> client_log init_machine (log_of es init_machine) (run allowed es)"
  using run_events_log [OF _ log_start, of allowed es init_machine]
  by (auto simp: possible_def run_def split: option.splits)

lemma run_log_from:
  assumes "possible allowed (es @ es')"
  shows "client_log (run allowed es) (log_of es' (run allowed es)) (run allowed (es @ es'))"
proof -
  obtain m m' where "run_events allowed es init_machine = Some m" "run_events allowed es' m = Some m'"
    using assms by (auto simp: possible_def run_events_append split: option.splits)
  then show ?thesis
    using run_events_log [OF _ log_start, of allowed es' m m'] by (simp add: run_def run_events_append)
qed

end
