(* ===== verification/ClientPrivate.thy ===== *)
theory ClientPrivate
  imports ClientProps
begin

text \<open>
  The private-methods option: once \<open>enable_private_methods\<close> returned, the client takes it for sent
  on whatever connection is current, although \<open>connect\<close> and \<open>close\<close> may have run meanwhile.  That it
  was sent is the subject of \<open>ClientOption\<close>.
\<close>

section \<open>Who sends the option\<close>

fun wants_private :: "task \<Rightarrow> bool" where
  "wants_private AwaitingPrivateLock = True"
| "wants_private s = (enabling s \<noteq> None)"

fun private_conn :: "caller \<Rightarrow> conn option" where
  "private_conn (ForPrivateMethods ws) = Some ws"
| "private_conn _ = None"

lemma enabling_caller [simp]:
  "enabling (AwaitingLock p) = private_conn p" "enabling (Sending p w i) = private_conn p"
  "enabling (Waiting p w i) = private_conn p" "enabling (TimedOut p w i) = private_conn p"
  "enabling (CallClosing p w i er) = private_conn p"
  by (cases p; simp)+

definition private_ok :: "machine \<Rightarrow> bool" where
  "private_ok m \<longleftrightarrow>
     (\<forall>t. wants_private (tasks m t) \<longrightarrow> private_methods m)
     \<and> (\<forall>t w w'. enabling (tasks m t) = Some w \<longrightarrow> current_ws m = Some w' \<longrightarrow>
          w' = w \<or> private_methods_ws m = Some w')"

lemma wants_private_iff: "wants_private s \<longleftrightarrow> s = AwaitingPrivateLock \<or> enabling s \<noteq> None"
  by (cases s) auto

lemma settled_wants [simp]: "settled s \<Longrightarrow> \<not> wants_private s"
  by (cases s) auto

lemma conclude_wants [simp]:
  "wants_private (tasks (conclude t p ws r m) t') \<longleftrightarrow> t' \<noteq> t \<and> wants_private (tasks m t')"
  using conclude_task_settled conclude_task_others by (cases "t' = t"; simp)

text \<open>A section that leaves the connection alone and starts no new enabling keeps it.\<close>

lemma private_ok_keep:
  assumes "private_ok m" "private_methods m' = private_methods m"
    and "\<And>t. wants_private (tasks m' t) \<Longrightarrow> wants_private (tasks m t)"
    and "\<And>t w. enabling (tasks m' t) = Some w \<Longrightarrow> enabling (tasks m t) = Some w"
    and "current_ws m' = None \<or> current_ws m' = current_ws m
      \<and> (private_methods_ws m' = private_methods_ws m \<or> private_methods_ws m' = current_ws m)"
  shows "private_ok m'"
  using assms(1) unfolding private_ok_def assms(2)
  using assms(3-5) by (metis option.distinct(1))

lemma private_ok_conclude: "private_ok m \<Longrightarrow> private_ok (conclude t p w r m)"
  by (erule private_ok_keep) (use conclude_private [of t p w r m] in \<open>auto split: if_splits\<close>)

lemma private_ok_calls:
  assumes "private_ok m"
  shows "private_ok (start_connect t m)" "private_ok (connect_opened t a b m)" "private_ok (connect_cleaned_up t ws x c m)"
    "private_ok (start_unsubscribe t sid m)" "private_ok (forget_subscription t wo sid oc m)"
    "private_ok (finish t oc m)" "private_ok (start_close t m)" "private_ok (close_done t ws m)"
    "private_ok (close_cancelled t ws m)" "private_ok (close_finished t ws oc m)" "private_ok (receive ws msg m)"
    "private_ok (route ws d m)" "private_ok (route_update ws d qs m)"
    "private_ok (set_reader ws rd m)" "private_ok (drop_socket ws m)" "private_ok (unregister_call i m)"
  by (rule private_ok_keep [OF assms]; auto simp: connect_ops other_ops finish_def Let_def split: op_splits if_splits)+

lemma private_ok_teardown: "private_ok m \<Longrightarrow> private_ok (reader_teardown ws cause m)"
  by (erule private_ok_keep) (auto simp: reader_teardown_def teardown_connection_def split: if_splits)

lemma enabling_wants: "enabling s = Some w \<Longrightarrow> wants_private s"
  by (simp add: wants_private_iff)

lemma private_ok_attach: "private_ok m \<Longrightarrow> private_ok (attach t ws m)"
  using enabling_wants by (fastforce simp: private_ok_def attach_def finish_def Let_def split: if_splits)

lemma private_ok_reply: "private_ok m \<Longrightarrow> private_ok (option_reply r m)"
  by (simp add: private_ok_def)

lemma private_ok_logins:
  assumes "private_ok m"
  shows "private_ok (connect_logged_in t ws ans m)" "private_ok (connect_option_set t ws ans m)"
proof -
  have cleanup: "private_ok (goto t (ConnectCleanup ws x) m)" "private_ok (goto t (SettingOption ws i) (m\<lparr>next_id_value := n\<rparr>))" for x i n
    by (rule private_ok_keep [OF assms]; auto split: if_splits)+
  then show "private_ok (connect_logged_in t ws ans m)" "private_ok (connect_option_set t ws ans m)"
    using assms by (auto simp: connect_logged_in_def connect_option_set_def send_before_reader_def
        private_ok_attach private_ok_reply split: sum.split)
qed

lemma private_ok_begin:
  assumes "private_ok m" "private_conn p = None \<or> enabling (tasks m t) = private_conn p"
  shows "private_ok (begin_call t p m)"
proof -
  have sending: "private_ok (goto t (Sending p w i) (acquire t (snd (register_call h m))))" for w i h
    using assms(2)
    by (intro private_ok_keep [OF assms(1)])
      (auto simp: register_call_def wants_private_iff Let_def split: if_splits)
  have failed: "private_ok (conclude t p w r m)" "private_ok (conclude t p w r (m\<lparr>next_id_value := n\<rparr>))" for w r n
  proof -
    have "private_ok (m\<lparr>next_id_value := n\<rparr>)" using assms(1) by (simp add: private_ok_def)
    then show "private_ok (conclude t p w r (m\<lparr>next_id_value := n\<rparr>))" by (rule private_ok_conclude)
  qed (rule private_ok_conclude [OF assms(1)])
  show ?thesis
    using sending [where h = "on_reply p"] failed
    by (auto simp: begin_call_def split: option.split prod.split)
qed

lemma private_ok_call:
  assumes "private_ok m" "call_of (tasks m t) = Some (p, ws, i)"
  shows "tasks m t = Sending p ws i \<Longrightarrow> private_ok (call_sent t p ws i m)"
    "private_ok (send_failed t p ws i msg m)" "private_ok (send_raised t p ws i er m)"
    "private_ok (call_cancelled t p ws i m)" "private_ok (call_timed_out t p ws i m)"
    "private_ok (close_timed_out t p ws i m)" "private_ok (timeout_cancelled t p ws i m)"
    "private_ok (call_closed t p ws i err c m)"
    "private_ok (conclude t p ws r (unregister_call i m))"
proof -
  have own: "enabling (tasks m t) = private_conn p"
    using assms(2) by (cases "tasks m t") auto
  have closing: "private_ok (goto t (CallClosing p ws i er) (acquire t (detach_connection_locked x m')))"
    if "private_ok m'" "tasks m' = tasks m" for x m' er
    by (rule private_ok_keep [OF that(1)]) (auto simp: that(2) own wants_private_iff split: if_splits)
  show "tasks m t = Sending p ws i \<Longrightarrow> private_ok (call_sent t p ws i m)"
    "private_ok (call_timed_out t p ws i m)"
    by (rule private_ok_keep [OF assms(1)];
        auto simp: call_sent_def call_timed_out_def own wants_private_iff split: if_splits)+
  show "private_ok (send_raised t p ws i er m)" "private_ok (call_cancelled t p ws i m)"
    "private_ok (call_closed t p ws i err c m)" "private_ok (conclude t p ws r (unregister_call i m))"
    unfolding send_raised_def call_cancelled_def call_closed_def
    by (rule private_ok_conclude, rule private_ok_keep [OF assms(1)]; simp)+
  show "private_ok (timeout_cancelled t p ws i m)"
    unfolding timeout_cancelled_def
    by (rule private_ok_conclude, rule private_ok_keep [OF assms(1)]) (auto split: if_splits)
  show "private_ok (send_failed t p ws i msg m)" "private_ok (close_timed_out t p ws i m)"
    unfolding send_failed_def close_timed_out_def call_failed_locked_def
    by (auto intro!: closing private_ok_conclude private_ok_keep [OF assms(1)] simp: assms(1))
qed

lemma private_ok_enables:
  assumes "private_ok m" "conn_ok m"
  shows "private_ok (start_enable t m)" "tasks m t = AwaitingPrivateLock \<Longrightarrow> private_ok (enable_locked t m)"
    "private_ok (start_subscribe t ev m)"
proof -
  show "private_ok (start_enable t m)"
    using assms(1) by (auto simp: private_ok_def start_enable_def split: if_splits)
  show "private_ok (start_subscribe t ev m)"
    using assms(1) by (auto simp: start_subscribe_def Let_def private_ok_def [of "m\<lparr>next_queue := n\<rparr>" for n]
        private_ok_def [of m] intro!: private_ok_begin)
  show "tasks m t = AwaitingPrivateLock \<Longrightarrow> private_ok (enable_locked t m)"
    using assms(1) by (auto simp: private_ok_def enable_locked_def finish_def wants_private_iff split: option.splits if_splits)
qed

lemma private_ok_step:
  assumes "client_step m e m'" "conn_ok m" "private_ok m"
  shows "private_ok m'"
  using assms
  by (induction rule: client_step.induct)
    (auto simp: private_ok_calls private_ok_teardown private_ok_logins private_ok_begin private_ok_call
      private_ok_conclude private_ok_enables elim!: call_answeredE)

interpretation enabled: client_invariant allowed core_ok private_ok for allowed
proof unfold_locales
  show "private_ok init_machine" by (simp add: private_ok_def init_machine_def)
  show "client_reachable allowed m \<Longrightarrow> core_ok m" for m by (rule core.holds)
qed (auto simp: core_ok_def intro: private_ok_step)

section \<open>When it returns\<close>

text \<open>How an enabling call ends: with the option known to be in effect, unless it raises.\<close>

definition option_known :: "conn \<Rightarrow> machine \<Rightarrow> bool" where
  "option_known w m \<longleftrightarrow> (\<forall>w'. current_ws m = Some w' \<longrightarrow> w' = w \<or> private_methods_ws m = Some w')"

lemma private_okD:
  assumes "private_ok m"
  shows "enabling (tasks m t) = Some w \<Longrightarrow> option_known w m" "wants_private (tasks m t) \<Longrightarrow> private_methods m"
  using assms by (auto simp: private_ok_def option_known_def)

lemma conclude_effect:
  "option_known w m \<Longrightarrow> tasks (conclude t (ForPrivateMethods w) ws r m) t = Finished (Returned v)
    \<Longrightarrow> current_ws (conclude t (ForPrivateMethods w) ws r m) = Some w'
    \<Longrightarrow> private_methods_ws (conclude t (ForPrivateMethods w) ws r m) = Some w'"
  by (auto simp: conclude_def option_known_def option_sent_def log_private_methods_failure_def finish_def Let_def
      split: sum.splits if_splits)

text \<open>The option stays switched on.\<close>

lemma private_methods_step: "client_step m e m' \<Longrightarrow> private_methods m \<Longrightarrow> private_methods m'"
  by (induction rule: client_step.induct)
    (auto simp: connect_ops call_ops other_ops finish_def Let_def split: op_splits elim!: call_answeredE)

definition in_effect :: "nat \<Rightarrow> machine \<Rightarrow> bool" where
  "in_effect t m \<longleftrightarrow> (\<forall>v w. tasks m t = Finished (Returned v) \<longrightarrow> current_ws m = Some w
     \<longrightarrow> private_methods_ws m = Some w)"

lemma in_effectI:
  "tasks m t \<noteq> Finished (Returned v) \<Longrightarrow> wants_private (tasks m t) \<Longrightarrow> in_effect t m"
  "tasks m t = Finished (Raised x) \<Longrightarrow> in_effect t m"
  by (auto simp: in_effect_def)

lemma in_effect_conclude:
  "private_conn p = Some w \<Longrightarrow> option_known w m \<Longrightarrow> in_effect t (conclude t p ws r m)"
  by (cases p) (auto simp: in_effect_def intro: conclude_effect)

lemma in_effect_keep: "wants_private (tasks m t) \<Longrightarrow> in_effect t m"
  by (auto simp: in_effect_def)

lemma option_known_simps [simp]:
  "option_known w (unregister_call i m) = option_known w m" "option_known w (release m) = option_known w m"
  "option_known w (cancel_future i m) = option_known w m" "option_known w (release_socket ws m) = option_known w m"
  "option_known w (m\<lparr>next_id_value := n\<rparr>) = option_known w m"
  "option_known w (detach_connection_locked x m)"
  by (simp_all add: option_known_def)

lemma in_effect_calls:
  assumes "private_ok m" "enabling (tasks m t) = private_conn p" "private_conn p = Some w"
  shows "in_effect t (begin_call t p m)" "in_effect t (call_sent t p ws i m)" "in_effect t (send_failed t p ws i msg m)"
    "in_effect t (send_raised t p ws i er m)" "in_effect t (call_cancelled t p ws i m)"
    "in_effect t (call_timed_out t p ws i m)" "in_effect t (close_timed_out t p ws i m)"
    "in_effect t (timeout_cancelled t p ws i m)" "in_effect t (call_closed t p ws i err c m)"
    "in_effect t (conclude t p ws r (unregister_call i m))" "in_effect t (conclude t p ws r m)"
proof -
  have known: "option_known w m" using private_okD(1) [OF assms(1)] assms(2,3) by simp
  note in_effect_conclude [OF assms(3), simp] known [simp]
  have moved: "in_effect t (goto t s m')" if "enabling s = Some w" for s m'
    using that by (cases s) (auto simp: in_effect_def)
  show "in_effect t (begin_call t p m)" "in_effect t (call_sent t p ws i m)" "in_effect t (send_failed t p ws i msg m)"
    "in_effect t (send_raised t p ws i er m)" "in_effect t (call_cancelled t p ws i m)"
    "in_effect t (call_timed_out t p ws i m)" "in_effect t (close_timed_out t p ws i m)"
    "in_effect t (timeout_cancelled t p ws i m)" "in_effect t (call_closed t p ws i err c m)"
    "in_effect t (conclude t p ws r (unregister_call i m))" "in_effect t (conclude t p ws r m)"
    by (auto simp: begin_call_def call_sent_def send_failed_def send_raised_def call_cancelled_def
        call_timed_out_def close_timed_out_def call_failed_locked_def timeout_cancelled_def call_closed_def
        assms(3) intro!: moved split: option.split prod.split)
qed

text \<open>The steps of other tasks leave this one where it is.\<close>

fun task_of :: "client_event \<Rightarrow> nat option" where
  "task_of (Receive ws x) = None" | "task_of (Route ws) = None" | "task_of (Lost ws x) = None"
| "task_of (Crashed ws x) = None" | "task_of (Teardown ws) = None"
| "task_of (Connect t) = Some t" | "task_of (Opened t a b) = Some t" | "task_of (LoginAnswer t a) = Some t"
| "task_of (OptionAnswer t a) = Some t" | "task_of (ConnectCleaned t c) = Some t"
| "task_of (Call t f ps) = Some t" | "task_of (Subscribe t ev) = Some t" | "task_of (Unsubscribe t sid) = Some t"
| "task_of (EnablePrivate t) = Some t" | "task_of (PrivateLock t) = Some t"
| "task_of (PrivateLockCancelled t) = Some t" | "task_of (LockForCall t) = Some t"
| "task_of (LockCancelled t) = Some t" | "task_of (Sent t) = Some t" | "task_of (SendFailed t x) = Some t"
| "task_of (SendRaised t er) = Some t" | "task_of (Answered t) = Some t" | "task_of (CallCancelled t) = Some t"
| "task_of (Timeout t) = Some t" | "task_of (TimeoutLock t) = Some t" | "task_of (TimeoutCancelled t) = Some t"
| "task_of (CallClosed t c) = Some t" | "task_of (Forget t) = Some t" | "task_of (ForgetCancelled t) = Some t"
| "task_of (Close t) = Some t" | "task_of (CloseDone t) = Some t" | "task_of (CloseCancelled t) = Some t"
| "task_of (ReaderAwaited t) = Some t" | "task_of (AwaitCancelled t) = Some t"

lemma other_tasks_step:
  "client_step m e m' \<Longrightarrow> task_of e \<noteq> Some t' \<Longrightarrow> tasks m' t' = tasks m t'"
  by (induction rule: client_step.induct)
    (auto simp: connect_ops call_ops other_ops finish_def conclude_task_others Let_def split: op_splits elim!: call_answeredE)

lemma in_effect_step:
  assumes "client_step m e m'" "private_ok m" "wants_private (tasks m t)"
  shows "in_effect t m'"
proof (cases "task_of e = Some t")
  case False
  with other_tasks_step [OF assms(1)] assms(3) show ?thesis by (intro in_effect_keep) simp
next
  case True
  have caller: "\<exists>w. private_conn p = Some w"
    if "tasks m t \<in> {AwaitingLock p, Sending p ws i, Waiting p ws i, TimedOut p ws i, CallClosing p ws i er}" for p ws i er
    using that assms(3) by (cases p) auto
  show ?thesis
    using assms(1,2,3) True caller
    by (induction rule: client_step.induct)
      (auto simp: in_effect_calls enable_locked_def finish_def in_effect_def [of t "goto t s m'" for s m'] split: option.splits elim!: call_answeredE)
qed

end
