(* ===== verification/ClientSubs.thy ===== *)
theory ClientSubs
  imports ClientPrivate
begin

text \<open>
  Subscriptions: the routing of notifications to queues, and the life of a queue from the reply
  that registers it to its terminator.
\<close>

section \<open>The tables\<close>

text \<open>
  The two tables have the same keys; a tracked queue is registered under its id and not ended; a
  queue gets nothing before it is registered, and nothing after its terminator.
\<close>

definition tracked_ok :: "machine \<Rightarrow> bool" where
  "tracked_ok m \<longleftrightarrow> map fst (subscription_events m) = map fst (subscriptions m) \<and> distinct (map fst (subscriptions m))
     \<and> (\<forall>sid q. map_of (subscriptions m) sid = Some q \<longrightarrow>
          registered m q = Some sid \<and> SUBSCRIPTION_TERMINATOR \<notin> set (queues m q))"

definition ends_once :: "queue_item list \<Rightarrow> bool" where
  "ends_once xs \<longleftrightarrow> SUBSCRIPTION_TERMINATOR \<notin> set (butlast xs)"

definition queues_ok :: "machine \<Rightarrow> bool" where
  "queues_ok m \<longleftrightarrow> (\<forall>q. (registered m q = None \<longrightarrow> queues m q = []) \<and> ends_once (queues m q))"

definition tables_ok :: "machine \<Rightarrow> bool" where
  "tables_ok m \<longleftrightarrow> tracked_ok m \<and> queues_ok m"

lemma tables_okD:
  assumes "tables_ok m"
  shows "map fst (subscription_events m) = map fst (subscriptions m)" "distinct (map fst (subscriptions m))"
    "map_of (subscriptions m) sid = Some q \<Longrightarrow> registered m q = Some sid"
    "map_of (subscriptions m) sid = Some q \<Longrightarrow> SUBSCRIPTION_TERMINATOR \<notin> set (queues m q)"
    "registered m q = None \<Longrightarrow> queues m q = []" "ends_once (queues m q)"
  using assms by (auto simp: tables_ok_def tracked_ok_def queues_ok_def)

lemma tables_ok_cong:
  assumes "subscriptions m' = subscriptions m" "subscription_events m' = subscription_events m"
    "registered m' = registered m" "queues m' = queues m"
  shows "tables_ok m' = tables_ok m"
  by (simp add: tables_ok_def tracked_ok_def queues_ok_def assms)

text \<open>Every tracked queue, once.\<close>

lemma tracked_iff:
  "tables_ok m \<Longrightarrow> q \<in> snd ` set (subscriptions m) \<longleftrightarrow> (\<exists>sid. map_of (subscriptions m) sid = Some q)"
  using tables_okD(2) [of m] by (force simp: image_iff)

lemma tracked_queues_distinct:
  assumes "tables_ok m" shows "distinct (map snd (subscriptions m))"
proof -
  note D = tables_okD [OF assms]
  have "inj_on snd (set (subscriptions m))"
  proof (rule inj_onI, clarsimp)
    fix sid sid' q assume "(sid, q) \<in> set (subscriptions m)" "(sid', q) \<in> set (subscriptions m)"
    then have "registered m q = Some sid" "registered m q = Some sid'" using D(2) by (auto intro!: D(3))
    then show "sid = sid'" by simp
  qed
  then show ?thesis using D(2) by (simp add: distinct_map)
qed

lemma ends_once_append: "SUBSCRIPTION_TERMINATOR \<notin> set xs \<Longrightarrow> ends_once (xs @ [x])"
  by (simp add: ends_once_def)

lemma fold_put_queues:
  "queues (fold (\<lambda>q c. queue_put q x c) qs c) q = queues c q @ replicate (count_list qs q) x"
  by (induction qs arbitrary: c) (auto simp: queue_put_def replicate_append_same)

lemma count_list_distinct: "distinct xs \<Longrightarrow> count_list xs x = (if x \<in> set xs then 1 else 0)"
  by (induction xs) auto

lemma detach_ends:
  assumes "tables_ok m"
  shows "queues (detach_connection_locked x m) q =
     (if \<exists>sid. map_of (subscriptions m) sid = Some q then queues m q @ [SUBSCRIPTION_TERMINATOR] else queues m q)"
proof -
  have "queues (detach_connection_locked x m) q =
      queues m q @ replicate (count_list (map snd (subscriptions m)) q) SUBSCRIPTION_TERMINATOR"
    by (simp add: detach_connection_locked_def end_subscriptions_def fold_put_queues)
  then show ?thesis
    by (simp add: count_list_distinct [OF tracked_queues_distinct [OF assms]] tracked_iff [OF assms])
qed

lemma tables_ok_detach: "tables_ok m \<Longrightarrow> tables_ok (detach_connection_locked x m)"
  using tables_okD(3-6) [of m]
  by (auto simp: tables_ok_def [of "detach_connection_locked x m"] tracked_ok_def queues_ok_def detach_ends ends_once_append)

lemma tables_ok_remove:
  assumes "tables_ok m"
  shows "tables_ok (m\<lparr>subscriptions := AList.delete sid (subscriptions m),
    subscription_events := AList.delete sid (subscription_events m)\<rparr>)"
  using tables_okD [OF assms]
  by (auto simp: tables_ok_def tracked_ok_def queues_ok_def delete_conv' delete_keys distinct_removeAll split: if_splits)

lemma tables_ok_put:
  assumes "tables_ok m" "registered m q \<noteq> None" "SUBSCRIPTION_TERMINATOR \<notin> set (queues m q)"
    "x = SUBSCRIPTION_TERMINATOR \<Longrightarrow> \<nexists>sid. map_of (subscriptions m) sid = Some q"
  shows "tables_ok (queue_put q x m)"
  using tables_okD [OF assms(1)] assms(2-4)
  by (auto simp: tables_ok_def tracked_ok_def queues_ok_def queue_put_def ends_once_append)

lemma tables_ok_register:
  assumes "tables_ok m" "registered m q = None"
  shows "tables_ok (register_subscription q ev d m)"
proof (cases "get_or d ''result'' PNone")
  case (PStr sid)
  then show ?thesis
    using tables_okD [OF assms(1)] assms(2)
    by (auto simp: register_subscription_def tables_ok_def tracked_ok_def queues_ok_def update_conv' update_keys
        distinct_update split: if_splits)
qed (simp_all add: register_subscription_def assms(1))

lemma tables_ok_deliver:
  assumes "tables_ok m" "set qs \<subseteq> ran (map_of (subscriptions m))"
  shows "tables_ok (deliver qs d m)" "tables_ok (deliver_new ns qs d m)"
proof -
  have put: "tables_ok (queue_put q (Notification d) m)" if "tables_ok m" "q \<in> ran (map_of (subscriptions m))" for m q
    using tables_okD(3,4) [OF that(1)] that by (intro tables_ok_put) (auto simp: ran_def)
  show "tables_ok (deliver qs d m)"
    using assms unfolding deliver_def by (induction qs arbitrary: m) (auto simp: put)
  show "tables_ok (deliver_new ns qs d m)"
    using assms by (induction qs arbitrary: m ns) (auto simp: put)
qed

lemma queues_of_tracked:
  "queues_of subs ids = Inr qs \<Longrightarrow> set qs \<subseteq> ran (map_of subs)"
  by (induction ids arbitrary: qs) (auto simp: res_map_def intro: ranI split: option.splits sum.splits)

lemma matching_tracked: "get_matching_queues ws coll m = Inr qs \<Longrightarrow> set qs \<subseteq> ran (map_of (subscriptions m))"
  by (auto simp: get_matching_queues_def split: pyval.splits if_splits dest: queues_of_tracked)

text \<open>The lookups of a collection never fail.\<close>

lemma queues_of_total:
  "set ids \<subseteq> dom (map_of subs) \<Longrightarrow> queues_of subs ids = Inr (map (the \<circ> map_of subs) ids)"
  by (induction ids) (auto simp: res_map_def)

section \<open>The owners of the queues\<close>

text \<open>The queue a \<open>subscribe\<close> works on, or returned.\<close>

fun queue_of :: "task \<Rightarrow> queue_id option" where
  "queue_of (AwaitingLock (ForSubscribe q ev)) = Some q"
| "queue_of (Sending (ForSubscribe q ev) ws i) = Some q"
| "queue_of (Waiting (ForSubscribe q ev) ws i) = Some q"
| "queue_of (TimedOut (ForSubscribe q ev) ws i) = Some q"
| "queue_of (CallClosing (ForSubscribe q ev) ws i er) = Some q"
| "queue_of (Finished (ReturnedQueue sid q)) = Some q"
| "queue_of (Forgetting wo sid' (ReturnedQueue sid q)) = Some q"
| "queue_of _ = None"

fun caller_queue :: "caller \<Rightarrow> queue_id option" where
  "caller_queue (ForSubscribe q ev) = Some q"
| "caller_queue _ = None"

lemma queue_of_caller [simp]:
  "queue_of (AwaitingLock p) = caller_queue p" "queue_of (Sending p w i) = caller_queue p"
  "queue_of (Waiting p w i) = caller_queue p" "queue_of (TimedOut p w i) = caller_queue p"
  "queue_of (CallClosing p w i er) = caller_queue p"
  by (cases p; simp)+

lemma queue_of_call: "call_of s = Some (p, w, i) \<Longrightarrow> queue_of s = caller_queue p"
  by (cases s) auto

lemma caller_queue_iff: "caller_queue p = Some q \<longleftrightarrow> (\<exists>ev. p = ForSubscribe q ev)" "on_reply p = None \<longleftrightarrow> caller_queue p = None"
  by (cases p; simp)+

text \<open>
  A queue belongs to one task; a hook belongs to the \<open>subscribe\<close> of its call, and its queue is not
  registered yet; no \<open>subscribe\<close> waits for the lock before its request.
\<close>

definition owners_ok :: "machine \<Rightarrow> bool" where
  "owners_ok m \<longleftrightarrow>
     (\<forall>q. next_queue m \<le> q \<longrightarrow> registered m q = None)
     \<and> (\<forall>t q. queue_of (tasks m t) = Some q \<longrightarrow> q < next_queue m)
     \<and> (\<forall>t t' q. queue_of (tasks m t) = Some q \<longrightarrow> queue_of (tasks m t') = Some q \<longrightarrow> t = t')
     \<and> (\<forall>i q ev. (i, (q, ev)) \<in> set (reply_hooks m) \<longrightarrow> registered m q = None
          \<and> (\<forall>t p w. call_of (tasks m t) = Some (p, w, i) \<longrightarrow> p = ForSubscribe q ev))
     \<and> (\<forall>t p. tasks m t = AwaitingLock p \<longrightarrow> on_reply p = None)"

lemma owners_okD:
  assumes "owners_ok m"
  shows "next_queue m \<le> q \<Longrightarrow> registered m q = None" "queue_of (tasks m t) = Some q \<Longrightarrow> q < next_queue m"
    "queue_of (tasks m t) = Some q \<Longrightarrow> queue_of (tasks m t') = Some q \<Longrightarrow> t = t'"
    "(i, (q, ev)) \<in> set (reply_hooks m) \<Longrightarrow> registered m q = None"
    "(i, (q, ev)) \<in> set (reply_hooks m) \<Longrightarrow> call_of (tasks m t) = Some (p, w, i) \<Longrightarrow> p = ForSubscribe q ev"
    "tasks m t = AwaitingLock p \<Longrightarrow> on_reply p = None"
  using assms unfolding owners_ok_def by blast+

lemma owners_ok_keep:
  assumes "owners_ok m" "registered m' = registered m" "next_queue m' = next_queue m"
    and "\<And>t q. queue_of (tasks m' t) = Some q \<Longrightarrow> queue_of (tasks m t) = Some q"
    and "\<And>t p w i. call_of (tasks m' t) = Some (p, w, i) \<Longrightarrow> call_of (tasks m t) = Some (p, w, i)"
    and "set (reply_hooks m') \<subseteq> set (reply_hooks m)"
    and "\<And>t p. tasks m' t = AwaitingLock p \<Longrightarrow> tasks m t = AwaitingLock p \<or> on_reply p = None"
  shows "owners_ok m'"
  unfolding owners_ok_def assms(2,3)
  using owners_okD [OF assms(1)] assms(4-7) by (intro conjI allI impI; metis subsetD)

lemma conclude_queue:
  "queue_of (tasks (conclude t p ws r m) t') = Some q \<Longrightarrow>
    (if t' = t then (\<exists>ev. p = ForSubscribe q ev) else queue_of (tasks m t') = Some q)"
proof (cases "t' = t")
  case True
  then show "queue_of (tasks (conclude t p ws r m) t') = Some q \<Longrightarrow> ?thesis"
    by (cases r) (auto simp: conclude_defs subscribe_result_def
        split: caller.splits sum.splits outcome.splits option.splits if_splits pyval.splits)
qed (simp add: conclude_task_others)

lemma conclude_awaiting: "tasks (conclude t p ws r m) t' = AwaitingLock p' \<Longrightarrow> t' \<noteq> t \<and> tasks m t' = AwaitingLock p'"
  using conclude_task_settled [of t p ws r m] by (cases "t' = t") (auto simp: conclude_task_others)

lemma owners_ok_conclude:
  "owners_ok m \<Longrightarrow> caller_queue p = None \<or> queue_of (tasks m t) = caller_queue p \<Longrightarrow> owners_ok (conclude t p w r m)"
  by (erule owners_ok_keep) (auto dest!: conclude_queue conclude_awaiting split: if_splits)

lemma owners_ok_error: "owners_ok m \<Longrightarrow> owners_ok (conclude t p w (Inl e) m)"
proof (erule owners_ok_keep)
  show "queue_of (tasks (conclude t p w (Inl e) m) t') = Some q \<Longrightarrow> queue_of (tasks m t') = Some q" for t' q
    by (cases "t' = t")
      (simp_all add: conclude_task_others, auto simp: conclude_defs subscribe_result_def split: caller.splits if_splits)
qed (auto dest!: conclude_awaiting split: if_splits)

lemma owners_ok_ops:
  assumes "owners_ok m"
  shows "owners_ok (start_connect t m)" "owners_ok (connect_opened t a b m)"
    "owners_ok (connect_logged_in t ws ans m)" "owners_ok (connect_option_set t ws ans m)"
    "owners_ok (connect_cleaned_up t ws x c m)" "owners_ok (start_unsubscribe t sid m)"
    "owners_ok (finish t (Returned v) m)" "owners_ok (finish t (Raised er) m)"
    "owners_ok (start_enable t m)" "owners_ok (enable_locked t m)" "owners_ok (start_close t m)"
    "owners_ok (close_done t ws m)" "owners_ok (close_cancelled t ws m)" "owners_ok (close_finished t ws (Returned v) m)"
    "owners_ok (close_finished t ws (Raised er) m)" "owners_ok (receive ws msg m)"
    "owners_ok (route_update ws d qs m)" "owners_ok (reader_teardown ws cause m)"
    "owners_ok (set_reader ws rd m)" "owners_ok (drop_socket ws m)"
    "tasks m t = Forgetting wo sid oc \<Longrightarrow> owners_ok (forget_subscription t wo sid oc m)"
  by (rule owners_ok_keep [OF assms];
      auto simp: connect_ops other_ops finish_def reader_teardown_def teardown_connection_def Let_def
        split: op_splits; (cases oc; auto)?)+

lemma delete_subset: "set (AList.delete k xs) \<subseteq> set xs"
  by (auto simp: AList.delete_eq)

lemma update_new: "k \<notin> fst ` set xs \<Longrightarrow> AList.update k v xs = xs @ [(k, v)]"
  by (induction xs) auto

lemma owners_ok_unregister: "owners_ok m \<Longrightarrow> owners_ok (unregister_call i m)"
  by (erule owners_ok_keep) (simp_all add: delete_subset)

lemma owners_ok_call:
  assumes "owners_ok m" "call_of (tasks m t) = Some (p, ws, i)"
  shows "owners_ok (call_sent t p ws i m)" "owners_ok (send_failed t p ws i msg m)"
    "owners_ok (send_raised t p ws i er m)" "owners_ok (call_cancelled t p ws i m)"
    "owners_ok (call_timed_out t p ws i m)" "owners_ok (close_timed_out t p ws i m)"
    "owners_ok (timeout_cancelled t p ws i m)" "owners_ok (call_closed t p ws i err c m)"
    "owners_ok (conclude t p ws r (unregister_call i m))"
proof -
  note own = queue_of_call [OF assms(2)]
  have moved: "owners_ok (goto t s m')" if "call_of s = Some (p, ws, i)" "owners_ok m'" "tasks m' = tasks m" for s m'
    by (rule owners_ok_keep [OF that(2)])
      (use that(1) assms(2) own in \<open>auto simp: that(3) queue_of_call split: if_splits\<close>)
  have same: "owners_ok m' = owners_ok m"
    if "registered m' = registered m" "next_queue m' = next_queue m" "tasks m' = tasks m" "reply_hooks m' = reply_hooks m" for m'
    using that by (simp add: owners_ok_def)
  have detach: "owners_ok m' \<Longrightarrow> owners_ok (detach_connection_locked x m')" for m' x
    by (erule owners_ok_keep) auto
  have fields: "owners_ok (acquire t' m') = owners_ok m'" "owners_ok (release m') = owners_ok m'"
    "owners_ok (release_socket w m') = owners_ok m'" "owners_ok (cancel_future j m') = owners_ok m'" for t' w j m'
    by (simp_all add: owners_ok_def)
  show "owners_ok (call_sent t p ws i m)" "owners_ok (send_failed t p ws i msg m)"
    "owners_ok (send_raised t p ws i er m)" "owners_ok (call_cancelled t p ws i m)"
    "owners_ok (call_timed_out t p ws i m)" "owners_ok (close_timed_out t p ws i m)"
    "owners_ok (timeout_cancelled t p ws i m)" "owners_ok (call_closed t p ws i err c m)"
    "owners_ok (conclude t p ws r (unregister_call i m))"
    by (auto simp: call_sent_def send_failed_def send_raised_def call_cancelled_def call_timed_out_def
        close_timed_out_def call_failed_locked_def timeout_cancelled_def call_closed_def fields owners_ok_unregister detach
        assms(1) own intro!: moved owners_ok_conclude)
qed

lemma owners_ok_begin:
  assumes "owners_ok m" "calls_ok m"
  shows "on_reply p = None \<Longrightarrow> owners_ok (begin_call t p m)" "owners_ok (start_subscribe t ev m)"
proof -
  have id: "owners_ok (m\<lparr>next_id_value := n\<rparr>)" for n using assms(1) by (simp add: owners_ok_def)
  have free [simp]: "(next_id_value m, h) \<notin> set (reply_hooks m)" for h
    using calls_okD(1,5,6) [OF assms(2)] by (metis order_less_irrefl)
  have no_call: "call_of (tasks m t) \<noteq> Some (p, w, next_id_value m)" for t p w
    using calls_okD(1) [OF assms(2)] by (metis order_less_irrefl)
  have fresh_key: "next_id_value m \<notin> fst ` set (reply_hooks m)" using free by force
  show "owners_ok (begin_call t p m)" if "on_reply p = None"
  proof -
    have cq: "caller_queue p = None" using that by (simp add: caller_queue_iff)
    have sending: "owners_ok (goto t (Sending p w (next_id_value m)) (acquire t (snd (register_call None m))))" for w
      unfolding owners_ok_def using owners_okD [OF assms(1)]
      by (auto simp: register_call_def cq Let_def split: if_splits)
    show ?thesis
      using sending by (auto simp: begin_call_def id assms(1) that cq register_call_def Let_def
          intro!: owners_ok_conclude split: option.split prod.split)
  qed
  let ?p = "ForSubscribe (next_queue m) ev" and ?m = "m\<lparr>next_queue := Suc (next_queue m)\<rparr>"
  have next_q: "owners_ok ?m" using owners_okD [OF assms(1)] unfolding owners_ok_def by (simp add: less_SucI Suc_leD)
  have next_id: "owners_ok (?m\<lparr>next_id_value := n\<rparr>)" for n using next_q by (simp add: owners_ok_def)
  have sending: "owners_ok (goto t (Sending ?p w (next_id_value m)) (acquire t (snd (register_call (Some (next_queue m, ev)) ?m))))" for w
    unfolding owners_ok_def using owners_okD [OF assms(1)]
    by (auto simp: register_call_def fresh_key no_call update_new less_SucI Let_def split: if_splits)
  show "owners_ok (start_subscribe t ev m)"
    using sending next_q next_id
    by (auto simp: start_subscribe_def begin_call_def register_call_def Let_def intro!: owners_ok_error split: option.split prod.split)
qed

lemma hook_owner:
  assumes "calls_ok m" "owners_ok m" "(i, (q, ev)) \<in> set (reply_hooks m)"
  obtains t w where "call_of (tasks m t) = Some (ForSubscribe q ev, w, i)"
  using calls_okD(5,6) [OF assms(1)] owners_okD(5) [OF assms(2)] assms(3) by metis

lemma hook_queue_unique:
  assumes "calls_ok m" "owners_ok m" "(i, (q, ev)) \<in> set (reply_hooks m)" "(i', (q, ev')) \<in> set (reply_hooks m)"
  shows "i = i'"
proof -
  obtain t w where t: "call_of (tasks m t) = Some (ForSubscribe q ev, w, i)" using hook_owner [OF assms(1-3)] .
  obtain t' w' where t': "call_of (tasks m t') = Some (ForSubscribe q ev', w', i')" using hook_owner [OF assms(1,2,4)] .
  have "t = t'" using owners_okD(3) [OF assms(2), of t q t'] queue_of_call [OF t] queue_of_call [OF t'] by simp
  with t t' show ?thesis by simp
qed

lemma owners_ok_register:
  assumes "calls_ok m" "owners_ok m" "(i, (q, ev)) \<in> set (reply_hooks m)"
  shows "owners_ok (register_subscription q ev d (unregister_call i m))"
proof -
  note un = owners_ok_unregister [OF assms(2), of i]
  obtain t w where "call_of (tasks m t) = Some (ForSubscribe q ev, w, i)" using hook_owner [OF assms] .
  then have "q < next_queue m" using owners_okD(2) [OF assms(2), of t q] by (simp add: queue_of_call)
  moreover have "i' = i" if "(i', (q, ev')) \<in> set (reply_hooks m)" for i' ev'
    using hook_queue_unique [OF assms(1,2) that assms(3)] .
  ultimately show ?thesis
    using un owners_okD [OF assms(2)] un
    by (auto simp: register_subscription_def owners_ok_def AList.delete_eq split: pyval.split)
qed

lemma owners_ok_route:
  assumes "calls_ok m" "owners_ok m"
  shows "owners_ok (route ws d m)"
proof -
  note un = owners_ok_unregister [OF assms(2)]
  have same: "owners_ok (set_reader ws rd m') = owners_ok m'" "owners_ok (set_future i f m') = owners_ok m'"
    "owners_ok (handle_subscription_notification w s d m') = owners_ok m'" "owners_ok (deliver qs d m') = owners_ok m'"
    for rd m' i f w s qs by (simp_all add: owners_ok_def)
  have "owners_ok (handle_rpc_response ws i d m)" for i
    using un assms owners_ok_register [OF assms]
    by (auto simp: handle_rpc_response_def same Let_def dest!: map_of_SomeD split: option.split)
  then show ?thesis
    using assms(2) by (auto simp: route_def route_collection_def same split: route_kind.split sum.split)
qed

lemma owners_ok_step:
  assumes "client_step m e m'" "calls_ok m" "owners_ok m"
  shows "owners_ok m'"
  using assms
  by (induction rule: client_step.induct)
    (auto simp: owners_ok_ops owners_ok_call owners_ok_begin owners_ok_route owners_ok_unregister caller_queue_iff
      owners_okD(6) intro!: owners_ok_conclude elim!: call_answeredE)

section \<open>The tables are kept\<close>

lemma tables_ok_conclude: "tables_ok m \<Longrightarrow> tables_ok (conclude t p w r m)"
proof -
  assume ok: "tables_ok m"
  from conclude_subscriptions [of t p w r m] consider
      "subscriptions (conclude t p w r m) = subscriptions m"
      "subscription_events (conclude t p w r m) = subscription_events m"
    | sid where "subscriptions (conclude t p w r m) = AList.delete sid (subscriptions m)"
      "subscription_events (conclude t p w r m) = AList.delete sid (subscription_events m)" by blast
  then show ?thesis
  proof cases
    case 1
    with ok show ?thesis by (subst tables_ok_cong [where m = m]) simp_all
  next
    case (2 sid)
    with tables_ok_remove [OF ok, of sid] show ?thesis
      by (subst tables_ok_cong [where m = "m\<lparr>subscriptions := AList.delete sid (subscriptions m),
            subscription_events := AList.delete sid (subscription_events m)\<rparr>"]) simp_all
  qed
qed

lemma tables_ok_same [simp]:
  "tables_ok (goto t s m) = tables_ok m" "tables_ok (acquire t m) = tables_ok m" "tables_ok (release m) = tables_ok m"
  "tables_ok (drop_socket w m) = tables_ok m" "tables_ok (release_socket w m) = tables_ok m"
  "tables_ok (set_reader w rd m) = tables_ok m" "tables_ok (unregister_call i m) = tables_ok m"
  "tables_ok (set_future i f m) = tables_ok m" "tables_ok (cancel_future i m) = tables_ok m"
  "tables_ok (option_reply d m) = tables_ok m" "tables_ok (option_sent w m) = tables_ok m"
  "tables_ok (snd (register_call h m)) = tables_ok m" "tables_ok (attach t w m) = tables_ok m"
  "tables_ok (m\<lparr>next_id_value := n\<rparr>) = tables_ok m" "tables_ok (m\<lparr>next_queue := q\<rparr>) = tables_ok m"
  "tables_ok (m\<lparr>private_lock := l\<rparr>) = tables_ok m" "tables_ok (m\<lparr>private_methods := b\<rparr>) = tables_ok m"
  "tables_ok (m\<lparr>next_ws := w, open_sockets := os\<rparr>) = tables_ok m"
  by (rule tables_ok_cong; simp add: option_sent_def register_call_def attach_def finish_def Let_def)+

lemma tables_ok_ops:
  assumes "tables_ok m"
  shows "tables_ok (start_connect t m)" "tables_ok (connect_opened t a b m)"
    "tables_ok (connect_logged_in t ws ans m)" "tables_ok (connect_option_set t ws ans m)"
    "tables_ok (connect_cleaned_up t ws x c m)" "tables_ok (start_unsubscribe t sid m)"
    "tables_ok (finish t oc m)" "tables_ok (start_enable t m)" "tables_ok (enable_locked t m)"
    "tables_ok (close_done t ws m)" "tables_ok (close_cancelled t ws m)" "tables_ok (close_finished t ws oc m)"
    "tables_ok (receive ws msg m)" "tables_ok (call_sent t p ws i m)" "tables_ok (call_timed_out t p ws i m)"
  by (subst tables_ok_cong [where m = m];
      (auto simp: assms connect_ops other_ops finish_def call_sent_def call_timed_out_def Let_def split: op_splits))+

lemma tables_ok_begin: "tables_ok m \<Longrightarrow> tables_ok (begin_call t p m)"
  using tables_ok_same(12) [of "on_reply p" m]
  by (auto simp: begin_call_def register_call_def Let_def intro!: tables_ok_conclude split: option.split prod.split)

lemma tables_ok_calls:
  assumes "tables_ok m"
  shows "tables_ok (send_failed t p ws i msg m)" "tables_ok (send_raised t p ws i er m)"
    "tables_ok (call_cancelled t p ws i m)" "tables_ok (close_timed_out t p ws i m)"
    "tables_ok (timeout_cancelled t p ws i m)" "tables_ok (call_closed t p ws i err c m)"
    "tables_ok (start_subscribe t ev m)" "tables_ok (start_close t m)" "tables_ok (reader_teardown ws cause m)"
  using assms
  by (auto simp: send_failed_def send_raised_def call_cancelled_def close_timed_out_def call_failed_locked_def
      timeout_cancelled_def call_closed_def start_subscribe_def start_close_def reader_teardown_def
      teardown_connection_def finish_def Let_def intro!: tables_ok_conclude tables_ok_detach tables_ok_begin split: option.split)

lemma tables_ok_forget:
  assumes "tables_ok m" shows "tables_ok (forget_subscription t wo sid oc m)"
proof -
  let ?m = "m\<lparr>subscriptions := AList.delete sid (subscriptions m),
    subscription_events := AList.delete sid (subscription_events m)\<rparr>"
  have "tables_ok (queue_put q SUBSCRIPTION_TERMINATOR ?m)" if q: "map_of (subscriptions m) sid = Some q" for q
  proof (rule tables_ok_put [OF tables_ok_remove [OF assms]])
    show "\<nexists>sid'. map_of (subscriptions ?m) sid' = Some q"
      using tables_okD(3) [OF assms, of _ q] tables_okD(3) [OF assms q] by (auto simp: delete_conv')
  qed (use tables_okD(3,4) [OF assms q] in simp_all)
  then show ?thesis
    using tables_ok_remove [OF assms] assms by (auto simp: forget_subscription_def finish_def Let_def split: option.split)
qed

lemma tables_ok_routes:
  assumes "tables_ok m" "owners_ok m"
  shows "tables_ok (route ws d m)" "tables_ok (route_update ws d qs m)"
proof -
  have "tables_ok (handle_rpc_response ws i d m)" for i
    using assms owners_okD(4) [OF assms(2)]
    by (auto simp: handle_rpc_response_def Let_def intro!: tables_ok_register dest!: map_of_SomeD split: option.split)
  moreover have "tables_ok (handle_subscription_notification ws sid d m)" for sid
    using assms(1) tables_okD(3,4) [OF assms(1)]
    by (auto simp: handle_subscription_notification_def intro!: tables_ok_put split: option.split)
  ultimately show "tables_ok (route ws d m)"
    using tables_ok_deliver(1) [OF assms(1) matching_tracked] assms(1)
    by (auto simp: route_def route_collection_def split: route_kind.split sum.split)
  show "tables_ok (route_update ws d qs m)"
    using tables_ok_deliver(2) [OF assms(1) matching_tracked] assms(1)
    by (auto simp: route_update_def split: sum.split)
qed

lemma tables_ok_step:
  assumes "client_step m e m'" "owners_ok m" "tables_ok m"
  shows "tables_ok m'"
  using assms
  by (induction rule: client_step.induct)
    (auto simp: tables_ok_ops tables_ok_begin tables_ok_calls tables_ok_forget tables_ok_routes tables_ok_conclude
      elim!: call_answeredE)

definition subs_ok :: "machine \<Rightarrow> bool" where
  "subs_ok m \<longleftrightarrow> owners_ok m \<and> tables_ok m"

interpretation subs: client_invariant allowed core_ok subs_ok for allowed
proof unfold_locales
  show "subs_ok init_machine"
    by (simp add: subs_ok_def owners_ok_def tables_ok_def tracked_ok_def queues_ok_def ends_once_def init_machine_def)
  show "client_reachable allowed m \<Longrightarrow> core_ok m" for m by (rule core.holds)
qed (auto simp: core_ok_def subs_ok_def intro: owners_ok_step tables_ok_step)

lemmas subs_okD = subs.holds [unfolded subs_ok_def, THEN conjunct1] subs.holds [unfolded subs_ok_def, THEN conjunct2]

section \<open>Routing\<close>

text \<open>The queues a collection reaches, and that each is there once.\<close>

definition reached :: "machine \<Rightarrow> conn \<Rightarrow> pyval \<Rightarrow> queue_id set" where
  "reached m ws coll = {q. \<exists>s sid ev. coll = PStr s \<and> current_ws m = Some ws \<and> map_of (subscriptions m) sid = Some q
     \<and> map_of (subscription_events m) sid = Some ev \<and> matches_subscription s ev}"

lemma distinct_mapI: "distinct xs \<Longrightarrow> inj_on f (set xs) \<Longrightarrow> distinct (map f xs)"
  by (simp add: distinct_map)

lemma matching_queues:
  assumes "tables_ok m"
  obtains qs where "get_matching_queues ws coll m = Inr qs" "distinct qs" "set qs = reached m ws coll"
proof (cases "\<exists>s. coll = PStr s \<and> current_ws m = Some ws")
  case False
  then have "get_matching_queues ws coll m = Inr []" "reached m ws coll = {}"
    by (auto simp: get_matching_queues_def reached_def split: pyval.split)
  then show ?thesis using that by simp
next
  case True
  then obtain s where s: "coll = PStr s" "current_ws m = Some ws" by blast
  note D = tables_okD [OF assms]
  let ?ids = "map fst (filter (\<lambda>(sub_id, event_name). matches_subscription s event_name) (subscription_events m))"
  have events: "distinct (map fst (subscription_events m))" using D(1,2) by simp
  have "set ?ids \<subseteq> fst ` set (subscription_events m)" by auto
  also have "\<dots> = dom (map_of (subscriptions m))" using D(1) by (metis dom_map_of_conv_image_fst set_map)
  finally have sub: "set ?ids \<subseteq> dom (map_of (subscriptions m))" .
  have inj: "inj_on (the \<circ> map_of (subscriptions m)) (dom (map_of (subscriptions m)))"
    using D(3) by (intro inj_onI) (metis comp_apply domD option.sel)
  show ?thesis
  proof
    show "get_matching_queues ws coll m = Inr (map (the \<circ> map_of (subscriptions m)) ?ids)"
      using queues_of_total [OF sub] s by (simp add: get_matching_queues_def)
    show "distinct (map (the \<circ> map_of (subscriptions m)) ?ids)"
      by (rule distinct_mapI [OF distinct_map_filter [OF events] inj_on_subset [OF inj sub]])
    show "set (map (the \<circ> map_of (subscriptions m)) ?ids) = reached m ws coll"
      using sub s events by (force simp: reached_def)
  qed
qed

lemma deliver_queues: "queues (deliver qs d m) q = queues m q @ replicate (count_list qs q) (Notification d)"
  by (simp add: deliver_def fold_put_queues)

lemma deliver_new_queues:
  "queues (deliver_new ns qs d m) q = queues m q @ (if q \<in> set qs - set ns then [Notification d] else [])"
  by (induction ns qs d m rule: deliver_new.induct) auto

text \<open>A client with a subscription of \<open>pool.query\<close>, and an update of it.\<close>

definition subscribing :: "client_event list" where
  "subscribing = connecting @ [Subscribe 1 ''pool.query'', Sent 1] @ replying 2 (PStr ''s1'') @ [Answered 1]"

definition pool_update :: pydict where
  "pool_update = [(PStr ''method'', PStr ''collection_update''),
     (PStr ''params'', PDict [(PStr ''collection'', PStr ''pool.query''), (PStr ''id'', PInt 1)])]"

text \<open>
  C13: a collection notification is routed without error, and every queue whose subscription
  matches its collection, or for a \<open>collection_update\<close> the one of its parameters, gets it exactly
  once; no other queue gets it.
\<close>

theorem collection_reaches_queues_once:
  assumes "client_reachable allowed m" "route_message c = CollectionMessage" "is_collection_update c"
  shows "\<exists>notified. readers (route ws c m) ws = RoutingUpdate c notified
    \<and> readers (route_update ws c notified (route ws c m)) ws = Reading
    \<and> (\<forall>q. queues (route_update ws c notified (route ws c m)) q = queues m q @
         (if q \<in> reached m ws (get_or c ''collection'' PNone)
               \<union> reached m ws (field (get_or c ''params'' PNone) ''collection'')
          then [Notification c] else []))"
proof -
  note ok = subs_okD(2) [OF assms(1)]
  obtain qs where qs: "get_matching_queues ws (get_or c ''collection'' PNone) m = Inr qs" "distinct qs"
    "set qs = reached m ws (get_or c ''collection'' PNone)" using matching_queues [OF ok] .
  let ?m = "set_reader ws (RoutingUpdate c qs) (deliver qs c m)"
  have r: "route ws c m = ?m" using qs(1) assms(2,3) by (simp add: route_def route_collection_def)
  obtain qs' where qs': "get_matching_queues ws (field (get_or c ''params'' PNone) ''collection'') m = Inr qs'"
    "set qs' = reached m ws (field (get_or c ''params'' PNone) ''collection'')" using matching_queues [OF ok] .
  have "get_matching_queues ws (field (get_or c ''params'' PNone) ''collection'') ?m = Inr qs'"
    using qs'(1) by (auto simp: get_matching_queues_def split: pyval.splits if_splits)
  then have u: "route_update ws c qs ?m = set_reader ws Reading (deliver_new qs qs' c ?m)"
    by (simp add: route_update_def)
  have rd: "readers (set_reader ws x m') ws = x" for x m' by (simp add: set_reader_def)
  show ?thesis
    by (rule exI [of _ qs])
      (auto simp: r u deliver_new_queues deliver_queues count_list_distinct [OF qs(2)] qs(3) qs'(2) rd)
qed

lemma collection_reaches_queues_once_witness:
  "\<exists>notified. queues (route_update 0 pool_update notified (route 0 pool_update (run (\<lambda>_ _. True) subscribing))) 0
    = [Notification pool_update]"
proof -
  have "route_message pool_update = CollectionMessage" "is_collection_update pool_update"
    "queues (run (\<lambda>_ _. True) subscribing) 0 = []" by code_simp+
  note pre = this
  have "0 \<in> reached (run (\<lambda>_ _. True) subscribing) 0 (field (get_or pool_update ''params'' PNone) ''collection'')"
    unfolding reached_def mem_Collect_eq
  proof (intro exI conjI)
    show "field (get_or pool_update ''params'' PNone) ''collection'' = PStr ''pool.query''"
      "current_ws (run (\<lambda>_ _. True) subscribing) = Some 0"
      "map_of (subscriptions (run (\<lambda>_ _. True) subscribing)) ''s1'' = Some 0"
      "map_of (subscription_events (run (\<lambda>_ _. True) subscribing)) ''s1'' = Some ''pool.query''"
      "matches_subscription ''pool.query'' ''pool.query''" by code_simp+
  qed
  then show ?thesis
    using collection_reaches_queues_once [OF client_run_reachable [of "\<lambda>_ _. True" subscribing] pre(1,2), of 0] pre(3)
    by (elim exE conjE) (rule exI, drule spec [of _ 0], simp)
qed

lemma plain_queue: "SUBSCRIPTION_TERMINATOR \<notin> set xs \<Longrightarrow> \<exists>ds. xs = map Notification ds"
  by (induction xs) (auto intro: list.map(1) [symmetric], metis list.map(2) queue_item.exhaust)

lemma ended_queue:
  assumes "tables_ok m" "SUBSCRIPTION_TERMINATOR \<in> set (queues m q)"
  shows "\<exists>ds. queues m q = map Notification ds @ [SUBSCRIPTION_TERMINATOR]"
proof -
  have but: "SUBSCRIPTION_TERMINATOR \<notin> set (butlast (queues m q))"
    using tables_okD(6) [OF assms(1)] by (simp add: ends_once_def)
  have split: "queues m q = butlast (queues m q) @ [last (queues m q)]"
    using assms(2) by (metis append_butlast_last_id empty_iff list.set(1))
  have "last (queues m q) = SUBSCRIPTION_TERMINATOR"
    using assms(2) but split by (metis Un_iff empty_iff insert_iff list.set set_append)
  with plain_queue [OF but] split show ?thesis by metis
qed

text \<open>
  C20: a queue is ended at most once, and nothing follows its terminator; a tracked queue is not
  ended yet.
\<close>

theorem queue_ends_once:
  assumes "client_reachable allowed m"
  shows "\<exists>ds. queues m q = map Notification ds
    \<or> (queues m q = map Notification ds @ [SUBSCRIPTION_TERMINATOR] \<and> q \<notin> set (map snd (subscriptions m)))"
proof (cases "SUBSCRIPTION_TERMINATOR \<in> set (queues m q)")
  case True
  note ok = subs_okD(2) [OF assms]
  have "q \<notin> set (map snd (subscriptions m))"
    using True tables_okD(4) [OF ok] tracked_iff [OF ok] by auto
  with ended_queue [OF ok True] show ?thesis by blast
qed (use plain_queue in blast)

lemma queue_ends_once_witness:
  "\<exists>ds. queues (run (\<lambda>_ _. True) calling) 0 = map Notification ds
    \<or> (queues (run (\<lambda>_ _. True) calling) 0 = map Notification ds @ [SUBSCRIPTION_TERMINATOR]
      \<and> 0 \<notin> set (map snd (subscriptions (run (\<lambda>_ _. True) calling))))"
  by (rule queue_ends_once [OF client_run_reachable])

end
