(* ===== verification/ClientOption.thy ===== *)
theory ClientOption
  imports ClientTrace ClientSubs
begin

text \<open>
  The private-methods option is really sent: the client takes it for sent on a connection only after
  a \<open>core.set_options\<close> was sent there and answered, and once \<open>enable_private_methods\<close> returned this
  stays true of every later connection.
\<close>

section \<open>What the client takes for sent was sent\<close>

definition option_request :: "conn \<Rightarrow> request" where
  "option_request ws = (ws, SET_OPTIONS, PList [PRIVATE_METHODS_OPTION])"

lemma option_request_iff [simp]:
  "(ws, method_of p, normalize_params (params_of p)) = option_request w \<longleftrightarrow>
     ws = w \<and> method_of p = SET_OPTIONS \<and> normalize_params (params_of p) = PList [PRIVATE_METHODS_OPTION]"
  by (simp add: option_request_def)

lemma option_params: "normalize_params (params_of (ForPrivateMethods w)) = PList [PRIVATE_METHODS_OPTION]"
  by (simp add: normalize_params_def)

text \<open>
  No error of the connection reads as a rejection of the option, and a request for a connection is
  sent on that connection.
\<close>

definition errors_ok :: "machine \<Rightarrow> bool" where
  "errors_ok m \<longleftrightarrow>
     (\<forall>i e. futures m i = FailedWith e \<longrightarrow> \<not> is_rejected_option (TrueNAS e))
     \<and> (\<forall>t p ws i e. tasks m t = CallClosing p ws i e \<longrightarrow> \<not> is_rejected_option (TrueNAS e))
     \<and> (\<forall>t w ws i. call_of (tasks m t) = Some (ForPrivateMethods w, ws, i) \<longrightarrow> ws = w)"

lemma errors_okD:
  assumes "errors_ok m"
  shows "futures m i = FailedWith e \<Longrightarrow> \<not> is_rejected_option (TrueNAS e)"
    "tasks m t = CallClosing p ws i e \<Longrightarrow> \<not> is_rejected_option (TrueNAS e)"
    "call_of (tasks m t) = Some (ForPrivateMethods w, ws, i) \<Longrightarrow> ws = w"
  using assms unfolding errors_ok_def by blast+

lemma errors_ok_keep:
  assumes "errors_ok m"
    and "\<And>i e. futures m' i = FailedWith e \<Longrightarrow> futures m i = FailedWith e \<or> \<not> is_rejected_option (TrueNAS e)"
    and "\<And>t p ws i e. tasks m' t = CallClosing p ws i e \<Longrightarrow>
      (\<exists>t'. tasks m t' = CallClosing p ws i e) \<or> \<not> is_rejected_option (TrueNAS e)"
    and "\<And>t w ws i. call_of (tasks m' t) = Some (ForPrivateMethods w, ws, i) \<Longrightarrow>
      (\<exists>t'. call_of (tasks m t') = Some (ForPrivateMethods w, ws, i)) \<or> ws = w"
  shows "errors_ok m'"
  using assms unfolding errors_ok_def by (metis (no_types, lifting))

lemma conclude_closing [simp]:
  "tasks (conclude t p ws r m) t' = CallClosing p' w i e \<longleftrightarrow> t' \<noteq> t \<and> tasks m t' = CallClosing p' w i e"
proof (cases "t' = t")
  case True
  have "settled (tasks (conclude t p ws r m) t)" using conclude_task_settled by simp
  with True show ?thesis by (cases "tasks (conclude t p ws r m) t") auto
qed (simp add: conclude_task_others)

lemma errors_ok_conclude: "errors_ok m \<Longrightarrow> errors_ok (conclude t p w r m)"
  by (erule errors_ok_keep) (auto split: if_splits)

lemma errors_ok_ops:
  assumes "errors_ok m"
  shows "errors_ok (start_connect t m)" "errors_ok (connect_opened t a b m)" "errors_ok (connect_cleaned_up t ws x c m)"
    "errors_ok (connect_logged_in t ws ans m)" "errors_ok (connect_option_set t ws ans m)"
    "errors_ok (start_unsubscribe t sid m)" "errors_ok (forget_subscription t wo sid oc m)"
    "errors_ok (finish t oc m)" "errors_ok (start_close t m)" "errors_ok (close_done t ws m)"
    "errors_ok (close_cancelled t ws m)" "errors_ok (close_finished t ws oc m)"
    "errors_ok (start_enable t m)" "errors_ok (enable_locked t m)"
  by (rule errors_ok_keep [OF assms]; force simp: connect_ops other_ops finish_def Let_def split: op_splits if_splits)+

lemma route_failed: "futures (route w d m) i = FailedWith e \<Longrightarrow> futures m i = FailedWith e"
  by (auto simp: route_def route_collection_def handle_rpc_response_def Let_def
      split: route_kind.splits sum.splits option.splits if_splits)

lemma errors_ok_readers:
  assumes "errors_ok m"
  shows "errors_ok (receive ws msg m)" "errors_ok (route ws d m)" "errors_ok (route_update ws d qs m)"
    "errors_ok (set_reader ws rd m)" "errors_ok (drop_socket ws m)" "errors_ok (reader_teardown ws cause m)"
    "errors_ok (unregister_call i m)" "errors_ok (cancel_future i m)" "errors_ok (release m)"
    "errors_ok (release_socket ws m)" "errors_ok (detach_connection_locked x m)"
  by (rule errors_ok_keep [OF assms];
      auto simp: reader_teardown_def teardown_connection_def dest: route_failed split: if_splits)+

lemma errors_ok_begin: "errors_ok m \<Longrightarrow> errors_ok (begin_call t p m)"
proof -
  assume m: "errors_ok m"
  have sending: "errors_ok (goto t (Sending p w i) (acquire t (snd (register_call h m))))"
    if "private_conn p = None \<or> private_conn p = Some w" for w i h
    by (rule errors_ok_keep [OF m]) (use that in \<open>auto simp: register_call_def Let_def split: if_splits\<close>)
  have "errors_ok (m\<lparr>next_id_value := n\<rparr>)" for n using m by (simp add: errors_ok_def)
  then show "errors_ok (begin_call t p m)"
    using m sending [where h = "on_reply p"]
    by (cases p) (auto simp: begin_call_def intro: errors_ok_conclude split: option.split prod.split)
qed

lemma errors_ok_subscribe: "errors_ok m \<Longrightarrow> errors_ok (start_subscribe t ev m)"
  by (auto simp: start_subscribe_def Let_def intro!: errors_ok_begin) (simp add: errors_ok_def)

lemma errors_ok_call:
  assumes "errors_ok m" "call_of (tasks m t) = Some (p, ws, i)"
  shows "errors_ok (call_sent t p ws i m)" "errors_ok (send_failed t p ws i msg m)"
    "errors_ok (send_raised t p ws i er m)" "errors_ok (call_cancelled t p ws i m)"
    "errors_ok (call_timed_out t p ws i m)" "errors_ok (close_timed_out t p ws i m)"
    "errors_ok (timeout_cancelled t p ws i m)" "errors_ok (call_closed t p ws i err c m)"
proof -
  note own = errors_okD(3) [OF assms(1)]
  have moved: "errors_ok (goto t s m')"
    if "errors_ok m'" "tasks m' = tasks m" "call_of s = Some (p, ws, i)"
      "\<And>p w i e. s = CallClosing p w i e \<Longrightarrow> \<not> is_rejected_option (TrueNAS e)" for s m'
    by (rule errors_ok_keep [OF that(1)]) (use that own assms(2) in \<open>auto split: if_splits\<close>)
  have acquired: "errors_ok m' \<Longrightarrow> errors_ok (acquire t m')" for m' by (simp add: errors_ok_def)
  show "errors_ok (call_sent t p ws i m)" "errors_ok (send_failed t p ws i msg m)"
    "errors_ok (send_raised t p ws i er m)" "errors_ok (call_cancelled t p ws i m)"
    "errors_ok (call_timed_out t p ws i m)" "errors_ok (close_timed_out t p ws i m)"
    "errors_ok (timeout_cancelled t p ws i m)" "errors_ok (call_closed t p ws i err c m)"
    unfolding call_sent_def send_failed_def send_raised_def call_cancelled_def call_timed_out_def
      close_timed_out_def timeout_cancelled_def call_closed_def call_failed_locked_def
    using assms(1) by (auto intro!: moved errors_ok_conclude acquired simp: errors_ok_readers)
qed

lemma errors_ok_step:
  assumes "client_step m e m'" "errors_ok m"
  shows "errors_ok m'"
  using assms
  by (induction rule: client_step.induct)
    (auto simp: errors_ok_ops errors_ok_readers errors_ok_begin errors_ok_subscribe errors_ok_call
      errors_ok_conclude elim!: call_answeredE)

interpretation option_errors: client_invariant allowed "\<lambda>_. True" errors_ok for allowed
proof unfold_locales
  show "errors_ok init_machine" by (simp add: errors_ok_def init_machine_def)
qed (auto intro: errors_ok_step)

lemma conclude_unsent:
  "\<not> is_rejected_option x \<Longrightarrow> private_methods_ws (conclude t p ws (Inl x) m) = private_methods_ws m"
  by (auto simp: conclude_defs split: caller.splits outcome.splits option.splits)

lemma conclude_sent:
  "private_methods_ws (conclude t p ws r m) = Some w \<Longrightarrow> private_methods_ws m = Some w \<or> p = ForPrivateMethods w"
  by (auto simp: conclude_defs split: caller.splits sum.splits outcome.splits option.splits if_splits)

text \<open>A section that reads no reply of the option takes no connection for one it was sent on.\<close>

lemma unsent_ops:
  "private_methods_ws (start_connect t m) = Some w \<Longrightarrow> private_methods_ws m = Some w"
    "private_methods_ws (connect_opened t a b m) = Some w \<Longrightarrow> private_methods_ws m = Some w"
    "private_methods_ws (connect_logged_in t ws ans m) = Some w \<Longrightarrow> private_methods_ws m = Some w"
    "private_methods_ws (connect_cleaned_up t ws x c m) = Some w \<Longrightarrow> private_methods_ws m = Some w"
    "private_methods_ws (begin_call t p m) = Some w \<Longrightarrow> private_methods_ws m = Some w"
    "private_methods_ws (start_subscribe t ev m) = Some w \<Longrightarrow> private_methods_ws m = Some w"
    "private_methods_ws (start_unsubscribe t sid m) = Some w \<Longrightarrow> private_methods_ws m = Some w"
    "private_methods_ws (start_enable t m) = Some w \<Longrightarrow> private_methods_ws m = Some w"
    "private_methods_ws (enable_locked t m) = Some w \<Longrightarrow> private_methods_ws m = Some w"
    "private_methods_ws (finish t oc m) = Some w \<Longrightarrow> private_methods_ws m = Some w"
    "private_methods_ws (call_sent t p ws i m) = Some w \<Longrightarrow> private_methods_ws m = Some w"
    "private_methods_ws (send_failed t p ws i msg m) = Some w \<Longrightarrow> private_methods_ws m = Some w"
    "private_methods_ws (send_raised t p ws i er m) = Some w \<Longrightarrow> private_methods_ws m = Some w"
    "private_methods_ws (call_cancelled t p ws i m) = Some w \<Longrightarrow> private_methods_ws m = Some w"
    "private_methods_ws (call_timed_out t p ws i m) = Some w \<Longrightarrow> private_methods_ws m = Some w"
    "private_methods_ws (close_timed_out t p ws i m) = Some w \<Longrightarrow> private_methods_ws m = Some w"
    "private_methods_ws (timeout_cancelled t p ws i m) = Some w \<Longrightarrow> private_methods_ws m = Some w"
    "private_methods_ws (forget_subscription t wo sid oc m) = Some w \<Longrightarrow> private_methods_ws m = Some w"
    "private_methods_ws (start_close t m) = Some w \<Longrightarrow> private_methods_ws m = Some w"
    "private_methods_ws (close_done t ws m) = Some w \<Longrightarrow> private_methods_ws m = Some w"
    "private_methods_ws (close_cancelled t ws m) = Some w \<Longrightarrow> private_methods_ws m = Some w"
    "private_methods_ws (close_finished t ws oc m) = Some w \<Longrightarrow> private_methods_ws m = Some w"
    "private_methods_ws (reader_teardown ws cause m) = Some w \<Longrightarrow> private_methods_ws m = Some w"
    "private_methods_ws (call_closed t p ws i err cancelled m) = Some w \<Longrightarrow> \<not> is_rejected_option (TrueNAS err) \<Longrightarrow> private_methods_ws m = Some w"
  by (auto simp: connect_ops call_ops other_ops finish_def reader_teardown_def teardown_connection_def
      conclude_unsent Let_def split: op_splits if_splits)

lemma option_noted_step:
  assumes "client_step m e m'" "errors_ok m" "private_methods_ws m' = Some w"
  shows "private_methods_ws m = Some w \<or> option_request w \<in> set (answered_requests m e)"
  using assms
proof (induction rule: client_step.induct)
  case (option m t ws i a)
  then show ?case
    by (auto simp: connect_option_set_def request_before_reader_def attach_def finish_def Let_def
        answered_requests_def option_request_def split: transport.splits if_splits)
next
  case (answered m t p ws i m')
  from answered.hyps(2) show ?case
  proof (cases rule: call_answeredE)
    case (1 response)
    from conclude_sent [OF answered.prems(2) [unfolded 1(2)]]
    have "private_methods_ws m = Some w \<or> p = ForPrivateMethods w" by simp
    moreover have "p = ForPrivateMethods w \<Longrightarrow> ws = w"
      using errors_okD(3) [OF answered.prems(1), of t w ws i] answered.hyps(1) by simp
    ultimately show ?thesis
      using answered.hyps(1) 1(1) option_params [of w] by (auto simp: answered_requests_def option_request_def)
  next
    case (2 e)
    from answered.prems(2) show ?thesis
      unfolding 2(2) by (simp add: conclude_unsent errors_okD(1) [OF answered.prems(1) 2(1)])
  qed
next
  case (call_closed m t p ws i er b)
  then show ?case using unsent_ops(24) errors_okD(2) by blast
qed (auto dest: unsent_ops simp: conclude_unsent)

text \<open>So the connection the client takes for informed is one it told, if that was so before.\<close>

definition option_logged :: "request list \<Rightarrow> machine \<Rightarrow> bool" where
  "option_logged h m \<longleftrightarrow> (\<forall>w. private_methods_ws m = Some w \<longrightarrow> option_request w \<in> set h)"

lemma option_logged_run:
  assumes "client_log m h m'" "client_reachable (\<lambda>_ _. True) m" "option_logged h0 m"
  shows "option_logged (h0 @ h) m'"
  using assms(1,3)
proof (induction rule: client_log.induct)
  case (log_step h m' e m'')
  have "errors_ok m'" using option_errors.holds client_log_reachable [OF log_step.hyps(1) assms(2)] by blast
  then show ?case
    using log_step.IH [OF log_step.prems] option_noted_step [OF log_step.hyps(2)] by (auto simp: option_logged_def)
qed simp

section \<open>It stays in effect\<close>

definition informed :: "machine \<Rightarrow> bool" where
  "informed m \<longleftrightarrow> private_methods m \<and> private_methods_ws m = current_ws m"

lemma conclude_informed [simp]:
  "private_methods_ws m = current_ws m \<Longrightarrow> private_methods_ws (conclude t p ws r m) = current_ws m"
  using conclude_private [of t p ws r m] by auto

lemma informed_step:
  assumes "client_step m e m'" "informed m"
  shows "informed m'"
proof -
  have "private_methods m" "private_methods_ws m = current_ws m" using assms(2) by (simp_all add: informed_def)
  with assms(1) have "private_methods_ws m' = current_ws m'"
    by (induction rule: client_step.induct)
      (auto simp: connect_ops call_ops other_ops finish_def reader_teardown_def teardown_connection_def Let_def
        split: op_splits if_splits elim!: call_answeredE)
  with private_methods_step [OF assms(1)] assms(2) show ?thesis by (simp add: informed_def)
qed

lemma enable_informed:
  assumes "client_reachable allowed m" "client_step m e m'"
    and "wants_private (tasks m t)" "tasks m' t = Finished (Returned v)"
  shows "informed m'"
proof -
  note inv = enabled.holds [OF assms(1)]
  have "conn_ok m'" using conn_ok_step [OF assms(2)] core.holds [OF assms(1)] by (simp add: core_ok_def)
  then have known: "private_methods_ws m' = None \<or> private_methods_ws m' = current_ws m'" by (rule conn_okD(8))
  have "in_effect t m'" by (rule in_effect_step [OF assms(2) inv assms(3)])
  with known assms(4) have "private_methods_ws m' = current_ws m'"
    by (cases "current_ws m'") (auto simp: in_effect_def)
  with private_okD(2) [OF inv assms(3)] private_methods_step [OF assms(2)] show ?thesis by (simp add: informed_def)
qed

text \<open>An \<open>enable_private_methods\<close>, and a reconnect after it returned.\<close>

definition enabling_events :: "client_event list" where
  "enabling_events = connecting @ [EnablePrivate 1, PrivateLock 1, LockForCall 1, Sent 1] @ replying 2 PNone"

definition reconnecting :: "client_event list" where
  "reconnecting = [Lost 0 ''gone'', Teardown 0, Connect 2, Opened 2 OpenOk OpenOk, LoginAnswer 2 login_ok,
     OptionAnswer 2 (Reply [(PStr ''result'', PNone)])]"

text \<open>
  C12: once \<open>enable_private_methods\<close> returned, then for good, whatever is closed, lost or reconnected
  later, every connection the client is on is one where \<open>core.set_options({"private_methods": True})\<close>
  was sent and answered (be it with an error, which is only logged), and the client knows it.
\<close>

theorem enable_private_in_effect:
  assumes "client_log init_machine h m" "client_step m e m'"
    and "wants_private (tasks m t)" "tasks m' t = Finished (Returned v)"
    and "client_log m' h' m''" "current_ws m'' = Some ws"
  shows "private_methods m'' \<and> private_methods_ws m'' = Some ws
    \<and> (ws, ''core.set_options'', PList [PDict [(PStr ''private_methods'', PBool True)]])
        \<in> set (h @ answered_requests m e @ h')"
proof -
  have m': "client_log init_machine (h @ answered_requests m e) m'" using assms(1,2) by (rule log_step)
  note reach = client_log_init [OF assms(1)] client_log_init [OF m']
  have "informed m''"
    using client_log_keeps [OF assms(5) reach(2), where P = informed] informed_step
      enable_informed [OF reach(1) assms(2-4)] by blast
  then have "private_methods m''" "private_methods_ws m'' = Some ws" using assms(6) by (simp_all add: informed_def)
  moreover have "option_logged (h @ answered_requests m e) m'"
    using option_logged_run [OF m' client_init, of "[]"] by (simp add: option_logged_def init_machine_def)
  from option_logged_run [OF assms(5) reach(2) this] calculation(2)
  have "option_request ws \<in> set (h @ answered_requests m e @ h')" by (simp add: option_logged_def)
  ultimately show ?thesis by (simp add: option_request_def SET_OPTIONS_def PRIVATE_METHODS_OPTION_def)
qed

lemma enable_private_in_effect_witness:
  "private_methods_ws (run (\<lambda>_ _. True) ((enabling_events @ [Answered 1]) @ reconnecting)) = Some 1
    \<and> (1, ''core.set_options'', PList [PDict [(PStr ''private_methods'', PBool True)]])
        \<in> set (log_of enabling_events init_machine @ answered_requests (run (\<lambda>_ _. True) enabling_events) (Answered 1)
             @ log_of reconnecting (run (\<lambda>_ _. True) (enabling_events @ [Answered 1])))"
proof -
  let ?any = "\<lambda>_ _. True"
  have "possible ?any enabling_events" "possible ?any (enabling_events @ [Answered 1])"
    "possible ?any ((enabling_events @ [Answered 1]) @ reconnecting)"
    and wants: "wants_private (tasks (run ?any enabling_events) 1)"
      "tasks (run ?any (enabling_events @ [Answered 1])) 1 = Finished (Returned PNone)"
      "current_ws (run ?any ((enabling_events @ [Answered 1]) @ reconnecting)) = Some 1"
    by code_simp+
  note run = run_log [OF this(1)] run_step [OF this(2)] run_log_from [OF this(3)]
  show ?thesis using enable_private_in_effect [OF run(1,2) wants(1,2) run(3) wants(3)] by blast
qed

end
