(* ===== verification/ClientQueues.thy ===== *)
theory ClientQueues
  imports ClientSubs
begin

text \<open>
  The life of a subscription: what the end of a connection does to it, and what the caller of
  \<open>subscribe\<close> can rely on.
\<close>

section \<open>The end of a connection\<close>

text \<open>Every way the current connection ends detaches it, which ends the tracked queues.\<close>

definition ends_all :: "machine \<Rightarrow> machine \<Rightarrow> bool" where
  "ends_all m m' \<longleftrightarrow> current_ws m' = None \<and> subscriptions m' = []
     \<and> (\<forall>sid q. map_of (subscriptions m) sid = Some q \<longrightarrow> queues m' q = queues m q @ [SUBSCRIPTION_TERMINATOR])"

lemma ends_all_detach:
  "tables_ok m0 \<Longrightarrow> subscriptions m0 = subscriptions m \<Longrightarrow> queues m0 = queues m \<Longrightarrow> ends_all m (detach_connection_locked x m0)"
  by (auto simp: ends_all_def detach_ends)

lemma ends_all_then:
  assumes "ends_all m m0" "current_ws m' = current_ws m0" "subscriptions m' = subscriptions m0" "queues m' = queues m0"
  shows "ends_all m m'"
  using assms by (simp add: ends_all_def)

lemma ends_all_conclude: "ends_all m m0 \<Longrightarrow> ends_all m (conclude t p ws r m0)"
  using conclude_subscriptions [of t p ws r m0] by (auto simp: ends_all_def)

lemma connection_kept:
  assumes "current_ws m \<noteq> None" "conn_ok m"
  shows "current_ws (start_connect t m) = current_ws m" "current_ws (connect_opened t a b m) = current_ws m"
    "tasks m t = LoggingIn ws i \<Longrightarrow> current_ws (connect_logged_in t ws ans m) = current_ws m"
    "tasks m t = SettingOption ws i \<Longrightarrow> current_ws (connect_option_set t ws ans m) = current_ws m"
    "current_ws (connect_cleaned_up t ws x c m) = current_ws m" "current_ws (begin_call t p m) = current_ws m"
    "current_ws (start_subscribe t ev m) = current_ws m" "current_ws (start_unsubscribe t sid m) = current_ws m"
    "current_ws (start_enable t m) = current_ws m" "current_ws (enable_locked t m) = current_ws m"
    "current_ws (finish t oc m) = current_ws m" "current_ws (call_sent t p ws i m) = current_ws m"
    "current_ws (send_raised t p ws i er m) = current_ws m" "current_ws (call_cancelled t p ws i m) = current_ws m"
    "current_ws (call_timed_out t p ws i m) = current_ws m" "current_ws (call_closed t p ws i err c m) = current_ws m"
    "current_ws (forget_subscription t wo sid oc m) = current_ws m" "current_ws (close_done t ws m) = current_ws m"
    "current_ws (close_cancelled t ws m) = current_ws m" "current_ws (close_finished t ws oc m) = current_ws m"
  using assms conn_okD(1) [OF assms(2), of t]
  by (auto simp: connect_ops start_subscribe_def begin_call_def register_call_def call_sent_def send_raised_def
      call_cancelled_def call_timed_out_def call_closed_def other_ops finish_def Let_def split: op_splits)

lemma connection_ended:
  assumes "tables_ok m"
  shows "current_ws (send_failed t p ws i msg m) = current_ws m \<or> ends_all m (send_failed t p ws i msg m)"
    "current_ws (close_timed_out t p ws i m) = current_ws m \<or> ends_all m (close_timed_out t p ws i m)"
    "current_ws (timeout_cancelled t p ws i m) = current_ws m \<or> ends_all m (timeout_cancelled t p ws i m)"
    "current_ws (start_close t m) = current_ws m \<or> ends_all m (start_close t m)"
    "current_ws (reader_teardown ws cause m) = current_ws m \<or> ends_all m (reader_teardown ws cause m)"
proof -
  have failed: "current_ws (call_failed_locked t p ws i x er m0) = current_ws m \<or> ends_all m (call_failed_locked t p ws i x er m0)"
    if "tables_ok m0" "subscriptions m0 = subscriptions m" "queues m0 = queues m" "current_ws m0 = current_ws m" for x er m0
    using ends_all_detach [OF that(1-3), of x]
    by (auto simp: call_failed_locked_def that(4) intro!: ends_all_then [OF ends_all_detach [OF that(1-3), of x]])
  show "current_ws (send_failed t p ws i msg m) = current_ws m \<or> ends_all m (send_failed t p ws i msg m)"
    unfolding send_failed_def by (rule failed) (simp_all add: assms)
  show "current_ws (close_timed_out t p ws i m) = current_ws m \<or> ends_all m (close_timed_out t p ws i m)"
    unfolding close_timed_out_def by (rule failed) (simp_all add: assms)
  note ended = ends_all_detach [OF assms refl refl]
  show "current_ws (timeout_cancelled t p ws i m) = current_ws m \<or> ends_all m (timeout_cancelled t p ws i m)"
    using ends_all_then [OF ended [of "closed_after p"]]
    by (auto simp: timeout_cancelled_def intro!: ends_all_conclude)
  show "current_ws (start_close t m) = current_ws m \<or> ends_all m (start_close t m)"
    using ends_all_then [OF ended [of CLOSED_BY_CLIENT]] by (auto simp: start_close_def finish_def split: option.split)
  show "current_ws (reader_teardown ws cause m) = current_ws m \<or> ends_all m (reader_teardown ws cause m)"
    by (auto simp: reader_teardown_def teardown_connection_def intro!: ends_all_then [OF ended] split: option.split)
qed

lemma connection_step:
  assumes "client_step m e m'" "conn_ok m" "tables_ok m" "current_ws m \<noteq> None"
  shows "current_ws m' = current_ws m \<or> ends_all m m'"
  using assms
  by (induction rule: client_step.induct)
    (simp_all add: connection_kept connection_ended, auto elim!: call_answeredE)

text \<open>
  C10: whatever ends the current connection (\<open>close\<close>, a failed send, a timeout, the reader) leaves the
  client disconnected with no subscription, and ends every queue that was tracked: no consumer
  waits on a connection that is gone.
\<close>

theorem disconnect_ends_subscriptions:
  assumes "client_reachable allowed m" "client_step m e m'"
    and "current_ws m = Some ws" "current_ws m' \<noteq> Some ws" "map_of (subscriptions m) sid = Some q"
  shows "current_ws m' = None \<and> subscriptions m' = [] \<and> queues m' q = queues m q @ [SUBSCRIPTION_TERMINATOR]"
  using connection_step [OF assms(2) core_okD(2) [OF assms(1)] subs_okD(2) [OF assms(1)]] assms(3-5)
  by (simp add: ends_all_def)

lemma disconnect_ends_subscriptions_witness:
  "current_ws (run (\<lambda>_ _. True) (subscribing @ [Close 2])) = None
    \<and> subscriptions (run (\<lambda>_ _. True) (subscribing @ [Close 2])) = []
    \<and> queues (run (\<lambda>_ _. True) (subscribing @ [Close 2])) 0
      = queues (run (\<lambda>_ _. True) subscribing) 0 @ [SUBSCRIPTION_TERMINATOR]"
proof (rule disconnect_ends_subscriptions [OF client_run_reachable run_step])
  show "possible (\<lambda>_ _. True) (subscribing @ [Close 2])" by code_simp
  show "current_ws (run (\<lambda>_ _. True) subscribing) = Some 0" by code_simp
  show "current_ws (run (\<lambda>_ _. True) (subscribing @ [Close 2])) \<noteq> Some 0" by code_simp
  show "map_of (subscriptions (run (\<lambda>_ _. True) subscribing)) ''s1'' = Some 0" by code_simp
qed

section \<open>What \<open>subscribe\<close> returns\<close>

fun result_queue :: "task \<Rightarrow> (string \<times> queue_id) option" where
  "result_queue (Finished (ReturnedQueue sid q)) = Some (sid, q)"
| "result_queue (Forgetting wo sid' (ReturnedQueue sid q)) = Some (sid, q)"
| "result_queue _ = None"

text \<open>
  A pending \<open>subscribe\<close> has its hook; once its reply is there, or it returned, its queue is
  registered under the id of the reply.
\<close>

definition replies_ok :: "machine \<Rightarrow> bool" where
  "replies_ok m \<longleftrightarrow>
     (\<forall>t q ev w i. call_of (tasks m t) = Some (ForSubscribe q ev, w, i) \<longrightarrow> i \<in> set (pending_calls m) \<longrightarrow>
        map_of (reply_hooks m) i = Some (q, ev))
     \<and> (\<forall>t q ev w i d sid. call_of (tasks m t) = Some (ForSubscribe q ev, w, i) \<longrightarrow> futures m i = Resolved d \<longrightarrow>
          get_or d ''result'' PNone = PStr sid \<longrightarrow> registered m q = Some sid)
     \<and> (\<forall>t sid q. result_queue (tasks m t) = Some (sid, q) \<longrightarrow> registered m q = Some sid)"

lemma replies_okD:
  assumes "replies_ok m"
  shows "call_of (tasks m t) = Some (ForSubscribe q ev, w, i) \<Longrightarrow> i \<in> set (pending_calls m) \<Longrightarrow>
      map_of (reply_hooks m) i = Some (q, ev)"
    "call_of (tasks m t) = Some (ForSubscribe q ev, w, i) \<Longrightarrow> futures m i = Resolved d \<Longrightarrow>
      get_or d ''result'' PNone = PStr sid \<Longrightarrow> registered m q = Some sid"
    "result_queue (tasks m t) = Some (sid, q) \<Longrightarrow> registered m q = Some sid"
  using assms unfolding replies_ok_def by blast+

lemma replies_ok_keep:
  assumes "replies_ok m" "registered m' = registered m"
    and "\<And>t p w i. call_of (tasks m' t) = Some (p, w, i) \<Longrightarrow> call_of (tasks m t) = Some (p, w, i)"
    and "\<And>t sid q. result_queue (tasks m' t) = Some (sid, q) \<Longrightarrow> result_queue (tasks m t) = Some (sid, q)"
    and "\<And>i. i \<in> set (pending_calls m') \<Longrightarrow> i \<in> set (pending_calls m) \<and> map_of (reply_hooks m') i = map_of (reply_hooks m) i"
    and "\<And>i d. futures m' i = Resolved d \<Longrightarrow> futures m i = Resolved d"
  shows "replies_ok m'"
  unfolding replies_ok_def assms(2)
  using replies_okD(1) [OF assms(1) assms(3)] replies_okD(2) [OF assms(1) assms(3) assms(6)]
    replies_okD(3) [OF assms(1) assms(4)] assms(5)
  by auto

lemma conclude_result:
  "result_queue (tasks (conclude t p ws r m) t') = Some (sid, q) \<Longrightarrow>
    (t' \<noteq> t \<and> result_queue (tasks m t') = Some (sid, q))
    \<or> (t' = t \<and> r = Inr (PStr sid) \<and> (\<exists>ev. p = ForSubscribe q ev))"
proof (cases "t' = t")
  case True
  then show "result_queue (tasks (conclude t p ws r m) t') = Some (sid, q) \<Longrightarrow> ?thesis"
    by (cases r) (auto simp: conclude_defs subscribe_result_def
        split: caller.splits sum.splits outcome.splits option.splits if_splits pyval.splits)
qed (simp add: conclude_task_others)

lemma replies_ok_conclude:
  assumes "replies_ok m" "\<And>q ev sid. p = ForSubscribe q ev \<Longrightarrow> r = Inr (PStr sid) \<Longrightarrow> registered m q = Some sid"
  shows "replies_ok (conclude t p w r m)"
  unfolding replies_ok_def
proof (intro conjI allI impI)
  fix t' sid q
  assume "result_queue (tasks (conclude t p w r m) t') = Some (sid, q)"
  then show "registered (conclude t p w r m) q = Some sid"
    using conclude_result [of t p w r m t' sid q] replies_okD(3) [OF assms(1), of t' sid q] assms(2) by auto
qed (auto dest: replies_okD(1,2) [OF assms(1)] split: if_splits)

lemma replies_ok_error: "replies_ok m \<Longrightarrow> replies_ok (conclude t p w (Inl e) m)"
  by (rule replies_ok_conclude) auto

lemma replies_ok_ops:
  assumes "replies_ok m"
  shows "replies_ok (start_connect t m)" "replies_ok (connect_opened t a b m)"
    "replies_ok (connect_logged_in t ws ans m)" "replies_ok (connect_option_set t ws ans m)"
    "replies_ok (connect_cleaned_up t ws x c m)" "replies_ok (start_unsubscribe t sid m)"
    "replies_ok (finish t (Returned v) m)" "replies_ok (finish t (Raised er) m)"
    "replies_ok (start_enable t m)" "replies_ok (enable_locked t m)" "replies_ok (start_close t m)"
    "replies_ok (close_done t ws m)" "replies_ok (close_cancelled t ws m)" "replies_ok (close_finished t ws (Returned v) m)"
    "replies_ok (close_finished t ws (Raised er) m)" "replies_ok (receive ws msg m)"
    "replies_ok (route_update ws d qs m)" "replies_ok (reader_teardown ws cause m)"
    "replies_ok (set_reader ws rd m)" "replies_ok (drop_socket ws m)"
    "tasks m t = Forgetting wo sid oc \<Longrightarrow> replies_ok (forget_subscription t wo sid oc m)"
  by (rule replies_ok_keep [OF assms];
      auto simp: connect_ops other_ops finish_def reader_teardown_def teardown_connection_def Let_def
        split: op_splits; (cases oc; auto)?)+

lemma replies_ok_pieces:
  assumes "replies_ok m"
  shows "replies_ok (unregister_call i m)" "replies_ok (detach_connection_locked x m)" "replies_ok (acquire t m)"
    "replies_ok (release m)" "replies_ok (release_socket w m)" "replies_ok (cancel_future i m)"
    "replies_ok (m\<lparr>next_id_value := n\<rparr>)" "replies_ok (m\<lparr>next_queue := q\<rparr>)"
  by (rule replies_ok_keep [OF assms]; auto simp: delete_conv' split: if_splits)+

lemma replies_ok_call:
  assumes "replies_ok m" "call_of (tasks m t) = Some (p, ws, i)"
  shows "replies_ok (call_sent t p ws i m)" "replies_ok (send_failed t p ws i msg m)"
    "replies_ok (send_raised t p ws i er m)" "replies_ok (call_cancelled t p ws i m)"
    "replies_ok (call_timed_out t p ws i m)" "replies_ok (close_timed_out t p ws i m)"
    "replies_ok (timeout_cancelled t p ws i m)" "replies_ok (call_closed t p ws i err c m)"
proof -
  have moved: "replies_ok (goto t s m')" if "replies_ok m'" "call_of s = Some (p, ws, i)" "result_queue s = None" "tasks m' = tasks m" for s m'
    by (rule replies_ok_keep [OF that(1)]) (use that(2-4) assms(2) in \<open>auto split: if_splits\<close>)
  show "replies_ok (call_sent t p ws i m)" "replies_ok (send_failed t p ws i msg m)"
    "replies_ok (send_raised t p ws i er m)" "replies_ok (call_cancelled t p ws i m)"
    "replies_ok (call_timed_out t p ws i m)" "replies_ok (close_timed_out t p ws i m)"
    "replies_ok (timeout_cancelled t p ws i m)" "replies_ok (call_closed t p ws i err c m)"
    using assms(1)
    by (auto simp: call_sent_def send_failed_def send_raised_def call_cancelled_def call_timed_out_def
        close_timed_out_def call_failed_locked_def timeout_cancelled_def call_closed_def replies_ok_pieces
        intro!: moved replies_ok_error)
qed

lemma replies_ok_begin:
  assumes "replies_ok m" "calls_ok m"
  shows "replies_ok (begin_call t p m)"
proof -
  have new: "futures m (next_id_value m) = Unresolved" using calls_okD(7) [OF assms(2)] by simp
  have other: "i \<noteq> next_id_value m" if "call_of (tasks m t') = Some (p', w, i)" for t' p' w i
    using calls_okD(1) [OF assms(2) that] by simp
  have hook: "map_of (reply_hooks m) (next_id_value m) = None"
    using calls_okD(1,5,6) [OF assms(2)] by (metis map_of_SomeD not_None_eq order_less_irrefl)
  have "replies_ok (goto t (Sending p w (next_id_value m)) (acquire t (snd (register_call (on_reply p) m))))" for w
    unfolding replies_ok_def using replies_okD [OF assms(1)]
    by (auto simp: register_call_def update_conv' new Let_def split: if_splits option.splits dest: other)
  then show ?thesis
    using assms(1) by (auto simp: begin_call_def register_call_def replies_ok_pieces Let_def
        intro!: replies_ok_error split: option.split prod.split)
qed

lemma replies_ok_subscribe: "replies_ok m \<Longrightarrow> calls_ok m \<Longrightarrow> replies_ok (start_subscribe t ev m)"
  by (auto simp: start_subscribe_def Let_def replies_ok_pieces calls_ok_def ids_fresh_def waits_registered_def
      ids_unique_def pending_owned_def intro!: replies_ok_begin)

lemma replies_ok_answered:
  assumes "replies_ok m" "call_of (tasks m t) = Some (p, ws, i)" "futures m i = Resolved d"
  shows "replies_ok (conclude t p ws (call_outcome (method_of p) d) (unregister_call i m))"
proof (rule replies_ok_conclude [OF replies_ok_pieces(1) [OF assms(1)]])
  fix q ev sid assume p: "p = ForSubscribe q ev" and "call_outcome (method_of p) d = Inr (PStr sid)"
  then have "get_or d ''result'' PNone = PStr sid"
    by (auto simp: call_outcome_def get_or_def split: if_splits option.splits)
  then show "registered (unregister_call i m) q = Some sid"
    using replies_okD(2) [OF assms(1) assms(2) [unfolded p] assms(3)] by simp
qed

lemma replies_ok_route:
  assumes "replies_ok m" "owners_ok m"
  shows "replies_ok (route ws d m)"
proof -
  note D = replies_okD [OF assms(1)]
  have "replies_ok (handle_rpc_response ws i d m)" for i
  proof (cases "current_ws m = Some ws \<and> i \<in> set (pending_calls m) \<and> futures m i = Unresolved")
    case False
    then show ?thesis using replies_ok_pieces(1) [OF assms(1)] assms(1)
      by (auto simp: handle_rpc_response_def Let_def)
  next
    case True
    show ?thesis
    proof (cases "map_of (reply_hooks m) i")
      case None
      then show ?thesis
        using True D unfolding replies_ok_def
        by (auto simp: handle_rpc_response_def Let_def delete_conv' split: if_splits)
    next
      case (Some h)
      obtain q ev where h: "h = (q, ev)" by (cases h)
      have new: "registered m q = None" using owners_okD(4) [OF assms(2)] Some h by (auto dest: map_of_SomeD)
      have own: "q' = q \<and> ev' = ev" if "call_of (tasks m t) = Some (ForSubscribe q' ev', w, i)" for t q' ev' w
        using D(1) [OF that] True Some h by simp
      show ?thesis
        using True Some h D new own unfolding replies_ok_def
        by (auto simp: handle_rpc_response_def register_subscription_def Let_def delete_conv' split: if_splits pyval.splits)
    qed
  qed
  moreover have "replies_ok (handle_subscription_notification ws sid d m)" "replies_ok (deliver qs d m)" for sid qs
    by (rule replies_ok_keep [OF assms(1)]; auto)+
  moreover have "replies_ok (set_reader ws rd m') = replies_ok m'" for rd m' by (simp add: replies_ok_def)
  ultimately show ?thesis
    using assms(1) by (auto simp: route_def route_collection_def split: route_kind.split sum.split)
qed

lemma replies_ok_step:
  assumes "client_step m e m'" "calls_ok m" "owners_ok m" "replies_ok m"
  shows "replies_ok m'"
  using assms
  by (induction rule: client_step.induct)
    (auto simp: replies_ok_ops replies_ok_call replies_ok_begin replies_ok_subscribe replies_ok_route replies_ok_answered
      replies_ok_error replies_ok_pieces elim!: call_answeredE)

section \<open>A returned queue is fed or ended\<close>

text \<open>A server that gives no subscription the id of another one that is still tracked.\<close>

definition fresh_ids :: "machine \<Rightarrow> client_event \<Rightarrow> bool" where
  "fresh_ids m e =
     (case e of
        Route ws \<Rightarrow>
          (case readers m ws of
             Routing c \<Rightarrow>
               (case route_message c of
                  RpcReply i \<Rightarrow>
                    map_of (reply_hooks m) i = None
                    \<or> (case get_or c ''result'' PNone of PStr sid \<Rightarrow> map_of (subscriptions m) sid = None | _ \<Rightarrow> True)
                | _ \<Rightarrow> True)
           | _ \<Rightarrow> True)
      | _ \<Rightarrow> True)"

definition lives :: "machine \<Rightarrow> queue_id \<Rightarrow> string \<Rightarrow> bool" where
  "lives m q sid \<longleftrightarrow> map_of (subscriptions m) sid = Some q \<or> SUBSCRIPTION_TERMINATOR \<in> set (queues m q)"

definition lifetime_ok :: "machine \<Rightarrow> bool" where
  "lifetime_ok m \<longleftrightarrow> (\<forall>t q sid. queue_of (tasks m t) = Some q \<longrightarrow> registered m q = Some sid \<longrightarrow> lives m q sid)"

lemma lifetime_ok_keep:
  assumes "lifetime_ok m"
    and "\<And>t q. queue_of (tasks m' t) = Some q \<Longrightarrow> registered m' q \<noteq> None \<Longrightarrow> queue_of (tasks m t) = Some q"
    and "\<And>t q sid. queue_of (tasks m' t) = Some q \<Longrightarrow> registered m' q = Some sid \<Longrightarrow> registered m q = Some sid"
    and "\<And>t q sid. queue_of (tasks m' t) = Some q \<Longrightarrow> lives m q sid \<Longrightarrow> lives m' q sid"
  shows "lifetime_ok m'"
  using assms unfolding lifetime_ok_def by (metis option.distinct(1))

lemma lives_same:
  "subscriptions m' = subscriptions m \<Longrightarrow> queues m' = queues m \<Longrightarrow> lives m' q sid = lives m q sid"
  by (simp add: lives_def)

lemma lives_detach: "tables_ok m \<Longrightarrow> lives m q sid \<Longrightarrow> lives (detach_connection_locked x m) q sid"
  by (auto simp: lives_def detach_ends)

definition sole :: "nat \<Rightarrow> machine \<Rightarrow> bool" where
  "sole t m \<longleftrightarrow> (\<forall>t' q. queue_of (tasks m t) = Some q \<longrightarrow> queue_of (tasks m t') = Some q \<longrightarrow> t' = t)"

lemma sole_owner: "owners_ok m \<Longrightarrow> sole t m"
  unfolding sole_def using owners_okD(3) by blast

lemma lives_conclude:
  assumes "sole t m" "caller_queue p = None \<or> queue_of (tasks m t) = caller_queue p"
    and "queue_of (tasks (conclude t p w r m) t') = Some q" "lives m q sid"
  shows "lives (conclude t p w r m) q sid"
proof (rule ccontr)
  assume dead: "\<not> lives (conclude t p w r m) q sid"
  from conclude_subscriptions [of t p w r m] assms(4) dead
  obtain q' ev' sid' where gone: "p = ForSubscribe q' ev'" "map_of (subscriptions m) sid' = Some q'"
    "subscriptions (conclude t p w r m) = AList.delete sid' (subscriptions m)"
    "\<exists>e. tasks (conclude t p w r m) = (tasks m)(t := Finished (Raised e))"
    by (auto simp: lives_def)
  then have "q = q'" "t' \<noteq> t" "queue_of (tasks m t') = Some q"
    using assms(3,4) dead by (auto simp: lives_def delete_conv' split: if_splits)
  with gone(1) assms(1,2) show False by (auto simp: sole_def)
qed

lemma lifetime_ok_conclude:
  assumes "lifetime_ok m" "sole t m" "caller_queue p = None \<or> queue_of (tasks m t) = caller_queue p"
  shows "lifetime_ok (conclude t p w r m)"
proof (rule lifetime_ok_keep [OF assms(1)])
  show old: "queue_of (tasks (conclude t p w r m) t') = Some q \<Longrightarrow> queue_of (tasks m t') = Some q" for t' q
    using assms(3) by (auto dest!: conclude_queue split: if_splits)
qed (simp_all add: lives_conclude [OF assms(2,3)])

lemma lifetime_ok_ops:
  assumes "lifetime_ok m"
  shows "lifetime_ok (start_connect t m)" "lifetime_ok (connect_opened t a b m)"
    "lifetime_ok (connect_logged_in t ws ans m)" "lifetime_ok (connect_option_set t ws ans m)"
    "lifetime_ok (connect_cleaned_up t ws x c m)" "lifetime_ok (start_unsubscribe t sid m)"
    "lifetime_ok (finish t (Returned v) m)" "lifetime_ok (finish t (Raised er) m)"
    "lifetime_ok (start_enable t m)" "lifetime_ok (enable_locked t m)"
    "lifetime_ok (close_done t ws m)" "lifetime_ok (close_cancelled t ws m)" "lifetime_ok (close_finished t ws (Returned v) m)"
    "lifetime_ok (close_finished t ws (Raised er) m)" "lifetime_ok (receive ws msg m)"
    "lifetime_ok (set_reader ws rd m)" "lifetime_ok (drop_socket ws m)"
  by (rule lifetime_ok_keep [OF assms];
      auto simp: lives_def connect_ops other_ops finish_def Let_def split: op_splits)+

lemma lifetime_ok_pieces:
  assumes "lifetime_ok m"
  shows "lifetime_ok (unregister_call i m)" "lifetime_ok (acquire t m)"
    "lifetime_ok (release m)" "lifetime_ok (release_socket w m)" "lifetime_ok (cancel_future i m)"
    "lifetime_ok (m\<lparr>next_id_value := n\<rparr>)" "lifetime_ok (m\<lparr>next_queue := q\<rparr>)"
    "tables_ok m \<Longrightarrow> lifetime_ok (detach_connection_locked x m)"
  by (rule lifetime_ok_keep [OF assms]; auto simp: lives_def detach_ends split: if_splits)+

lemma lifetime_ok_call:
  assumes "lifetime_ok m" "owners_ok m" "tables_ok m" "call_of (tasks m t) = Some (p, ws, i)"
  shows "lifetime_ok (call_sent t p ws i m)" "lifetime_ok (send_failed t p ws i msg m)"
    "lifetime_ok (send_raised t p ws i er m)" "lifetime_ok (call_cancelled t p ws i m)"
    "lifetime_ok (call_timed_out t p ws i m)" "lifetime_ok (close_timed_out t p ws i m)"
    "lifetime_ok (timeout_cancelled t p ws i m)" "lifetime_ok (call_closed t p ws i err c m)"
    "lifetime_ok (conclude t p ws r (unregister_call i m))"
proof -
  note own = queue_of_call [OF assms(4)]
  have sole: "sole t m'" if "tasks m' = tasks m" for m'
    using sole_owner [OF assms(2), of t] that by (simp add: sole_def)
  have moved: "lifetime_ok (goto t s m')" if "lifetime_ok m'" "queue_of s = caller_queue p" "tasks m' = tasks m" for s m'
    by (rule lifetime_ok_keep [OF that(1)]) (use that(2,3) own in \<open>auto simp: lives_def split: if_splits\<close>)
  show "lifetime_ok (call_sent t p ws i m)" "lifetime_ok (send_failed t p ws i msg m)"
    "lifetime_ok (send_raised t p ws i er m)" "lifetime_ok (call_cancelled t p ws i m)"
    "lifetime_ok (call_timed_out t p ws i m)" "lifetime_ok (close_timed_out t p ws i m)"
    "lifetime_ok (timeout_cancelled t p ws i m)" "lifetime_ok (call_closed t p ws i err c m)"
    "lifetime_ok (conclude t p ws r (unregister_call i m))"
    using assms(1,3)
    by (auto simp: call_sent_def send_failed_def send_raised_def call_cancelled_def call_timed_out_def
        close_timed_out_def call_failed_locked_def timeout_cancelled_def call_closed_def lifetime_ok_pieces own sole
        intro!: moved lifetime_ok_conclude)
qed

lemma lifetime_ok_begin:
  assumes "lifetime_ok m" "owners_ok m" "on_reply p = None"
  shows "lifetime_ok (begin_call t p m)"
proof -
  have cq: "caller_queue p = None" using assms(3) by (simp add: caller_queue_iff)
  have sole: "sole t m'" if "tasks m' = tasks m" for m'
    using sole_owner [OF assms(2), of t] that by (simp add: sole_def)
  have "lifetime_ok (goto t (Sending p w i) (acquire t (snd (register_call None m))))" for w i
    by (rule lifetime_ok_keep [OF assms(1)]) (auto simp: cq lives_def register_call_def Let_def split: if_splits)
  then show ?thesis
    using assms(1) by (auto simp: begin_call_def register_call_def assms(3) cq sole lifetime_ok_pieces Let_def
        intro!: lifetime_ok_conclude split: option.split prod.split)
qed

lemma lifetime_ok_subscribe:
  assumes "lifetime_ok m" "owners_ok m"
  shows "lifetime_ok (start_subscribe t ev m)"
proof -
  have new: "registered m (next_queue m) = None" using owners_okD(1) [OF assms(2)] by simp
  show ?thesis
    by (rule lifetime_ok_keep [OF assms(1)])
      (auto simp: start_subscribe_def begin_call_def register_call_def conclude_def subscribe_result_def untrack_def
        finish_def lives_def new Let_def split: option.splits if_splits)
qed

lemma lifetime_ok_closes:
  assumes "lifetime_ok m" "tables_ok m"
  shows "lifetime_ok (start_close t m)" "lifetime_ok (reader_teardown ws cause m)"
    "tasks m t = Forgetting wo sid oc \<Longrightarrow> lifetime_ok (forget_subscription t wo sid oc m)"
proof -
  show "lifetime_ok (start_close t m)" "lifetime_ok (reader_teardown ws cause m)"
    by (rule lifetime_ok_keep [OF assms(1)];
        auto simp: start_close_def reader_teardown_def teardown_connection_def finish_def lives_def detach_ends [OF assms(2)]
          split: option.splits if_splits)+
  assume at: "tasks m t = Forgetting wo sid oc"
  have "lives m q sid' \<Longrightarrow> lives (forget_subscription t wo sid oc m) q sid'" for q sid'
    by (auto simp: lives_def forget_subscription_def finish_def delete_conv' Let_def split: option.splits)
  moreover have "registered (forget_subscription t wo sid oc m) = registered m"
    "tasks (forget_subscription t wo sid oc m) = (tasks m)(t := Finished oc)"
    by (auto simp: forget_subscription_def finish_def Let_def split: option.splits)
  moreover have "queue_of (Finished oc) = queue_of (tasks m t)" using at by (cases oc) auto
  ultimately show "lifetime_ok (forget_subscription t wo sid oc m)"
    by (intro lifetime_ok_keep [OF assms(1)]) (auto split: if_splits)
qed

lemma lifetime_ok_route:
  assumes "lifetime_ok m" "owners_ok m" "readers m ws = Routing d" "fresh_ids m (Route ws)"
  shows "lifetime_ok (route ws d m)"
proof -
  have rpc: "lifetime_ok (handle_rpc_response ws i d m)" if "route_message d = RpcReply i" for i
  proof (cases "\<exists>q ev sid. current_ws m = Some ws \<and> i \<in> set (pending_calls m) \<and> futures m i = Unresolved
      \<and> map_of (reply_hooks m) i = Some (q, ev) \<and> get_or d ''result'' PNone = PStr sid")
    case False
    then have "registered (handle_rpc_response ws i d m) = registered m"
      "subscriptions (handle_rpc_response ws i d m) = subscriptions m"
      by (auto simp: handle_rpc_response_def register_subscription_def Let_def split: option.split pyval.split)
    then show ?thesis by (intro lifetime_ok_keep [OF assms(1)]) (auto simp: lives_def)
  next
    case True
    then obtain q ev sid where h: "map_of (reply_hooks m) i = Some (q, ev)" "get_or d ''result'' PNone = PStr sid"
      and r: "handle_rpc_response ws i d m = set_future i (Resolved d) (register_subscription q ev d (unregister_call i m))"
      by (auto simp: handle_rpc_response_def Let_def)
    have fresh: "map_of (subscriptions m) sid = None"
      using assms(3,4) that h by (simp add: fresh_ids_def)
    have "lives m q' sid' \<Longrightarrow> lives (handle_rpc_response ws i d m) q' sid'" for q' sid'
      using fresh h(2) by (auto simp: lives_def r register_subscription_def update_conv')
    moreover have "lives (handle_rpc_response ws i d m) q sid"
      using h(2) by (simp add: lives_def r register_subscription_def update_conv')
    moreover have "registered (handle_rpc_response ws i d m) = (registered m)(q := Some sid)"
      using h(2) by (simp add: r register_subscription_def)
    ultimately show ?thesis using assms(1) by (auto simp: lifetime_ok_def)
  qed
  have "lives m q s \<Longrightarrow> lives (handle_subscription_notification ws sid d m) q s" for q s sid
    by (auto simp: lives_def handle_subscription_notification_def split: option.split)
  then have "lifetime_ok (handle_subscription_notification ws sid d m)" for sid
    by (intro lifetime_ok_keep [OF assms(1)]) auto
  moreover have "lifetime_ok (deliver qs d m)" for qs
    by (rule lifetime_ok_keep [OF assms(1)]) (auto simp: lives_def deliver_queues)
  moreover have "lifetime_ok (set_reader ws rd m') = lifetime_ok m'" for rd m' by (simp add: lifetime_ok_def lives_def)
  ultimately show ?thesis
    using assms(1) rpc by (auto simp: route_def route_collection_def split: route_kind.split sum.split)
qed

lemma lifetime_ok_update: "lifetime_ok m \<Longrightarrow> lifetime_ok (route_update ws d qs m)"
  by (erule lifetime_ok_keep) (auto simp: lives_def route_update_def deliver_new_queues split: sum.splits)

lemma lifetime_ok_step:
  assumes "client_step m e m'" "fresh_ids m e" "owners_ok m" "tables_ok m" "lifetime_ok m"
  shows "lifetime_ok m'"
  using assms
  by (induction rule: client_step.induct)
    (auto simp: lifetime_ok_ops lifetime_ok_call lifetime_ok_begin lifetime_ok_subscribe lifetime_ok_route
      lifetime_ok_update lifetime_ok_closes lifetime_ok_pieces caller_queue_iff sole_owner owners_ok_unregister owners_okD(6)
      intro!: lifetime_ok_conclude elim!: call_answeredE)

definition queues_live :: "machine \<Rightarrow> bool" where
  "queues_live m \<longleftrightarrow> replies_ok m \<and> lifetime_ok m"

interpretation live: client_invariant fresh_ids "\<lambda>m. core_ok m \<and> subs_ok m" queues_live
proof unfold_locales
  show "queues_live init_machine"
    by (simp add: queues_live_def replies_ok_def lifetime_ok_def init_machine_def)
  show "client_reachable fresh_ids m \<Longrightarrow> core_ok m \<and> subs_ok m" for m
    using core.holds subs.holds by blast
qed (auto simp: core_ok_def subs_ok_def queues_live_def intro: replies_ok_step lifetime_ok_step)

text \<open>
  C6: against a server that gives live subscriptions different ids, the queue \<open>subscribe\<close> returned
  is from then on either tracked under the returned id on the current connection, so that it is
  fed, or ended by a terminator that nothing follows: its reader is never left waiting.
\<close>

theorem subscription_fed_or_ended:
  assumes "client_reachable fresh_ids m" "tasks m t = Finished (ReturnedQueue sid q)"
  shows "(map_of (subscriptions m) sid = Some q \<and> current_ws m \<noteq> None)
    \<or> (\<exists>ds. queues m q = map Notification ds @ [SUBSCRIPTION_TERMINATOR])"
proof -
  note live = live.holds [OF assms(1), unfolded queues_live_def]
  have "registered m q = Some sid" using replies_okD(3) [of m t sid q] live assms(2) by simp
  moreover have "queue_of (tasks m t) = Some q" using assms(2) by simp
  ultimately have "lives m q sid" using live unfolding lifetime_ok_def by blast
  then show ?thesis
    using ended_queue [OF subs_okD(2) [OF assms(1)], of q] conn_okD(4) [OF core_okD(2) [OF assms(1)]]
    by (auto simp: lives_def)
qed

lemma subscription_fed_or_ended_witness:
  "(map_of (subscriptions (run fresh_ids subscribing)) ''s1'' = Some 0 \<and> current_ws (run fresh_ids subscribing) \<noteq> None)
    \<or> (\<exists>ds. queues (run fresh_ids subscribing) 0 = map Notification ds @ [SUBSCRIPTION_TERMINATOR])"
  by (rule subscription_fed_or_ended [OF client_run_reachable, where t = 1]) code_simp

end
