(* ===== verification/ClientSockets.thy ===== *)
theory ClientSockets
  imports ClientSubs ClientTrace
begin

text \<open>
  Who closes a socket: every open socket belongs to the current connection or to a task that will
  close it, as long as the reader ends by losing its connection.  The socket of a reader that ends
  by another exception stays open for good.
\<close>

section \<open>Sockets and readers\<close>

text \<open>The reader ends by a lost connection only, not by another exception of its loop.\<close>

definition no_crash :: "machine \<Rightarrow> client_event \<Rightarrow> bool" where
  "no_crash m e = (case e of Crashed ws x \<Rightarrow> False | _ \<Rightarrow> True)"

fun tearing_down :: "reader \<Rightarrow> bool" where
  "tearing_down (TearingDown cause) = True"
| "tearing_down _ = False"

definition sockets_ok :: "machine \<Rightarrow> bool" where
  "sockets_ok m \<longleftrightarrow>
     (\<forall>ws \<in> set (open_sockets m). current_ws m = Some ws \<or> (\<exists>t. socket_of (tasks m t) = Some ws))
     \<and> (\<forall>ws. tearing_down (readers m ws) \<longrightarrow> ws \<notin> set (open_sockets m))
     \<and> (\<forall>ws. readers m ws \<noteq> NoReader \<longrightarrow> ws < next_ws m)"

lemma sockets_okD:
  assumes "sockets_ok m"
  shows "ws \<in> set (open_sockets m) \<Longrightarrow> current_ws m = Some ws \<or> (\<exists>t. socket_of (tasks m t) = Some ws)"
    "tearing_down (readers m ws) \<Longrightarrow> ws \<notin> set (open_sockets m)"
    "readers m ws \<noteq> NoReader \<Longrightarrow> ws < next_ws m"
  using assms by (auto simp: sockets_ok_def)

text \<open>A section that opens no socket, lets none go and wakes no reader.\<close>

lemma sockets_ok_keep:
  assumes "sockets_ok m" "next_ws m' = next_ws m" "set (open_sockets m') \<subseteq> set (open_sockets m)"
    and "\<And>ws. ws \<in> set (open_sockets m') \<Longrightarrow> current_ws m = Some ws \<Longrightarrow>
      current_ws m' = Some ws \<or> (\<exists>t. socket_of (tasks m' t) = Some ws)"
    and "\<And>ws t. ws \<in> set (open_sockets m') \<Longrightarrow> socket_of (tasks m t) = Some ws \<Longrightarrow>
      current_ws m' = Some ws \<or> socket_of (tasks m' t) = Some ws"
    and "\<And>ws. tearing_down (readers m' ws) \<Longrightarrow> tearing_down (readers m ws) \<or> ws \<notin> set (open_sockets m')"
    and "\<And>ws. readers m' ws \<noteq> NoReader \<Longrightarrow> readers m ws \<noteq> NoReader \<or> ws < next_ws m"
  shows "sockets_ok m'"
  unfolding sockets_ok_def
proof (intro conjI ballI allI impI)
  show "current_ws m' = Some ws \<or> (\<exists>t. socket_of (tasks m' t) = Some ws)" if "ws \<in> set (open_sockets m')" for ws
    using sockets_okD(1) [OF assms(1)] assms(3-5) that by blast
  show "ws \<notin> set (open_sockets m')" if "tearing_down (readers m' ws)" for ws
    using sockets_okD(2) [OF assms(1)] assms(3,6) that by blast
  show "ws < next_ws m'" if "readers m' ws \<noteq> NoReader" for ws
    using sockets_okD(3) [OF assms(1)] assms(2,7) that by auto
qed

text \<open>A task without a socket moves to another state without one.\<close>

lemma sockets_ok_quiet:
  assumes "sockets_ok m" "next_ws m' = next_ws m" "open_sockets m' = open_sockets m" "readers m' = readers m"
    and "current_ws m' = current_ws m" "\<And>t. socket_of (tasks m' t) = socket_of (tasks m t)"
  shows "sockets_ok m'"
  using assms by (simp add: sockets_ok_def)

lemma sockets_ok_conclude:
  "sockets_ok m \<Longrightarrow> socket_of (tasks m t) = None \<Longrightarrow> sockets_ok (conclude t p w r m)"
  by (erule sockets_ok_quiet) auto

lemma sockets_ok_ops:
  assumes "sockets_ok m" "socket_of (tasks m t) = None"
  shows "sockets_ok (start_connect t m)"
    "sockets_ok (start_unsubscribe t sid m)" "sockets_ok (finish t oc m)"
    "sockets_ok (start_enable t m)" "sockets_ok (enable_locked t m)"
    "sockets_ok (call_sent t p ws i m)" "sockets_ok (call_timed_out t p ws i m)"
    "sockets_ok (forget_subscription t wo sid oc m)"
  by (rule sockets_ok_quiet [OF assms(1)];
      auto simp: assms(2) connect_ops other_ops finish_def call_sent_def call_timed_out_def Let_def split: op_splits)+

lemma sockets_ok_readers:
  assumes "sockets_ok m"
  shows "readers m ws = Reading \<Longrightarrow> sockets_ok (receive ws msg m)"
    "readers m ws = Reading \<Longrightarrow> sockets_ok (set_reader ws rd (drop_socket ws m))"
  by (rule sockets_ok_keep [OF assms];
      auto simp: receive_def set_reader_def drop_socket_def sockets_okD [OF assms] split: option.splits pyval.splits if_splits)+

lemma cancel_reader_states:
  "readers (cancel_reader w m) ws = (if ws = w then (case readers m w of
      NoReader \<Rightarrow> NoReader | ReaderDone \<Rightarrow> ReaderDone | TearingDown _ \<Rightarrow> ReaderDone | _ \<Rightarrow> TearingDown None)
    else readers m ws)"
  by (simp add: cancel_reader_def)

lemma release_sockets [simp]: "open_sockets (release_socket w m) = removeAll w (open_sockets m)"
  by (simp add: release_socket_def cancel_reader_def drop_socket_def)

lemma sockets_ok_teardown:
  assumes "sockets_ok m" "tearing_down (readers m ws)"
  shows "sockets_ok (reader_teardown ws cause m)"
  by (rule sockets_ok_keep [OF assms(1)])
    (use assms(2) sockets_okD(2) [OF assms] in \<open>auto simp: reader_teardown_def teardown_connection_def set_reader_def
      split: if_splits option.splits\<close>)

text \<open>No lookup fails, so routing never ends a reader.\<close>

lemma route_readers:
  assumes "tables_ok m"
  obtains rd where "\<not> tearing_down rd" "readers (route ws d m) = (readers m)(ws := rd)"
proof -
  obtain qs where qs: "get_matching_queues ws (get_or d ''collection'' PNone) m = Inr qs" using matching_queues [OF assms] .
  show ?thesis
    by (rule that [of "readers (route ws d m) ws"]; cases "route_message d";
        simp add: qs route_def route_collection_def set_reader_def)
qed

lemma route_update_readers:
  assumes "tables_ok m"
  shows "readers (route_update ws d ns m) = (readers m)(ws := Reading)"
proof -
  obtain qs where "get_matching_queues ws (field (get_or d ''params'' PNone) ''collection'') m = Inr qs"
    using matching_queues [OF assms] .
  then show ?thesis by (simp add: route_update_def set_reader_def)
qed

lemma sockets_ok_routes:
  assumes "sockets_ok m" "tables_ok m"
  shows "readers m ws \<noteq> NoReader \<Longrightarrow> sockets_ok (route ws d m)"
    "readers m ws \<noteq> NoReader \<Longrightarrow> sockets_ok (route_update ws d qs m)"
proof -
  obtain rd where rd: "\<not> tearing_down rd" "readers (route ws d m) = (readers m)(ws := rd)"
    using route_readers [OF assms(2)] .
  show "readers m ws \<noteq> NoReader \<Longrightarrow> sockets_ok (route ws d m)"
    by (rule sockets_ok_keep [OF assms(1)]) (use rd in \<open>auto split: if_splits\<close>)
  show "readers m ws \<noteq> NoReader \<Longrightarrow> sockets_ok (route_update ws d qs m)"
    by (rule sockets_ok_keep [OF assms(1)]) (auto simp: route_update_readers [OF assms(2)] split: if_splits)
qed

text \<open>A task that closes its socket, or hands it to the client.\<close>

lemma sockets_ok_owner:
  assumes "sockets_ok m" "conn_ok m" "socket_of (tasks m t) = Some ws"
  shows "tasks m t = LoggingIn ws i \<Longrightarrow> sockets_ok (connect_logged_in t ws ans m)"
    "tasks m t = SettingOption ws i \<Longrightarrow> sockets_ok (connect_option_set t ws ans m)"
    "sockets_ok (connect_cleaned_up t ws x c m)" "sockets_ok (call_closed t p ws i err c m)"
    "tasks m t = Closing ws \<Longrightarrow> sockets_ok (close_done t ws m)"
    "sockets_ok (close_cancelled t ws m)" "sockets_ok (close_finished t ws oc m)"
proof -
  note D = sockets_okD [OF assms(1)] conn_okD(7) [OF assms(2,3)]
  have moved: "sockets_ok (goto t s m')" if "socket_of s = Some ws" "open_sockets m' = open_sockets m"
      "readers m' = readers m" "current_ws m' = current_ws m" "next_ws m' = next_ws m" "tasks m' = tasks m" for s m'
    by (rule sockets_ok_quiet [OF assms(1)]) (use that assms(3) in auto)
  have attach: "sockets_ok (attach t ws m')" if "open_sockets m' = open_sockets m" "readers m' = readers m"
      "current_ws m = None" "next_ws m' = next_ws m" "tasks m' = tasks m" for m'
    by (rule sockets_ok_keep [OF assms(1)])
      (use that D(4) assms(3) in \<open>auto simp: attach_def finish_def Let_def split: if_splits\<close>)
  show "tasks m t = LoggingIn ws i \<Longrightarrow> sockets_ok (connect_logged_in t ws ans m)"
    "tasks m t = SettingOption ws i \<Longrightarrow> sockets_ok (connect_option_set t ws ans m)"
    using conn_okD(1) [OF assms(2), of t]
    by (auto simp: connect_logged_in_def connect_option_set_def send_before_reader_def intro!: moved attach split: sum.split)
  show "tasks m t = Closing ws \<Longrightarrow> sockets_ok (close_done t ws m)"
    by (auto simp: close_done_def intro: moved)
  show "sockets_ok (connect_cleaned_up t ws x c m)"
    by (rule sockets_ok_keep [OF assms(1)])
      (use assms(3) in \<open>auto simp: connect_cleaned_up_def finish_def drop_socket_def split: if_splits\<close>)
  have dropped: "sockets_ok m'"
    if m': "open_sockets m' = removeAll ws (open_sockets m)" "readers m' = readers (release_socket ws m)"
      "current_ws m' = current_ws m" "next_ws m' = next_ws m"
      "\<And>t'. t' \<noteq> t \<Longrightarrow> socket_of (tasks m' t') = socket_of (tasks m t')" for m'
  proof (rule sockets_ok_keep [OF assms(1)])
    show "current_ws m' = Some w \<or> socket_of (tasks m' t') = Some w"
      if "w \<in> set (open_sockets m')" "socket_of (tasks m t') = Some w" for w t'
      using that m'(1,5) assms(3) by (cases "t' = t") auto
  qed (auto simp: m'(1-4) cancel_reader_states split: if_splits reader.splits)
  show "sockets_ok (call_closed t p ws i err c m)" "sockets_ok (close_cancelled t ws m)" "sockets_ok (close_finished t ws oc m)"
    by (rule dropped; simp add: call_closed_def close_cancelled_def close_finished_def finish_def)+
qed

lemma sockets_ok_opened:
  assumes "sockets_ok m" "socket_of (tasks m t) = None"
  shows "sockets_ok (connect_opened t a b m)"
proof -
  have "readers m (next_ws m) = NoReader" using sockets_okD(3) [OF assms(1), of "next_ws m"] by auto
  then show ?thesis
    using assms sockets_okD [OF assms(1)]
    by (auto simp: sockets_ok_def connect_opened_def send_before_reader_def finish_def Let_def split: sum.split)
      (metis less_SucI option.distinct(1) | force)+
qed

lemma sockets_ok_release:
  "sockets_ok m \<Longrightarrow> sockets_ok (release_socket w m)"
  by (erule sockets_ok_keep) (auto simp: cancel_reader_states split: if_splits reader.splits)

lemma sockets_ok_calls:
  assumes "sockets_ok m" "socket_of (tasks m t) = None"
  shows "sockets_ok (send_failed t p ws i msg m)" "sockets_ok (send_raised t p ws i er m)"
    "sockets_ok (call_cancelled t p ws i m)" "sockets_ok (close_timed_out t p ws i m)"
    "sockets_ok (timeout_cancelled t p ws i m)" "sockets_ok (conclude t p ws r (unregister_call i m))"
    "sockets_ok (begin_call t p m)" "sockets_ok (start_subscribe t ev m)" "sockets_ok (start_close t m)"
proof -
  have keep: "sockets_ok m'" if "open_sockets m' = open_sockets m" "readers m' = readers m" "next_ws m' = next_ws m"
      "current_ws m' = current_ws m \<or> (current_ws m \<noteq> None \<and> socket_of (tasks m' t) = current_ws m)"
      "\<And>t'. t' \<noteq> t \<Longrightarrow> socket_of (tasks m' t') = socket_of (tasks m t')" for m'
  proof (rule sockets_ok_keep [OF assms(1)])
    show "current_ws m' = Some w \<or> socket_of (tasks m' t') = Some w"
      if "w \<in> set (open_sockets m')" "socket_of (tasks m t') = Some w" for w t'
      using that \<open>\<And>t'. t' \<noteq> t \<Longrightarrow> socket_of (tasks m' t') = socket_of (tasks m t')\<close> assms(2) by (cases "t' = t") auto
  qed (use that in auto)
  show "sockets_ok (send_failed t p ws i msg m)" "sockets_ok (send_raised t p ws i er m)"
    "sockets_ok (call_cancelled t p ws i m)" "sockets_ok (close_timed_out t p ws i m)"
    "sockets_ok (conclude t p ws r (unregister_call i m))"
    "sockets_ok (begin_call t p m)" "sockets_ok (start_subscribe t ev m)" "sockets_ok (start_close t m)"
    by (rule keep; auto simp: send_failed_def send_raised_def call_cancelled_def close_timed_out_def
        call_failed_locked_def begin_call_def start_subscribe_def start_close_def register_call_def finish_def Let_def
        split: option.split)+
  have "sockets_ok (release_socket ws (detach_connection_locked (closed_after p) m))" if "current_ws m = Some ws"
    by (rule sockets_ok_keep [OF assms(1)]) (use that in \<open>auto simp: cancel_reader_states split: if_splits reader.splits\<close>)
  moreover have "sockets_ok (unregister_call i m') = sockets_ok m'" for m' by (simp add: sockets_ok_def)
  ultimately show "sockets_ok (timeout_cancelled t p ws i m)"
    using assms by (auto simp: timeout_cancelled_def intro!: sockets_ok_conclude)
qed

lemma sockets_ok_step:
  assumes "client_step m e m'" "no_crash m e" "conn_ok m" "tables_ok m" "sockets_ok m"
  shows "sockets_ok m'"
  using assms
  by (induction rule: client_step.induct)
    (auto simp: no_crash_def sockets_ok_ops sockets_ok_owner sockets_ok_calls sockets_ok_opened sockets_ok_readers
      sockets_ok_routes sockets_ok_teardown sockets_ok_conclude elim!: call_answeredE)

interpretation sockets: client_invariant no_crash "\<lambda>m. core_ok m \<and> subs_ok m" sockets_ok
proof unfold_locales
  show "sockets_ok init_machine" by (simp add: sockets_ok_def init_machine_def)
  show "client_reachable no_crash m \<Longrightarrow> core_ok m \<and> subs_ok m" for m
    using core.holds subs.holds by blast
qed (auto simp: core_ok_def subs_ok_def intro: sockets_ok_step)

text \<open>
  C11: no socket leaks, as long as the reader ends by losing its connection: every open socket is
  that of the current connection, or a running operation holds it and closes it when it ends.
\<close>

theorem open_socket_owned:
  assumes "client_reachable no_crash m" "ws \<in> set (open_sockets m)"
  shows "current_ws m = Some ws \<or> (\<exists>t. socket_of (tasks m t) = Some ws)"
  using sockets_okD(1) [OF sockets.holds [OF assms(1)] assms(2)] .

lemma open_socket_owned_witness:
  "current_ws (run no_crash (calling @ [Timeout 1, TimeoutLock 1])) = Some 0
    \<or> (\<exists>t. socket_of (tasks (run no_crash (calling @ [Timeout 1, TimeoutLock 1])) t) = Some 0)"
  by (rule open_socket_owned [OF client_run_reachable]) code_simp

section \<open>A reader that crashes\<close>






text \<open>A socket without a task, of a reader that no longer reads: nobody closes it on his own.\<close>

fun reads_no_more :: "reader \<Rightarrow> bool" where
  "reads_no_more (TearingDown cause) = True"
| "reads_no_more ReaderDone = True"
| "reads_no_more _ = False"

definition unattended :: "conn \<Rightarrow> machine \<Rightarrow> bool" where
  "unattended ws m \<longleftrightarrow> ws \<in> set (open_sockets m) \<and> reads_no_more (readers m ws) \<and> ws < next_ws m
     \<and> (\<forall>t. socket_of (tasks m t) \<noteq> Some ws)"

text \<open>A step leaves it so, unless it closes the connection it belongs to.\<close>

lemma reads_no_more_cancel [simp]: "reads_no_more (readers m ws) \<Longrightarrow> reads_no_more (readers (cancel_reader w m) ws)"
  by (auto simp: cancel_reader_states split: reader.splits)

lemma reads_no_more_release [simp]: "reads_no_more (readers m ws) \<Longrightarrow> reads_no_more (readers (release_socket w m) ws)"
  by (simp add: release_socket_def drop_socket_def)



lemma other_readers [simp]:
  "ws \<noteq> w \<Longrightarrow> readers (receive w msg m) ws = readers m ws"
  "ws \<noteq> w \<Longrightarrow> readers (route w d m) ws = readers m ws"
  "ws \<noteq> w \<Longrightarrow> readers (route_update w d qs m) ws = readers m ws"
  "ws \<noteq> w \<Longrightarrow> readers (set_reader w rd m) ws = readers m ws"
  "readers (reader_teardown w cause m) = (readers m)(w := ReaderDone)"
  by (auto simp: receive_def route_def route_collection_def route_update_def reader_teardown_def set_reader_def
      split: op_splits pyval.splits route_kind.splits)





lemma unattended_simps [simp]:
  "unattended ws (unregister_call i m) = unattended ws m" "unattended ws (release m) = unattended ws m"
  by (simp_all add: unattended_def)













end
