(* ===== verification/ClientJobs.thy ===== *)
theory ClientJobs
  imports ClientRun
begin

text \<open>
  Waiting for a job, and reading the queue of a subscription: the loops of \<open>_wait_for_job\<close> and
  \<open>get_subscription_events\<close> against what they are meant to compute.
\<close>

section \<open>Waiting for a job\<close>

definition no_job :: "py_exn + pyval \<Rightarrow> bool" where
  "no_job answer = (case answer of Inl e \<Rightarrow> False | Inr jobs \<Rightarrow> \<not> truthy jobs)"

definition job_runs :: "py_exn + pyval \<Rightarrow> bool" where
  "job_runs answer = (case answer of Inl e \<Rightarrow> False
     | Inr jobs \<Rightarrow> truthy jobs \<and> (case job_state jobs of Inl e \<Rightarrow> False | Inr (job, state, terminal) \<Rightarrow> \<not> terminal))"

definition missing_run :: "(py_exn + pyval) list \<Rightarrow> bool" where
  "missing_run answers \<longleftrightarrow> (\<exists>xs ys zs. answers = xs @ ys @ zs \<and> length ys = JOB_MISSING_RETRY_LIMIT \<and> list_all no_job ys)"

lemma no_job_runs: "job_runs a \<Longrightarrow> \<not> no_job a"
  by (auto simp: job_runs_def no_job_def split: sum.splits)

text \<open>A run of missing lookups starts at the front or later.\<close>

lemma missing_run_Cons:
  "missing_run (a # answers) \<longleftrightarrow>
     list_all no_job (take JOB_MISSING_RETRY_LIMIT (a # answers)) \<and> JOB_MISSING_RETRY_LIMIT \<le> length (a # answers)
     \<or> missing_run answers"
proof
  assume "missing_run (a # answers)"
  then obtain xs ys zs where "a # answers = xs @ ys @ zs" "length ys = JOB_MISSING_RETRY_LIMIT" "list_all no_job ys"
    by (auto simp: missing_run_def)
  then show "list_all no_job (take JOB_MISSING_RETRY_LIMIT (a # answers)) \<and> JOB_MISSING_RETRY_LIMIT \<le> length (a # answers)
     \<or> missing_run answers"
    by (cases xs) (auto simp: missing_run_def)
next
  assume *: "list_all no_job (take JOB_MISSING_RETRY_LIMIT (a # answers)) \<and> JOB_MISSING_RETRY_LIMIT \<le> length (a # answers)
     \<or> missing_run answers"
  then show "missing_run (a # answers)"
  proof
    assume "list_all no_job (take JOB_MISSING_RETRY_LIMIT (a # answers)) \<and> JOB_MISSING_RETRY_LIMIT \<le> length (a # answers)"
    then show ?thesis
      unfolding missing_run_def
      by (intro exI [of _ "[]"] exI [of _ "take JOB_MISSING_RETRY_LIMIT (a # answers)"]
          exI [of _ "drop JOB_MISSING_RETRY_LIMIT (a # answers)"]) simp
  next
    assume "missing_run answers"
    then show ?thesis unfolding missing_run_def by (metis append_Cons)
  qed
qed

lemma missing_run_skip:
  "\<not> no_job a \<Longrightarrow> c < JOB_MISSING_RETRY_LIMIT \<Longrightarrow> list_all no_job pre \<Longrightarrow> length pre = c \<Longrightarrow>
    missing_run (pre @ a # answers) \<longleftrightarrow> missing_run answers"
proof (induction pre arbitrary: c)
  case Nil
  then show ?case by (simp add: missing_run_Cons JOB_MISSING_RETRY_LIMIT_def)
next
  case (Cons p pre)
  have "\<not> list_all no_job (take JOB_MISSING_RETRY_LIMIT (p # pre @ a # answers))"
    using Cons.prems by (auto simp: list_all_iff in_set_conv_nth set_take_disj_set_drop_if_distinct take_Cons' take_append)
  then show ?case using Cons.IH [of "c - 1"] Cons.prems by (simp add: missing_run_Cons)
qed

lemma poll_job_spec:
  "c < JOB_MISSING_RETRY_LIMIT \<Longrightarrow> list_all no_job pre \<Longrightarrow> length pre = c \<Longrightarrow>
    poll_job i c answers = None \<longleftrightarrow>
      list_all (\<lambda>a. no_job a \<or> job_runs a) answers \<and> \<not> missing_run (pre @ answers)"
proof (induction answers arbitrary: c pre)
  case Nil
  have "\<not> missing_run pre" using Nil.prems by (auto simp: missing_run_def)
  then show ?case by simp
next
  case (Cons a answers)
  show ?case
  proof (cases a)
    case (Inl e)
    then show ?thesis by (simp add: no_job_def job_runs_def)
  next
    case (Inr jobs)
    show ?thesis
    proof (cases "truthy jobs")
      case False
      then have a: "no_job a" by (simp add: Inr no_job_def)
      show ?thesis
      proof (cases "JOB_MISSING_RETRY_LIMIT \<le> c + 1")
        case True
        have "missing_run (pre @ a # answers)"
          unfolding missing_run_def using True Cons.prems a
          by (intro exI [of _ "[]"] exI [of _ "pre @ [a]"] exI [of _ answers]) (simp add: le_antisym)
        then show ?thesis using False True Inr by simp
      next
        case more: False
        then show ?thesis
          using Cons.IH [of "c + 1" "pre @ [a]"] Cons.prems a False Inr by simp
      qed
    next
      case True
      then have a: "\<not> no_job a" by (simp add: Inr no_job_def)
      have skip: "missing_run (pre @ a # answers) \<longleftrightarrow> missing_run answers"
        using missing_run_skip [OF a] Cons.prems by blast
      show ?thesis
        using True a skip Cons.IH [of 0 "[]"] Inr
        by (auto simp: job_runs_def JOB_MISSING_RETRY_LIMIT_def split: sum.split)
    qed
  qed
qed

text \<open>
  C21: waiting for a job ends exactly when it should: it still polls after these answers if and only
  if each of them is an empty lookup or a job that still runs, and no five empty lookups came in
  a row.
\<close>

theorem job_wait_ends:
  "wait_for_job (PInt i) answers = None \<longleftrightarrow>
     list_all (\<lambda>a. no_job a \<or> job_runs a) answers \<and> \<not> missing_run answers"
  using poll_job_spec [of 0 "[]" i answers] by (simp add: wait_for_job_def JOB_MISSING_RETRY_LIMIT_def)

lemma poll_job_append:
  "poll_job i c pre = None \<Longrightarrow> \<exists>c'. poll_job i c (pre @ rest) = poll_job i c' rest"
proof (induction i c pre rule: poll_job.induct)
  case (3 i c jobs answers)
  then show ?case by (auto split: if_splits sum.splits)
qed auto

lemma poll_decides:
  assumes "job_state jobs = Inr (job, state, True)" "truthy jobs"
  shows "poll_job i c (Inr jobs # rest) = Some (resolve_job_result i job state)"
  using assms by simp

text \<open>
  C27: however many lookups came before, the first job in a terminal state gives the outcome: the
  result of the job if it succeeded, and otherwise a \<open>TrueNASCallError\<close> or a more specific call
  error; what the server would answer next is not asked for.
\<close>

theorem job_wait_outcome:
  assumes "wait_for_job (PInt i) pre = None" "truthy jobs" "job_state jobs = Inr (job, state, True)"
  shows "wait_for_job (PInt i) (pre @ Inr jobs # rest) =
      Some (if state = PStr ''SUCCESS'' then Inr (get_or job ''result'' PNone)
        else Inl (TrueNAS (build_call_error (PDict [(PStr ''message'', py_or (get_or job ''error'' PNone)
          (PStr (''job '' @ py_str (PInt i) @ '' ended with state '' @ py_str state)))]))))
    \<and> state \<in> set (map PStr JOB_TERMINAL_STATES)"
proof -
  have "state \<in> set (map PStr JOB_TERMINAL_STATES)"
    using assms(3) by (auto simp: job_state_def res_bind_def Let_def split: sum.splits pyval.splits if_splits)
  moreover have "poll_job i 0 pre = None" using assms(1) by (simp add: wait_for_job_def)
  then obtain c where "poll_job i 0 (pre @ Inr jobs # rest) = poll_job i c (Inr jobs # rest)"
    using poll_job_append by blast
  ultimately show ?thesis
    using poll_decides [OF assms(3,2)] by (simp add: wait_for_job_def resolve_job_result_def)
qed

lemma job_wait_outcome_witness:
  "wait_for_job (PInt 7) ([Inr (PList []), Inr (PList [PDict [(PStr ''state'', PStr ''RUNNING'')]])]
      @ Inr (PList [PDict [(PStr ''state'', PStr ''SUCCESS''), (PStr ''result'', PInt 42)]]) # []) =
    Some (if PStr ''SUCCESS'' = PStr ''SUCCESS''
      then Inr (get_or [(PStr ''state'', PStr ''SUCCESS''), (PStr ''result'', PInt 42)] ''result'' PNone)
      else Inl (TrueNAS (build_call_error (PDict [(PStr ''message'',
        py_or (get_or [(PStr ''state'', PStr ''SUCCESS''), (PStr ''result'', PInt 42)] ''error'' PNone)
          (PStr (''job '' @ py_str (PInt 7) @ '' ended with state '' @ py_str (PStr ''SUCCESS''))))]))))
    \<and> PStr ''SUCCESS'' \<in> set (map PStr JOB_TERMINAL_STATES)"
proof (rule job_wait_outcome)
  show "wait_for_job (PInt 7) [Inr (PList []), Inr (PList [PDict [(PStr ''state'', PStr ''RUNNING'')]])] = None"
    by code_simp
  show "truthy (PList [PDict [(PStr ''state'', PStr ''SUCCESS''), (PStr ''result'', PInt 42)]])" by code_simp
  show "job_state (PList [PDict [(PStr ''state'', PStr ''SUCCESS''), (PStr ''result'', PInt 42)]]) =
      Inr ([(PStr ''state'', PStr ''SUCCESS''), (PStr ''result'', PInt 42)], PStr ''SUCCESS'', True)"
    by code_simp
qed

section \<open>Reading a subscription\<close>

fun events_of :: "queue_item list \<Rightarrow> pydict list" where
  "events_of [] = []"
| "events_of (Notification d # xs) = d # events_of xs"
| "events_of (SUBSCRIPTION_TERMINATOR # xs) = events_of xs"

definition before_end :: "queue_item list \<Rightarrow> queue_item list" where
  "before_end xs = takeWhile (\<lambda>x. x \<noteq> SUBSCRIPTION_TERMINATOR) xs"

definition after_end :: "queue_item list \<Rightarrow> queue_item list" where
  "after_end xs = drop 1 (dropWhile (\<lambda>x. x \<noteq> SUBSCRIPTION_TERMINATOR) xs)"

lemma drain_events_spec: "drain_events xs = (events_of (before_end xs), after_end xs)"
  by (induction xs rule: drain_events.induct) (auto simp: before_end_def after_end_def)

text \<open>
  C26: reading the events of a tracked subscription gives every notification that is queued before
  its terminator, in the order they arrived, and takes the terminator with them; with a timeout
  (when the queue is read at its first item, or still empty) it gives the same as without one.
\<close>

theorem events_read_in_order:
  assumes "is_subscribed sid c"
  shows "get_subscription_events sid timed arrived c = Inr (events_of (before_end arrived), after_end arrived)"
proof (cases timed)
  case False
  with assms show ?thesis by (simp add: get_subscription_events_def is_subscribed_def drain_events_spec)
next
  case True
  with assms show ?thesis
    by (cases arrived rule: drain_events.cases)
      (auto simp: get_subscription_events_def is_subscribed_def drain_events_spec before_end_def after_end_def)
qed

lemma events_read_in_order_witness:
  "get_subscription_events ''s1'' True [Notification [], SUBSCRIPTION_TERMINATOR, Notification []]
      (init_machine\<lparr>subscriptions := [(''s1'', 0)]\<rparr>)
    = Inr (events_of (before_end [Notification [], SUBSCRIPTION_TERMINATOR, Notification []]),
        after_end [Notification [], SUBSCRIPTION_TERMINATOR, Notification []])"
  by (rule events_read_in_order) code_simp

end
