(* ===== verification/ClientSession.thy ===== *)
theory ClientSession
  imports ClientSubs
begin

text \<open>
  The client as its user may think of it: a session that is linked or not, the calls that are open
  on the link and the subscribed topics; and that every step of the client is such a session's.
\<close>

section \<open>The abstract session\<close>

record session =
  link :: "conn option"
  opened :: conn
  ids :: int
  open_calls :: "int set"
  topics :: "string set"

inductive session_step :: "session \<Rightarrow> session \<Rightarrow> bool" where
  dial: "session_step s (s\<lparr>opened := opened s + 1, ids := ids s + 1\<rparr>)"
| skip_id: "session_step s (s\<lparr>ids := ids s + 1\<rparr>)"
| link_up: "link s = None \<Longrightarrow> ws < opened s \<Longrightarrow> session_step s (s\<lparr>link := Some ws\<rparr>)"
| issue: "link s \<noteq> None \<Longrightarrow> session_step s (s\<lparr>ids := ids s + 1, open_calls := insert (ids s) (open_calls s)\<rparr>)"
| settle: "i \<in> open_calls s \<Longrightarrow> session_step s (s\<lparr>open_calls := open_calls s - {i}\<rparr>)"
| track: "link s \<noteq> None \<Longrightarrow> session_step s (s\<lparr>topics := insert sid (topics s)\<rparr>)"
| untrack: "sid \<in> topics s \<Longrightarrow> session_step s (s\<lparr>topics := topics s - {sid}\<rparr>)"
| link_down: "link s \<noteq> None \<Longrightarrow> session_step s (s\<lparr>link := None, open_calls := {}, topics := {}\<rparr>)"

text \<open>What the session promises: without a link there is no call and no topic, and ids are new.\<close>

lemma session_promise:
  "session_step\<^sup>*\<^sup>* \<lparr>link = None, opened = 0, ids = 1, open_calls = {}, topics = {}\<rparr> s \<Longrightarrow>
    (link s = None \<longrightarrow> open_calls s = {} \<and> topics s = {}) \<and> (\<forall>i \<in> open_calls s. i < ids s)
    \<and> (\<forall>ws. link s = Some ws \<longrightarrow> ws < opened s)"
proof (induction rule: rtranclp_induct)
  case (step s s')
  from step.hyps(2) step.IH show ?case by cases force+
qed simp

definition session_of :: "machine \<Rightarrow> session" where
  "session_of m = \<lparr>link = current_ws m, opened = next_ws m, ids = next_id_value m,
     open_calls = set (pending_calls m), topics = dom (map_of (subscriptions m))\<rparr>"

definition advances :: "machine \<Rightarrow> machine \<Rightarrow> bool" where
  "advances m m' \<longleftrightarrow> session_step\<^sup>*\<^sup>* (session_of m) (session_of m')"

lemma advances_refl [simp, intro]: "advances m m" by (simp add: advances_def)

lemma advances_then: "advances m m1 \<Longrightarrow> session_step (session_of m1) (session_of m2) \<Longrightarrow> advances m m2"
  unfolding advances_def by (rule rtranclp.rtrancl_into_rtrancl)

lemma advances_same:
  assumes "current_ws m2 = current_ws m1" "next_ws m2 = next_ws m1" "next_id_value m2 = next_id_value m1"
    "pending_calls m2 = pending_calls m1" "subscriptions m2 = subscriptions m1"
  shows "advances m m2 = advances m m1"
  by (simp add: advances_def session_of_def assms)

lemma advances_pieces [simp]:
  "advances m (goto t s m1) = advances m m1" "advances m (acquire t m1) = advances m m1"
  "advances m (release m1) = advances m m1" "advances m (drop_socket w m1) = advances m m1"
  "advances m (release_socket w m1) = advances m m1" "advances m (cancel_future i m1) = advances m m1"
  "advances m (set_future i f m1) = advances m m1" "advances m (set_reader w rd m1) = advances m m1"
  "advances m (queue_put q x m1) = advances m m1" "advances m (deliver qs d m1) = advances m m1"
  "advances m (deliver_new ns qs d m1) = advances m m1" "advances m (receive w msg m1) = advances m m1"
  "advances m (option_reply d m1) = advances m m1" "advances m (finish t oc m1) = advances m m1"
  "advances m (m1\<lparr>next_queue := q\<rparr>) = advances m m1" "advances m (m1\<lparr>private_lock := l\<rparr>) = advances m m1"
  "advances m (m1\<lparr>private_methods := b\<rparr>) = advances m m1"
  by (rule advances_same; simp add: finish_def)+

lemma advances_skip: "advances m m1 \<Longrightarrow> advances m (m1\<lparr>next_id_value := next_id_value m1 + 1\<rparr>)"
  by (erule advances_then) (use session_step.skip_id [of "session_of m1"] in \<open>simp add: session_of_def\<close>)

lemma advances_unregister: "advances m m1 \<Longrightarrow> advances m (unregister_call i m1)"
proof -
  assume m1: "advances m m1"
  show ?thesis
  proof (cases "i \<in> set (pending_calls m1)")
    case True
    then show ?thesis
      by (intro advances_then [OF m1]) (use session_step.settle [of i "session_of m1"] in \<open>simp add: session_of_def\<close>)
  qed (subst advances_same [where ?m1.0 = m1]; simp add: m1 removeAll_id)
qed

lemma advances_detach: "advances m m1 \<Longrightarrow> current_ws m1 \<noteq> None \<Longrightarrow> advances m (detach_connection_locked x m1)"
  by (erule advances_then) (use session_step.link_down [of "session_of m1"] in \<open>simp add: session_of_def\<close>)

lemma advances_remove:
  "advances m m1 \<Longrightarrow> advances m (m1\<lparr>subscriptions := AList.delete sid (subscriptions m1),
     subscription_events := AList.delete sid (subscription_events m1)\<rparr>)"
proof -
  assume m1: "advances m m1"
  let ?m2 = "m1\<lparr>subscriptions := AList.delete sid (subscriptions m1),
     subscription_events := AList.delete sid (subscription_events m1)\<rparr>"
  show "advances m ?m2"
  proof (cases "sid \<in> dom (map_of (subscriptions m1))")
    case True
    then show ?thesis
      by (intro advances_then [OF m1])
        (use session_step.untrack [of sid "session_of m1"] in \<open>simp add: session_of_def delete_conv'\<close>)
  next
    case False
    then have "session_of ?m2 = session_of m1" by (simp add: session_of_def delete_conv')
    with m1 show ?thesis by (simp add: advances_def)
  qed
qed

lemma advances_conclude: "advances m m1 \<Longrightarrow> advances m (conclude t p w r m1)"
proof -
  assume m1: "advances m m1"
  from conclude_subscriptions [of t p w r m1] consider
      "subscriptions (conclude t p w r m1) = subscriptions m1"
    | sid where "subscriptions (conclude t p w r m1) = AList.delete sid (subscriptions m1)" by blast
  then show ?thesis
  proof cases
    case 1
    with m1 show ?thesis by (subst advances_same [where ?m1.0 = m1]) simp_all
  next
    case (2 sid)
    with advances_remove [OF m1, of sid] show ?thesis
      by (subst advances_same [where ?m1.0 = "m1\<lparr>subscriptions := AList.delete sid (subscriptions m1),
            subscription_events := AList.delete sid (subscription_events m1)\<rparr>"]) simp_all
  qed
qed

section \<open>The operations\<close>

lemma advances_connects:
  "advances m (start_connect t m)" "advances m (connect_opened t a b m)" "advances m (connect_cleaned_up t ws x c m)"
  "current_ws m = None \<Longrightarrow> ws < next_ws m \<Longrightarrow> advances m (connect_logged_in t ws ans m)"
  "current_ws m = None \<Longrightarrow> ws < next_ws m \<Longrightarrow> advances m (connect_option_set t ws ans m)"
proof -
  show "advances m (start_connect t m)" "advances m (connect_cleaned_up t ws x c m)"
    by (simp_all add: start_connect_def connect_cleaned_up_def)
  have "advances m (m\<lparr>next_ws := next_ws m + 1, open_sockets := os, next_id_value := next_id_value m + 1\<rparr>)" for os
    by (rule advances_then [OF advances_refl]) (use session_step.dial [of "session_of m"] in \<open>simp add: session_of_def\<close>)
  then show "advances m (connect_opened t a b m)"
    by (auto simp: connect_opened_def send_before_reader_def Let_def split: sum.split)
  have attach: "advances m (attach t ws m1)" if "session_of m1 = session_of m" "current_ws m = None" "ws < next_ws m" for m1
    by (rule advances_then [OF advances_refl])
      (use session_step.link_up [of "session_of m1" ws] that in \<open>auto simp: session_of_def attach_def finish_def Let_def\<close>)
  show "current_ws m = None \<Longrightarrow> ws < next_ws m \<Longrightarrow> advances m (connect_logged_in t ws ans m)"
    by (auto simp: connect_logged_in_def send_before_reader_def intro!: attach advances_skip split: sum.split)
  show "current_ws m = None \<Longrightarrow> ws < next_ws m \<Longrightarrow> advances m (connect_option_set t ws ans m)"
    by (auto simp: connect_option_set_def session_of_def intro!: attach split: sum.split)
qed

lemma advances_begin: "advances m m1 \<Longrightarrow> advances m (begin_call t p m1)"
proof -
  assume m1: "advances m m1"
  have "advances m (snd (register_call h m1))" if "current_ws m1 \<noteq> None" for h
    by (rule advances_then [OF m1])
      (use session_step.issue [of "session_of m1"] that in \<open>simp add: session_of_def register_call_def Let_def\<close>)
  then show ?thesis
    using m1 by (auto simp: begin_call_def register_call_def Let_def intro!: advances_conclude advances_skip split: option.split)
qed

lemma advances_calls:
  "advances m (call_sent t p ws i m)" "advances m (send_failed t p ws i msg m)" "advances m (send_raised t p ws i er m)"
  "advances m (call_cancelled t p ws i m)" "advances m (call_timed_out t p ws i m)"
  "advances m (close_timed_out t p ws i m)" "advances m (timeout_cancelled t p ws i m)"
  "advances m (call_closed t p ws i err c m)" "advances m (conclude t p ws r (unregister_call i m))"
  by (auto simp: call_sent_def send_failed_def send_raised_def call_cancelled_def call_timed_out_def close_timed_out_def
      call_failed_locked_def timeout_cancelled_def call_closed_def
      intro!: advances_conclude advances_unregister advances_detach)

lemma advances_others:
  "advances m (start_subscribe t ev m)" "advances m (start_unsubscribe t sid m)"
  "advances m (forget_subscription t wo sid oc m)" "advances m (start_enable t m)" "advances m (enable_locked t m)"
  "advances m (start_close t m)" "advances m (close_done t ws m)" "advances m (close_cancelled t ws m)"
  "advances m (close_finished t ws oc m)" "advances m (reader_teardown ws cause m)"
  by (auto simp: start_subscribe_def other_ops reader_teardown_def teardown_connection_def Let_def
      intro!: advances_begin advances_remove advances_detach split: option.split)

lemma advances_routes: "advances m (route ws d m)" "advances m (route_update ws d qs m)"
proof -
  have track: "advances m (register_subscription q ev d m1)" if "advances m m1" "current_ws m1 \<noteq> None" for m1 q ev
  proof (cases "get_or d ''result'' PNone")
    case (PStr sid)
    then show ?thesis
      by (intro advances_then [OF that(1)])
        (use session_step.track [of "session_of m1" sid] that(2) in
          \<open>simp add: session_of_def register_subscription_def update_conv'\<close>)
  qed (simp_all add: register_subscription_def that(1))
  have "advances m (handle_rpc_response ws i d m)" for i
    by (auto simp: handle_rpc_response_def Let_def intro!: track advances_unregister split: option.split)
  moreover have "advances m (handle_subscription_notification ws sid d m)" for sid
    by (auto simp: handle_subscription_notification_def split: option.split)
  ultimately show "advances m (route ws d m)"
    by (auto simp: route_def route_collection_def split: route_kind.split sum.split)
  show "advances m (route_update ws d qs m)" by (auto simp: route_update_def split: sum.split)
qed

lemma advances_logins:
  assumes "conn_ok m"
  shows "tasks m t = LoggingIn ws i \<Longrightarrow> advances m (connect_logged_in t ws ans m)"
    "tasks m t = SettingOption ws i \<Longrightarrow> advances m (connect_option_set t ws ans m)"
  using conn_okD(1,7) [OF assms, of t] by (simp_all add: advances_connects)

lemma advances_step:
  assumes "client_step m e m'" "conn_ok m"
  shows "advances m m'"
  using assms
  by (induction rule: client_step.induct)
    (auto simp: advances_connects advances_logins advances_begin advances_calls advances_others advances_routes
      advances_conclude elim!: call_answeredE)

text \<open>
  C5: the client refines the session: whatever a step of a task or of a reader does to its tables is a
  sequence of session steps, so calls are issued and topics tracked only on a link, ids are used in
  order, and a link that goes down takes every open call and every topic with it.
\<close>

theorem client_refines_session:
  assumes "client_reachable allowed m" "client_step m e m'"
  shows "session_step\<^sup>*\<^sup>* (session_of m) (session_of m')"
  using advances_step [OF assms(2) core_okD(2) [OF assms(1)]] by (simp add: advances_def)

lemma client_refines_session_witness:
  "session_step\<^sup>*\<^sup>* (session_of (run (\<lambda>_ _. True) (calling @ [hd (replying 2 PNone)])))
     (session_of (run (\<lambda>_ _. True) ((calling @ [hd (replying 2 PNone)]) @ [Route 0])))"
proof (rule client_refines_session [OF client_run_reachable run_step])
  show "possible (\<lambda>_ _. True) ((calling @ [hd (replying 2 PNone)]) @ [Route 0])" by code_simp
qed

end
