(* ===== verification/SystemApi.thy ===== *)
theory SystemApi
  imports Helpers PyTime Exceptions
begin

text \<open>
  The typed readers of \<open>system.py\<close> and the snapshots of \<open>models.py\<close>.  A finite \<open>float\<close> is given by
  its value, a \<open>datetime\<close> by its microseconds.  A reader takes the client as the function from
  method and parameters to the outcome of \<open>call\<close>; it issues each request at most once.  The note
  that names the graph of a raised error is returned beside the error.
\<close>

section \<open>Snapshots\<close>

record system_info =
  si_hostname :: "string option"
  si_version :: "string option"
  si_manufacturer :: "string option"
  si_product :: "string option"
  si_serial :: "string option"
  si_physical_memory :: "int option"
  si_boot_time :: "int option"
  si_uptime_seconds :: "rat option"
  si_load_1m :: "rat option"
  si_load_5m :: "rat option"
  si_load_15m :: "rat option"
  si_is_virtual :: "bool option"

record network_interface =
  ni_id :: string
  ni_name :: "string option"
  ni_description :: "string option"
  ni_mtu :: "int option"
  ni_link_state :: "string option"
  ni_link_up :: "bool option"
  ni_active_media_type :: "string option"
  ni_active_media_subtype :: "string option"
  ni_link_address :: "string option"

record interface_traffic =
  rx_kbps :: "rat option"
  tx_kbps :: "rat option"

record system_stats =
  ss_cpu_usage_percent :: "rat option"
  ss_cpu_temperature :: "rat option"
  ss_memory_available :: "int option"
  ss_memory_usage_percent :: "rat option"
  ss_arc_size :: "int option"
  ss_interfaces :: "(pyval \<times> interface_traffic) list"
  ss_failed_graphs :: "(string \<times> truenas_error) list"

section \<open>Fields\<close>

definition malformed :: "string \<Rightarrow> string \<Rightarrow> truenas_error" where
  "malformed method detail =
     TrueNASMalformedResponseError (''Malformed '' @ CHR 0x27 # method @ CHR 0x27 # '' response: '' @ detail)"

definition optional_str :: "pyval \<Rightarrow> string option" where
  "optional_str v = (case v of PStr s \<Rightarrow> if strip s \<noteq> [] then Some s else None | _ \<Rightarrow> None)"

text \<open>\<open>_finite_float\<close>: an int beyond the range of \<open>float\<close> is none.\<close>

definition optional_float :: "pyval \<Rightarrow> rat option" where
  "optional_float v =
     (case as_num v of
        None \<Rightarrow> None
      | Some n \<Rightarrow> (case num_float n of Inr (Fin q) \<Rightarrow> Some q | _ \<Rightarrow> None))"

definition optional_count :: "pyval \<Rightarrow> int option" where
  "optional_count v =
     (case optional_float v of
        None \<Rightarrow> None
      | Some q \<Rightarrow>
          if q < 0 \<or> q \<noteq> of_int \<lfloor>q\<rfloor> then None
          else (case v of PInt i \<Rightarrow> Some i | _ \<Rightarrow> Some (rat_trunc q)))"

definition non_negative :: "rat option \<Rightarrow> rat option" where
  "non_negative v = (case v of None \<Rightarrow> None | Some q \<Rightarrow> if q < 0 then None else Some q)"

definition optional_bytes :: "rat option \<Rightarrow> int option" where
  "optional_bytes v = map_option rhe (non_negative v)"

definition parse_boot_time :: "pyval \<Rightarrow> int option" where
  "parse_boot_time v =
     (case optional_float (field v ''$date'') of
        None \<Rightarrow> None
      | Some millis \<Rightarrow>
          if millis \<le> 0 then None
          else (case from_timestamp (NFloat (to_float (millis / 1000))) of Inr (PDate us) \<Rightarrow> Some us | _ \<Rightarrow> None))"

definition parse_loadavg :: "pyval \<Rightarrow> rat option \<times> rat option \<times> rat option" where
  "parse_loadavg v =
     (case v of
        PList [a, b, c] \<Rightarrow>
          (non_negative (optional_float a), non_negative (optional_float b), non_negative (optional_float c))
      | _ \<Rightarrow> (None, None, None))"

definition stripped_text :: "string option \<Rightarrow> pyval" where
  "stripped_text s = (case s of None \<Rightarrow> PNone | Some t \<Rightarrow> PStr (strip t))"

definition parse_system_info :: "pydict \<Rightarrow> system_info" where
  "parse_system_info raw =
     (let manufacturer = optional_str (get_or raw ''system_manufacturer'' PNone);
          product = optional_str (get_or raw ''system_product'' PNone)
      in case parse_loadavg (get_or raw ''loadavg'' PNone) of (load_1m, load_5m, load_15m) \<Rightarrow>
        \<lparr>si_hostname = optional_str (get_or raw ''hostname'' PNone),
         si_version = optional_str (get_or raw ''version'' PNone),
         si_manufacturer = manufacturer, si_product = product,
         si_serial = optional_str (get_or raw ''system_serial'' PNone),
         si_physical_memory = optional_count (get_or raw ''physmem'' PNone),
         si_boot_time = parse_boot_time (get_or raw ''boottime'' PNone),
         si_uptime_seconds = non_negative (optional_float (get_or raw ''uptime_seconds'' PNone)),
         si_load_1m = load_1m, si_load_5m = load_5m, si_load_15m = load_15m,
         si_is_virtual =
           (if manufacturer = None \<and> product = None then None
            else Some (is_virtual_machine (stripped_text manufacturer) (stripped_text product)))\<rparr>)"

definition LINK_UP_BY_STATE :: "(string \<times> bool) list" where
  "LINK_UP_BY_STATE = [(''LINK_STATE_UP'', True), (''LINK_STATE_DOWN'', False)]"

definition parse_interface :: "pydict \<Rightarrow> network_interface option" where
  "parse_interface entry =
     (case optional_str (get_or entry ''id'' PNone) of
        None \<Rightarrow> None
      | Some interface_id \<Rightarrow>
          (let state = get_or entry ''state'' PNone;
               link_state = optional_str (field state ''link_state'')
           in Some \<lparr>ni_id = interface_id, ni_name = optional_str (get_or entry ''name'' PNone),
                ni_description = optional_str (get_or entry ''description'' PNone),
                ni_mtu = optional_count (get_or entry ''mtu'' PNone), ni_link_state = link_state,
                ni_link_up = (case link_state of None \<Rightarrow> None | Some s \<Rightarrow> map_of LINK_UP_BY_STATE s),
                ni_active_media_type = optional_str (field state ''active_media_type''),
                ni_active_media_subtype = optional_str (field state ''active_media_subtype''),
                ni_link_address = optional_str (field state ''link_address'')\<rparr>))"

section \<open>Series of a graph\<close>

text \<open>A sum of finite floats, divided by how many there are, raises nothing but may overflow.\<close>

definition finite_mean :: "rat list \<Rightarrow> rat option" where
  "finite_mean values =
     (case py_mean (map (NFloat \<circ> Fin) values) of Inr (NFloat (Fin q)) \<Rightarrow> Some q | _ \<Rightarrow> None)"

definition is_series_name :: "pyval \<Rightarrow> bool" where
  "is_series_name name = (is_str name \<and> name \<noteq> PStr ''time'')"

text \<open>The \<open>defaultdict\<close> of samples by series name.\<close>

definition add_series_sample :: "pyval \<times> pyval \<Rightarrow> (pyval \<times> rat list) list \<Rightarrow> (pyval \<times> rat list) list" where
  "add_series_sample named samples =
     (case named of (name, sample) \<Rightarrow>
        (case optional_float sample of
           Some q \<Rightarrow>
             if is_series_name name
             then AList.update name ((case map_of samples name of None \<Rightarrow> [] | Some vs \<Rightarrow> vs) @ [q]) samples
             else samples
         | None \<Rightarrow> samples))"

definition raw_series_means :: "pyval \<Rightarrow> pyval list \<Rightarrow> (pyval \<times> rat) list" where
  "raw_series_means data legend =
     (case data of
        PList points \<Rightarrow>
          (let has_time = py_in (PStr ''time'') legend;
               width = (if has_time then length legend else length legend + 1);
               samples = fold (\<lambda>point samples. case point of
                   PList xs \<Rightarrow> if length xs \<noteq> width then samples
                     else fold add_series_sample (zip legend (if has_time then xs else tl xs)) samples
                 | _ \<Rightarrow> samples) points []
           in List.map_filter (\<lambda>(name, values). map_option (Pair name) (finite_mean values)) samples)
      | _ \<Rightarrow> [])"

definition aggregated_means :: "pyval \<Rightarrow> pydict" where
  "aggregated_means item =
     (case field (field item ''aggregations'') ''mean'' of PDict mean \<Rightarrow> mean | _ \<Rightarrow> [])"

definition has_legend :: "pyval \<Rightarrow> bool" where
  "has_legend item = (case item of PDict d \<Rightarrow> has_key d (PStr ''legend'') | _ \<Rightarrow> False)"

definition legend_of :: "pyval \<Rightarrow> pyval list" where
  "legend_of item = (case field item ''legend'' of PList legend \<Rightarrow> legend | _ \<Rightarrow> [])"

definition series_means :: "pyval \<Rightarrow> (pyval \<times> rat) list" where
  "series_means item =
     (let mean = aggregated_means item in
      if \<not> has_legend item
      then List.map_filter (\<lambda>(n, v). if is_series_name n then map_option (Pair n) (optional_float v) else None) mean
      else
        (let legend = legend_of item; raw_means = raw_series_means (field item ''data'') legend in
         fold (\<lambda>name means.
             if \<not> is_series_name name then means
             else
               (case (case (case dget mean name of None \<Rightarrow> None | Some v \<Rightarrow> optional_float v) of
                        Some q \<Rightarrow> Some q | None \<Rightarrow> map_of raw_means name) of
                  Some q \<Rightarrow> AList.update name q means
                | None \<Rightarrow> means)) legend []))"

definition first_item_means :: "pyval list \<Rightarrow> (pyval \<times> rat) list" where
  "first_item_means graph_data = (case graph_data of [] \<Rightarrow> [] | item # _ \<Rightarrow> series_means item)"

fun first_rate :: "(pyval \<times> rat) list \<Rightarrow> string list \<Rightarrow> rat option" where
  "first_rate means [] = None"
| "first_rate means (name # names) =
     (case non_negative (map_of means (PStr name)) of Some q \<Rightarrow> Some q | None \<Rightarrow> first_rate means names)"

definition interface_traffic_of :: "pyval list \<Rightarrow> (pyval \<times> interface_traffic) list" where
  "interface_traffic_of graph_data =
     fold (\<lambda>item traffic.
         let means = series_means item in
         AList.update (field item ''identifier'')
           \<lparr>rx_kbps = first_rate means [''received'', ''rx''], tx_kbps = first_rate means [''sent'', ''tx'']\<rparr> traffic)
       graph_data []"

section \<open>Shape of a graph\<close>

definition item_shape_error :: "string \<Rightarrow> pyval \<Rightarrow> string option" where
  "item_shape_error graph item =
     (if \<not> is_dict item then Some ''is not an object''
      else if has_legend item \<and> \<not> is_list (field item ''legend'') then Some ''has a non-list legend''
      else if \<not> has_legend item \<and> aggregated_means item = []
      then Some ''has neither a legend nor aggregations.mean''
      else if graph = ''interface'' \<and> optional_str (field item ''identifier'') = None
      then Some ''has no identifier''
      else None)"

definition LOG_REPR_MAX :: nat where "LOG_REPR_MAX = 200"

definition graph_shape_error :: "string \<Rightarrow> pyval \<Rightarrow> string option" where
  "graph_shape_error graph graph_data =
     (case graph_data of
        PList items \<Rightarrow>
          (case List.find (\<lambda>item. item_shape_error graph item \<noteq> None) items of
             None \<Rightarrow> None
           | Some item \<Rightarrow> Some (''graph '' @ CHR 0x27 # graph @ CHR 0x27 # '' item '' @ the (item_shape_error graph item)
                 @ '': '' @ take LOG_REPR_MAX (py_repr item)))
      | v \<Rightarrow> Some (''expected a list for graph '' @ CHR 0x27 # graph @ CHR 0x27 # '': '' @ take LOG_REPR_MAX (py_repr v)))"

definition memory_usage_percent :: "int option \<Rightarrow> int option \<Rightarrow> rat option" where
  "memory_usage_percent whole available =
     (case (whole, available) of
        (Some t, Some a) \<Rightarrow>
          if t \<le> 0 \<or> \<not> (0 \<le> a \<and> a \<le> t) then None
          else (case num_div (NInt (100 * (t - a))) (NInt t) of Inr (NFloat (Fin q)) \<Rightarrow> Some q | _ \<Rightarrow> None)
      | _ \<Rightarrow> None)"

section \<open>Errors of the graph calls\<close>

definition is_disconnect_symptom :: "truenas_error \<Rightarrow> bool" where
  "is_disconnect_symptom e =
     (case e of
        TrueNASConnectionError _ \<Rightarrow> True
      | TrueNASConnectionClosedError _ phase \<Rightarrow> phase = DisconnectPhase
      | _ \<Rightarrow> False)"

definition OPTIONAL_GRAPHS :: "string list" where "OPTIONAL_GRAPHS = [''cputemp'']"

definition is_absent_optional_graph :: "string \<Rightarrow> py_exn + pyval \<Rightarrow> bool" where
  "is_absent_optional_graph graph result =
     (graph \<in> set OPTIONAL_GRAPHS
      \<and> (case result of Inl (TrueNAS (TrueNASCallError e)) \<Rightarrow> ce_errname e = PStr ''ENOENT'' | _ \<Rightarrow> False))"

definition is_per_graph_error :: "truenas_error \<Rightarrow> bool" where
  "is_per_graph_error e =
     (case e of TrueNASCallError _ \<Rightarrow> True | TrueNASMalformedResponseError _ \<Rightarrow> True | _ \<Rightarrow> False)"

text \<open>The error to raise, with the graph its note names; \<open>errors\<close> is not empty.\<close>

definition primary_error :: "(string \<times> truenas_error) list \<Rightarrow> string \<times> truenas_error" where
  "primary_error errors =
     (case List.find (\<lambda>(name, err). \<not> is_disconnect_symptom err) errors of
        Some e \<Rightarrow> e | None \<Rightarrow> hd errors)"

text \<open>What a reader raises: the graph of its note, if it has one, and the exception.\<close>

type_synonym noted_exn = "string option \<times> py_exn"

definition raise_primary :: "(string \<times> truenas_error) list \<Rightarrow> noted_exn" where
  "raise_primary errors = (case primary_error errors of (graph, e) \<Rightarrow> (Some graph, TrueNAS e))"

definition reportable_failures ::
  "(string \<times> truenas_error) list \<Rightarrow> bool \<Rightarrow> noted_exn + (string \<times> truenas_error) list" where
  "reportable_failures errors partial =
     (if errors = [] then Inr []
      else if \<not> partial then Inl (raise_primary errors)
      else
        (let fatal = filter (\<lambda>(graph, err). \<not> is_per_graph_error err) errors in
         if fatal \<noteq> [] then Inl (raise_primary fatal) else Inr errors))"

section \<open>The readers\<close>

type_synonym api_client = "string \<Rightarrow> pyval \<Rightarrow> py_exn + pyval"

definition get_system_id :: "api_client \<Rightarrow> py_exn + string" where
  "get_system_id client =
     res_bind (client ''system.global.id'' PNone) (\<lambda>raw.
       case raw of
         PStr s \<Rightarrow>
           if strip s = []
           then Inl (TrueNAS (malformed ''system.global.id'' (''expected a non-empty string: '' @ py_repr raw)))
           else Inr (strip s)
       | _ \<Rightarrow> Inl (TrueNAS (malformed ''system.global.id'' (''expected a non-empty string: '' @ py_repr raw))))"

definition get_system_info :: "api_client \<Rightarrow> py_exn + system_info" where
  "get_system_info client =
     res_bind (client ''system.info'' PNone) (\<lambda>raw.
       case raw of
         PDict (kv # d) \<Rightarrow> Inr (parse_system_info (kv # d))
       | _ \<Rightarrow> Inl (TrueNAS (malformed ''system.info'' (''expected a non-empty object: '' @ py_repr raw))))"

definition get_network_interfaces :: "api_client \<Rightarrow> py_exn + (string \<times> network_interface) list" where
  "get_network_interfaces client =
     res_bind (client ''interface.query'' PNone) (\<lambda>raw.
       case raw of
         PList entries \<Rightarrow>
           Inr (fold (\<lambda>entry interfaces.
               case (case entry of PDict d \<Rightarrow> parse_interface d | _ \<Rightarrow> None) of
                 None \<Rightarrow> interfaces
               | Some interface \<Rightarrow> AList.update (ni_id interface) interface interfaces) entries [])
       | _ \<Rightarrow> Inl (TrueNAS (malformed ''interface.query'' (''expected a list: '' @ py_repr raw))))"

text \<open>The loop of \<open>_fetch_graphs\<close> over the gathered results: the data and the errors so far.\<close>

fun sort_results ::
  "(string \<times> (py_exn + pyval)) list \<Rightarrow> py_exn + (string \<times> pyval list) list \<times> (string \<times> truenas_error) list" where
  "sort_results [] = Inr ([], [])"
| "sort_results ((graph, result) # results) =
     (if is_absent_optional_graph graph result then sort_results results
      else
        (case result of
           Inl (Builtin e) \<Rightarrow> Inl (Builtin e)
         | Inl (TrueNAS e) \<Rightarrow>
             res_map (\<lambda>(data, errors). (data, (graph, e) # errors)) (sort_results results)
         | Inr v \<Rightarrow>
             (case graph_shape_error graph v of
                Some problem \<Rightarrow>
                  res_map (\<lambda>(data, errors).
                      (data, (graph, malformed ''reporting.netdata_graph'' problem) # errors)) (sort_results results)
              | None \<Rightarrow>
                  res_map (\<lambda>(data, errors).
                      ((graph, case v of PList items \<Rightarrow> items | _ \<Rightarrow> []) # data, errors)) (sort_results results))))"

definition graph_window :: "int \<Rightarrow> pyval" where
  "graph_window now_ts = PDict [(PStr ''start'', PInt (now_ts - 90)), (PStr ''end'', PInt (now_ts - 30)),
     (PStr ''aggregate'', PBool True)]"

definition fetch_graphs ::
  "api_client \<Rightarrow> int \<Rightarrow> string list \<Rightarrow> bool
    \<Rightarrow> noted_exn + (string \<times> pyval list) list \<times> (string \<times> truenas_error) list" where
  "fetch_graphs client now_ts graphs partial =
     (case sort_results (map (\<lambda>g. (g, client ''reporting.netdata_graph''
              (PList [PStr g, graph_window now_ts]))) graphs) of
        Inl e \<Rightarrow> Inl (None, e)
      | Inr (data, errors) \<Rightarrow> res_map (Pair data) (reportable_failures errors partial))"

definition graph_data :: "(string \<times> pyval list) list \<Rightarrow> string \<Rightarrow> pyval list" where
  "graph_data data graph = (case map_of data graph of None \<Rightarrow> [] | Some items \<Rightarrow> items)"

definition stats_graphs :: "system_info option \<Rightarrow> string list" where
  "stats_graphs info =
     [''cpu'', ''memory'', ''arcsize'', ''interface'']
      @ (if info = None \<or> si_is_virtual (the info) \<noteq> Some True then [''cputemp''] else [])"

definition stats_of ::
  "system_info option \<Rightarrow> (string \<times> pyval list) list \<Rightarrow> (string \<times> truenas_error) list \<Rightarrow> system_stats" where
  "stats_of info data failed =
     (let memory_available =
            optional_bytes (map_of (first_item_means (graph_data data ''memory'')) (PStr ''available''));
          core_temperatures = map snd (first_item_means (graph_data data ''cputemp''))
      in \<lparr>ss_cpu_usage_percent =
            non_negative (map_of (first_item_means (graph_data data ''cpu'')) (PStr ''cpu'')),
          ss_cpu_temperature = (if core_temperatures = [] then None else Some (Max (set core_temperatures))),
          ss_memory_available = memory_available,
          ss_memory_usage_percent =
            memory_usage_percent (case info of None \<Rightarrow> None | Some i \<Rightarrow> si_physical_memory i) memory_available,
          ss_arc_size = optional_bytes (map_of (first_item_means (graph_data data ''arcsize'')) (PStr ''size'')),
          ss_interfaces = interface_traffic_of (graph_data data ''interface''),
          ss_failed_graphs = failed\<rparr>)"

definition get_system_stats ::
  "api_client \<Rightarrow> int \<Rightarrow> system_info option \<Rightarrow> bool \<Rightarrow> noted_exn + system_stats" where
  "get_system_stats client now_ts info partial =
     (case fetch_graphs client now_ts (stats_graphs info) partial of
        Inl e \<Rightarrow> Inl e
      | Inr (data, failed) \<Rightarrow> Inr (stats_of info data failed))"

end
