(* ===== verification/SystemLaws.thy ===== *)
theory SystemLaws
  imports SystemApi
begin

text \<open>
  What the typed readers promise: readings in range, graph failures that are raised or reported,
  and the root cause before the symptoms.
\<close>

section \<open>Readings\<close>

abbreviation nonneg :: "'a::{zero,ord} option \<Rightarrow> bool" where
  "nonneg v \<equiv> pred_option (\<lambda>q. 0 \<le> q) v"

lemma non_negative_nonneg: "nonneg (non_negative v)"
  by (auto simp: non_negative_def split: option.split)

lemma optional_bytes_nonneg: "nonneg (optional_bytes v)"
  by (auto simp: optional_bytes_def non_negative_def intro!: rhe_ge split: option.split)

lemma first_rate_nonneg: "nonneg (first_rate means names)"
proof (induction means names rule: first_rate.induct)
  case (2 means name names)
  then show ?case
    using non_negative_nonneg [of "map_of means (PStr name)"] by (auto split: option.split)
qed simp

lemma update_values: "x \<in> set (AList.update k v xs) \<Longrightarrow> x \<in> set xs \<or> x = (k, v)"
  by (induction xs) (auto split: if_splits)

lemma interface_rates_nonneg:
  assumes "(i, t) \<in> set (interface_traffic_of items)"
  shows "nonneg (rx_kbps t) \<and> nonneg (tx_kbps t)"
proof -
  have "\<forall>(i, t) \<in> set (fold (\<lambda>item traffic. let means = series_means item in
         AList.update (field item ''identifier'')
           \<lparr>rx_kbps = first_rate means [''received'', ''rx''], tx_kbps = first_rate means [''sent'', ''tx'']\<rparr> traffic) items ts).
      nonneg (rx_kbps t) \<and> nonneg (tx_kbps t)"
    if "\<forall>(i, t) \<in> set ts. nonneg (rx_kbps t) \<and> nonneg (tx_kbps t)" for ts
    using that
  proof (induction items arbitrary: ts)
    case (Cons item items)
    let ?t = "\<lparr>rx_kbps = first_rate (series_means item) [''received'', ''rx''],
      tx_kbps = first_rate (series_means item) [''sent'', ''tx'']\<rparr>"
    have "case x of (i, t) \<Rightarrow> nonneg (rx_kbps t) \<and> nonneg (tx_kbps t)"
      if "x \<in> set (AList.update (field item ''identifier'') ?t ts)" for x
      using update_values [OF that] Cons.prems by (auto simp: first_rate_nonneg simp del: first_rate.simps)
    then have "\<forall>(i, t) \<in> set (AList.update (field item ''identifier'') ?t ts). nonneg (rx_kbps t) \<and> nonneg (tx_kbps t)"
      by blast
    from Cons.IH [OF this] show ?case by (simp add: Let_def del: first_rate.simps)
  qed simp
  from this [of "[]"] assms show ?thesis by (auto simp: interface_traffic_of_def)
qed

lemma memory_percent_part:
  assumes "0 < t" "0 \<le> a" "a \<le> t"
  shows "\<exists>p. memory_usage_percent (Some t) (Some a) = Some p \<and> 0 \<le> p \<and> p \<le> 100"
proof -
  let ?x = "rat_of_int (100 * (t - a)) / of_int t"
  have x: "0 \<le> ?x" "?x \<le> 100" using assms by (simp_all add: divide_le_eq)
  then have "to_float ?x = Fin (fl64 ?x)" by (intro to_float_bounded) auto
  then have "num_div (NInt (100 * (t - a))) (NInt t) = Inr (NFloat (Fin (fl64 ?x)))"
    using assms by (simp add: num_div_def)
  moreover have "0 \<le> fl64 ?x \<and> fl64 ?x \<le> 100" using b64.rnd_between [of 0 ?x 100] x by simp
  ultimately show ?thesis using assms by (simp add: memory_usage_percent_def)
qed

lemma memory_percent_iff:
  "memory_usage_percent whole available \<noteq> None \<longleftrightarrow>
     (\<exists>t a. whole = Some t \<and> available = Some a \<and> 0 < t \<and> 0 \<le> a \<and> a \<le> t)"
proof
  assume "memory_usage_percent whole available \<noteq> None"
  then show "\<exists>t a. whole = Some t \<and> available = Some a \<and> 0 < t \<and> 0 \<le> a \<and> a \<le> t"
    by (auto simp: memory_usage_percent_def split: option.splits if_splits)
next
  assume "\<exists>t a. whole = Some t \<and> available = Some a \<and> 0 < t \<and> 0 \<le> a \<and> a \<le> t"
  then show "memory_usage_percent whole available \<noteq> None" using memory_percent_part by force
qed

lemma memory_percent_range: "pred_option (\<lambda>p. 0 \<le> p \<and> p \<le> 100) (memory_usage_percent whole available)"
proof (cases "memory_usage_percent whole available")
  case (Some p)
  then obtain t a where "whole = Some t" "available = Some a" "0 < t" "0 \<le> a" "a \<le> t"
    using memory_percent_iff [of whole available] by auto
  with memory_percent_part [of t a] Some show ?thesis by auto
qed simp

lemma stats_cases:
  assumes "get_system_stats client now_ts info partial = Inr st"
  obtains data failed where "fetch_graphs client now_ts (stats_graphs info) partial = Inr (data, failed)"
    "st = stats_of info data failed"
  using assms by (auto simp: get_system_stats_def split: sum.splits)

section \<open>A server\<close>

text \<open>It answers the memory graph and that of two cold cores, rejects the one of the CPU, and times out on the interfaces on demand.\<close>

definition graph_of :: "pyval \<Rightarrow> string" where
  "graph_of params = (case params of PList (PStr g # _) \<Rightarrow> g | _ \<Rightarrow> [])"

definition rejected :: truenas_error where
  "rejected = TrueNASCallError \<lparr>ce_message = PStr ''no'', ce_code = PNone, ce_errname = PStr ''EACCES'',
     ce_reason = PNone, ce_data = PNone\<rparr>"

definition cold_cores :: "pyval list" where
  "cold_cores = [PDict [(PStr ''legend'', PList [PStr ''time'', PStr ''cpu0'', PStr ''cpu1'']),
     (PStr ''aggregations'', PDict [(PStr ''mean'', PDict [(PStr ''cpu0'', PInt (- 5)), (PStr ''cpu1'', PInt (- 7))])])]]"

definition sample_client :: "bool \<Rightarrow> api_client" where
  "sample_client slow method params =
     (if graph_of params = ''cpu''
      then Inl (TrueNAS (if slow then TrueNASConnectionClosedError ''closed'' DisconnectPhase else rejected))
      else if slow \<and> graph_of params = ''interface''
      then Inl (TrueNAS (TrueNASCallTimeoutError ''timed out''))
      else if graph_of params = ''memory''
      then Inr (PList [PDict [(PStr ''legend'', PList [PStr ''time'', PStr ''available'']),
             (PStr ''aggregations'', PDict [(PStr ''mean'', PDict [(PStr ''available'', PInt 4)])])]])
      else if graph_of params = ''cputemp'' then Inr (PList cold_cores)
      else Inr (PList []))"

definition sample_info :: system_info where
  "sample_info = parse_system_info [(PStr ''physmem'', PInt 16)]"

definition sample_stats :: system_stats where
  "sample_stats = (case get_system_stats (sample_client False) 1000 (Some sample_info) True of
     Inr st \<Rightarrow> st | Inl _ \<Rightarrow> stats_of None [] [])"

definition is_ok :: "'a + 'b \<Rightarrow> bool" where
  "is_ok r = (case r of Inl _ \<Rightarrow> False | Inr _ \<Rightarrow> True)"

lemma sample_stats_ok: "get_system_stats (sample_client False) 1000 (Some sample_info) True = Inr sample_stats"
proof -
  have "is_ok (get_system_stats (sample_client False) 1000 (Some sample_info) True)" by code_simp
  then show ?thesis by (auto simp: sample_stats_def is_ok_def split: sum.splits)
qed

section \<open>Failures\<close>

text \<open>What each result contributes, one by one.\<close>

definition error_of :: "string \<times> (py_exn + pyval) \<Rightarrow> (string \<times> truenas_error) option" where
  "error_of named =
     (case named of (graph, result) \<Rightarrow>
        if is_absent_optional_graph graph result then None
        else
          (case result of
             Inl (TrueNAS e) \<Rightarrow> Some (graph, e)
           | Inl (Builtin e) \<Rightarrow> None
           | Inr v \<Rightarrow> map_option (\<lambda>problem. (graph, malformed ''reporting.netdata_graph'' problem)) (graph_shape_error graph v)))"

lemma sort_results_errors:
  "sort_results results = Inr (data, errors) \<Longrightarrow> errors = List.map_filter error_of results"
proof (induction results arbitrary: data errors rule: sort_results.induct)
  case (2 graph result results)
  then show ?case
    by (auto simp: map_filter_simps error_of_def res_map_def split: if_splits sum.splits py_exn.splits option.splits)
qed (simp add: map_filter_simps)

lemma shape_ok_list: "graph_shape_error graph v = None \<Longrightarrow> PList (case v of PList items \<Rightarrow> items | _ \<Rightarrow> []) = v"
  by (cases v) (auto simp: graph_shape_error_def)

lemma sort_results_data:
  "sort_results results = Inr (data, errors) \<Longrightarrow>
    (g, items) \<in> set data \<longleftrightarrow> (g, Inr (PList items)) \<in> set results \<and> graph_shape_error g (PList items) = None"
proof (induction results arbitrary: data errors rule: sort_results.induct)
  case (2 graph result results)
  then show ?case
    by (auto simp: res_map_def is_absent_optional_graph_def shape_ok_list
        split: if_splits sum.splits py_exn.splits option.splits)
qed simp

lemma sort_results_builtin:
  "sort_results results = Inr (data, errors) \<Longrightarrow> (graph, Inl (Builtin e)) \<in> set results \<Longrightarrow> False"
proof (induction results arbitrary: data errors)
  case (Cons r results)
  obtain graph' result where "r = (graph', result)" by (cases r)
  with Cons show ?case
    by (auto simp: res_map_def is_absent_optional_graph_def split: if_splits sum.splits py_exn.splits option.splits)
qed simp

definition graph_answers :: "api_client \<Rightarrow> int \<Rightarrow> system_info option \<Rightarrow> (string \<times> (py_exn + pyval)) list" where
  "graph_answers client now_ts info =
     map (\<lambda>g. (g, client ''reporting.netdata_graph'' (PList [PStr g, graph_window now_ts]))) (stats_graphs info)"

lemma graph_answers_iff:
  "(g, r) \<in> set (graph_answers client now_ts info) \<longleftrightarrow>
     g \<in> set (stats_graphs info) \<and> client ''reporting.netdata_graph'' (PList [PStr g, graph_window now_ts]) = r"
  by (auto simp: graph_answers_def)

definition usable_answer :: "string \<Rightarrow> py_exn + pyval \<Rightarrow> bool" where
  "usable_answer graph result \<longleftrightarrow> is_absent_optional_graph graph result
     \<or> (case result of Inl e \<Rightarrow> False | Inr v \<Rightarrow> graph_shape_error graph v = None)"

lemma error_of_graph: "error_of (graph, result) = Some (g, e) \<Longrightarrow> g = graph"
  by (auto simp: error_of_def split: if_splits sum.splits py_exn.splits)

lemma error_of_usable:
  "error_of (graph, result) = None \<longleftrightarrow> usable_answer graph result \<or> (\<exists>e. result = Inl (Builtin e))"
  by (auto simp: error_of_def usable_answer_def is_absent_optional_graph_def split: sum.splits py_exn.splits)

lemma fetch_graphs_Inr:
  assumes "fetch_graphs client now_ts (stats_graphs info) partial = Inr (data, failed)"
  obtains "failed = List.map_filter error_of (graph_answers client now_ts info)"
    "\<forall>(graph, e) \<in> set failed. partial \<and> is_per_graph_error e"
    "\<And>graph e. (graph, Inl (Builtin e)) \<notin> set (graph_answers client now_ts info)"
proof -
  obtain errors where s: "sort_results (graph_answers client now_ts info) = Inr (data, errors)"
    and r: "reportable_failures errors partial = Inr failed"
    using assms by (auto simp: fetch_graphs_def graph_answers_def res_map_def split: sum.splits)
  from r have "failed = errors" "\<forall>(graph, e) \<in> set failed. partial \<and> is_per_graph_error e"
    by (auto simp: reportable_failures_def Let_def filter_empty_conv split: if_splits)
  with s show ?thesis using that sort_results_errors [OF s] sort_results_builtin [OF s] by blast
qed

text \<open>The data of a graph that was asked for is its well-formed answer.\<close>

lemma fetched_data:
  assumes "fetch_graphs client now_ts (stats_graphs info) partial = Inr (data, failed)"
  shows "map_of data g = Some items \<longleftrightarrow>
    (g, Inr (PList items)) \<in> set (graph_answers client now_ts info) \<and> graph_shape_error g (PList items) = None"
proof -
  obtain errors where "sort_results (graph_answers client now_ts info) = Inr (data, errors)"
    using assms by (auto simp: fetch_graphs_def graph_answers_def res_map_def split: sum.splits)
  note at = sort_results_data [OF this]
  have "i = i'" if "(g, i) \<in> set data" "(g, i') \<in> set data" for i i'
    using that by (simp add: at graph_answers_iff)
  then have "map_of data g = Some items \<longleftrightarrow> (g, items) \<in> set data"
    by (metis map_of_SomeD weak_map_of_SomeI)
  then show ?thesis by (simp add: at)
qed

definition cputemp_asked :: "system_info option \<Rightarrow> bool" where
  "cputemp_asked info \<longleftrightarrow> \<not> (\<exists>i. info = Some i \<and> si_is_virtual i = Some True)"

lemma cputemp_asked: "''cputemp'' \<in> set (stats_graphs info) \<longleftrightarrow> cputemp_asked info"
  by (cases info) (auto simp: stats_graphs_def cputemp_asked_def)

lemma hottest_iff:
  "(let ts = map snd (first_item_means (graph_data data ''cputemp'')) in if ts = [] then None else Some (Max (set ts)))
      = Some q \<longleftrightarrow>
    (\<exists>items. map_of data ''cputemp'' = Some items \<and> q \<in> snd ` set (first_item_means items)
       \<and> (\<forall>(core, t) \<in> set (first_item_means items). t \<le> q))"
proof (cases "map_of data ''cputemp''")
  case None
  then show ?thesis by (simp add: graph_data_def first_item_means_def)
next
  case (Some items)
  have "finite (snd ` set (first_item_means items))" by simp
  from Max_eq_iff [OF this, of q] Some show ?thesis by (auto simp: graph_data_def Let_def)
qed

text \<open>
  C23: the CPU usage \<open>get_system_stats\<close> returns, the memory and ARC sizes and the rates of the interfaces
  are not negative; the memory usage lies between 0 and 100 percent, and there is one exactly when the
  physical memory is known and the available memory is a part of it.  The CPU temperature is of either
  sign: it is the highest of the core means of the \<open>cputemp\<close> answer, and there is none exactly for a
  virtual machine, an answer that is no well-formed graph, or one without means.
\<close>

theorem stats_readings_in_range:
  assumes "get_system_stats client now_ts info partial = Inr st"
  shows "nonneg (ss_cpu_usage_percent st) \<and> nonneg (ss_memory_available st) \<and> nonneg (ss_arc_size st)
    \<and> list_all (\<lambda>(i, t). nonneg (rx_kbps t) \<and> nonneg (tx_kbps t)) (ss_interfaces st)
    \<and> pred_option (\<lambda>p. 0 \<le> p \<and> p \<le> 100) (ss_memory_usage_percent st)
    \<and> (ss_memory_usage_percent st \<noteq> None \<longleftrightarrow>
         (\<exists>i t a. info = Some i \<and> si_physical_memory i = Some t \<and> ss_memory_available st = Some a
            \<and> 0 < t \<and> 0 \<le> a \<and> a \<le> t))
    \<and> (\<forall>q. ss_cpu_temperature st = Some q \<longleftrightarrow>
         (\<exists>items. \<not> (\<exists>i. info = Some i \<and> si_is_virtual i = Some True)
            \<and> client ''reporting.netdata_graph'' (PList [PStr ''cputemp'', graph_window now_ts]) = Inr (PList items)
            \<and> graph_shape_error ''cputemp'' (PList items) = None
            \<and> q \<in> snd ` set (first_item_means items) \<and> (\<forall>(core, t) \<in> set (first_item_means items). t \<le> q)))"
proof -
  obtain data failed where f: "fetch_graphs client now_ts (stats_graphs info) partial = Inr (data, failed)"
    and st: "st = stats_of info data failed" using stats_cases [OF assms] .
  have mem: "ss_memory_usage_percent st =
      memory_usage_percent (case info of None \<Rightarrow> None | Some i \<Rightarrow> si_physical_memory i) (ss_memory_available st)"
    by (simp add: st stats_of_def Let_def)
  have "nonneg (ss_cpu_usage_percent st)" "nonneg (ss_memory_available st)" "nonneg (ss_arc_size st)"
    by (simp_all add: st stats_of_def Let_def non_negative_nonneg optional_bytes_nonneg)
  moreover have "list_all (\<lambda>(i, t). nonneg (rx_kbps t) \<and> nonneg (tx_kbps t)) (ss_interfaces st)"
    by (auto simp: st stats_of_def Let_def list_all_iff dest: interface_rates_nonneg)
  moreover have "ss_memory_usage_percent st \<noteq> None \<longleftrightarrow>
      (\<exists>i t a. info = Some i \<and> si_physical_memory i = Some t \<and> ss_memory_available st = Some a
         \<and> 0 < t \<and> 0 \<le> a \<and> a \<le> t)"
    unfolding mem memory_percent_iff by (auto split: option.splits)
  moreover have "pred_option (\<lambda>p. 0 \<le> p \<and> p \<le> 100) (ss_memory_usage_percent st)"
    unfolding mem by (rule memory_percent_range)
  moreover have "ss_cpu_temperature st = Some q \<longleftrightarrow> (\<exists>items. cputemp_asked info
      \<and> client ''reporting.netdata_graph'' (PList [PStr ''cputemp'', graph_window now_ts]) = Inr (PList items)
      \<and> graph_shape_error ''cputemp'' (PList items) = None
      \<and> q \<in> snd ` set (first_item_means items) \<and> (\<forall>(core, t) \<in> set (first_item_means items). t \<le> q))" for q
  proof -
    have "ss_cpu_temperature st = (let ts = map snd (first_item_means (graph_data data ''cputemp'')) in
        if ts = [] then None else Some (Max (set ts)))"
      by (simp add: st stats_of_def Let_def)
    then show ?thesis
      by (simp only: hottest_iff fetched_data [OF f] graph_answers_iff cputemp_asked conj_assoc)
  qed
  ultimately show ?thesis unfolding cputemp_asked_def by blast
qed

lemma stats_readings_in_range_witness:
  "nonneg (ss_memory_available sample_stats) \<and> ss_memory_usage_percent sample_stats = Some 75
    \<and> ss_cpu_temperature sample_stats = Some (- 5)"
proof -
  have "ss_memory_usage_percent sample_stats = Some 75" by code_simp
  moreover have "graph_shape_error ''cputemp'' (PList cold_cores) = None"
    "first_item_means cold_cores = [(PStr ''cpu0'', - 5), (PStr ''cpu1'', - 7)]"
    "si_is_virtual sample_info = None"
    "sample_client False ''reporting.netdata_graph'' (PList [PStr ''cputemp'', graph_window 1000]) = Inr (PList cold_cores)"
    by code_simp+
  ultimately show ?thesis using stats_readings_in_range [OF sample_stats_ok] by auto
qed

text \<open>
  C22: \<open>get_system_stats\<close> hides no failure.  When it returns, every graph it asked for either answered
  with a well-formed graph, or is an optional one the server does not know, or is listed in
  \<open>failed_graphs\<close> with its own error; it lists only errors that concern one graph, and none
  unless \<open>partial\<close> was asked for.
\<close>

theorem stats_failures_reported:
  assumes "get_system_stats client now_ts info partial = Inr st"
    and "(graph, result) \<in> set (graph_answers client now_ts info)"
  shows "(usable_answer graph result \<or> (\<exists>e. (graph, e) \<in> set (ss_failed_graphs st) \<and> error_of (graph, result) = Some (graph, e)))
    \<and> (\<forall>(g, e) \<in> set (ss_failed_graphs st). partial \<and> is_per_graph_error e)"
proof -
  obtain data failed where f: "fetch_graphs client now_ts (stats_graphs info) partial = Inr (data, failed)"
    and st: "st = stats_of info data failed" using stats_cases [OF assms(1)] .
  have failed: "ss_failed_graphs st = failed" by (simp add: st stats_of_def Let_def)
  from f have m: "failed = List.map_filter error_of (graph_answers client now_ts info)"
    and p: "\<forall>(graph, e) \<in> set failed. partial \<and> is_per_graph_error e"
    and b: "\<And>graph e. (graph, Inl (Builtin e)) \<notin> set (graph_answers client now_ts info)"
    using fetch_graphs_Inr by blast+
  have "usable_answer graph result \<or> (\<exists>e. (graph, e) \<in> set failed \<and> error_of (graph, result) = Some (graph, e))"
  proof (cases "error_of (graph, result)")
    case None
    then show ?thesis using error_of_usable [of graph result] b assms(2) by auto
  next
    case (Some ge)
    moreover then have "ge \<in> set failed" using assms(2) by (force simp: m map_filter_def)
    moreover have "fst ge = graph" using Some by (auto simp: error_of_def split: if_splits sum.splits py_exn.splits)
    ultimately show ?thesis by (cases ge) auto
  qed
  with p failed show ?thesis by simp
qed

lemma stats_failures_reported_witness:
  "usable_answer ''cpu'' (Inl (TrueNAS rejected))
    \<or> (\<exists>e. (''cpu'', e) \<in> set (ss_failed_graphs sample_stats)
         \<and> error_of (''cpu'', Inl (TrueNAS rejected)) = Some (''cpu'', e))"
proof -
  have "(''cpu'', Inl (TrueNAS rejected)) \<in> set (graph_answers (sample_client False) 1000 (Some sample_info))" by code_simp
  from stats_failures_reported [OF sample_stats_ok this] show ?thesis by blast
qed

lemma primary_error_in: "errors \<noteq> [] \<Longrightarrow> primary_error errors \<in> set errors"
  by (auto simp: primary_error_def dest: find_SomeD split: option.split)

lemma primary_error_cause:
  assumes "(other, e') \<in> set errors" "\<not> is_disconnect_symptom e'"
  shows "\<not> is_disconnect_symptom (snd (primary_error errors))"
proof -
  obtain x where "List.find (\<lambda>(name, err). \<not> is_disconnect_symptom err) errors = Some x"
    using assms by (cases "List.find (\<lambda>(name, err). \<not> is_disconnect_symptom err) errors") (auto simp: find_None_iff)
  then show ?thesis by (auto simp: primary_error_def dest: find_SomeD)
qed

text \<open>
  C24: the error it raises about a graph is the root cause.  It is the error of the graph its note
  names; in partial mode it concerns the whole connection, not that graph alone.  And if any of the
  errors it may raise (in partial mode, those that concern more than their own graph) is more than
  a consequence of the connection having been closed by a sibling call, the one raised is, too.
\<close>

theorem root_cause_raised:
  assumes "get_system_stats client now_ts info partial = Inl (Some graph, TrueNAS e)"
  shows "(\<exists>result. (graph, result) \<in> set (graph_answers client now_ts info) \<and> error_of (graph, result) = Some (graph, e))
    \<and> \<not> (partial \<and> is_per_graph_error e)
    \<and> (\<forall>(other, result) \<in> set (graph_answers client now_ts info). \<forall>e'. error_of (other, result) = Some (other, e') \<longrightarrow>
         \<not> (partial \<and> is_per_graph_error e') \<longrightarrow> \<not> is_disconnect_symptom e' \<longrightarrow> \<not> is_disconnect_symptom e)"
proof -
  obtain data errors where s: "sort_results (graph_answers client now_ts info) = Inr (data, errors)"
    and r: "reportable_failures errors partial = Inl (Some graph, TrueNAS e)"
    using assms by (auto simp: get_system_stats_def fetch_graphs_def graph_answers_def res_map_def split: sum.splits)
  let ?raised = "filter (\<lambda>(graph, err). \<not> (partial \<and> is_per_graph_error err)) errors"
  from r have p: "primary_error ?raised = (graph, e)" "?raised \<noteq> []"
    by (auto simp: reportable_failures_def raise_primary_def Let_def split: if_splits prod.splits)
  from primary_error_in [OF p(2)] have mem: "(graph, e) \<in> set errors" "\<not> (partial \<and> is_per_graph_error e)"
    unfolding p(1) by simp_all
  note errors = sort_results_errors [OF s]
  from mem(1) obtain result where "(graph, result) \<in> set (graph_answers client now_ts info)" "error_of (graph, result) = Some (graph, e)"
    unfolding errors using error_of_graph by (fastforce simp: List.map_filter_def)
  moreover have "\<not> is_disconnect_symptom e"
    if "(other, result) \<in> set (graph_answers client now_ts info)" "error_of (other, result) = Some (other, e')"
      "\<not> (partial \<and> is_per_graph_error e')" "\<not> is_disconnect_symptom e'" for other result e'
  proof -
    have "(other, e') \<in> set ?raised" using that(1-3) by (force simp: errors List.map_filter_def)
    from primary_error_cause [OF this that(4)] show ?thesis unfolding p(1) by simp
  qed
  ultimately show ?thesis using mem(2) by blast
qed

lemma root_cause_raised_witness: "\<not> is_disconnect_symptom (TrueNASCallTimeoutError ''timed out'')"
proof -
  have run: "get_system_stats (sample_client True) 1000 None True
      = Inl (Some ''interface'', TrueNAS (TrueNASCallTimeoutError ''timed out''))" by code_simp
  have "(''interface'', Inl (TrueNAS (TrueNASCallTimeoutError ''timed out'')))
      \<in> set (graph_answers (sample_client True) 1000 None)"
    "error_of (''interface'', Inl (TrueNAS (TrueNASCallTimeoutError ''timed out'')))
      = Some (''interface'', TrueNASCallTimeoutError ''timed out'')"
    "\<not> is_per_graph_error (TrueNASCallTimeoutError ''timed out'')"
    "\<not> is_disconnect_symptom (TrueNASCallTimeoutError ''timed out'')"
    by code_simp+
  with root_cause_raised [OF run] show ?thesis by fast
qed

end
