(* ===== verification/Spec2Isabelle.thy ===== *)
theory Spec2Isabelle
  imports TaskLaws HelperLaws ClientOption ClientQueues ClientSockets ClientJobs ClientSession SystemLaws
begin

text \<open>
  The verification library of the asynchronous TrueNAS client \<open>aiotruenas\<close>
  (\<open>src/src/aiotruenas\<close>).

  \<^bold>\<open>The program.\<close>  \<open>client.py\<close> keeps one WebSocket connection to a TrueNAS server: it logs in, sends
  JSON-RPC requests, routes replies and notifications in a reader task, and detaches everything
  when the connection ends.  \<open>domain/state.py\<close> polls the server through it and keeps a normalized
  snapshot per endpoint; what an answer means is declared in the tables of \<open>domain/_specs.py\<close>,
  which \<open>domain/_normalize.py\<close> interprets, and computed by \<open>domain/_helpers.py\<close>.  \<open>system.py\<close> offers
  typed readers without a cache, with the snapshots of \<open>models.py\<close>.  \<open>exceptions.py\<close> and \<open>_errors.py\<close>
  are the errors of all of them.

  \<^bold>\<open>Python.\<close>  \<open>Prelude\<close> holds the result type and list lemmas; \<open>PyFloat\<close> the numbers (unbounded ints,
  binary64 floats as rationals with correct rounding, \<open>sum\<close> as CPython adds); \<open>PyValue\<close> the values of
  JSON with key equality, truth and the \<open>int\<close> of a string; \<open>PyTime\<close> the UTC \<open>datetime\<close>s and \<open>strptime\<close>;
  \<open>PyText\<close> \<open>str\<close> and \<open>repr\<close>.  A string is the list of its code points below 256; \<open>-0.0\<close> is \<open>0.0\<close>; a value is
  immutable, so an update in place returns the new value and a deep copy is the identity.

  \<^bold>\<open>Normalizer.\<close>  \<open>Normalize\<close> is \<open>parse_api\<close> with the resolution, coercion and conversion of a field,
  pruning, ensured and derived keys; \<open>Specs\<close> has every table.  \<open>ParseLaws\<close> and \<open>MapInv\<close> show which ids
  and which values a parse leaves, that a payload without usable ids keeps the snapshot (an
  empty list empties it), that it is idempotent, and that every field of every table is typed.

  \<^bold>\<open>Helpers.\<close>  \<open>Helpers\<close> has every function of \<open>_helpers.py\<close>; \<open>HelperLaws\<close> the error totals, means,
  temperatures, cpusets, versions and the damped boot time.  \<open>Exceptions\<close> has the hierarchy, call
  errors and the classification of connection failures, with the classification laws.

  \<^bold>\<open>State.\<close>  \<open>Actions\<close> is the state-and-exception monad of a handler (a handler holds the refresh lock, so
  it is one action; each request is issued at most once, so the server is a function from requests
  to outcomes).  \<open>Refresh\<close> has the state record, the fallback tracking and \<open>stale_endpoints\<close>; \<open>Pools\<close>,
  \<open>Alerts\<close>, \<open>Services\<close>, \<open>Tasks\<close>, \<open>Netdata\<close> and \<open>SystemStats\<close> the \<open>get_*\<close> handlers.  \<open>StateInv\<close>, \<open>PoolLaws\<close>,
  \<open>Refreshes\<close> and \<open>TaskLaws\<close> show what holds in every state a sequence of refreshes reaches: what is
  reported stale, what a published pool says, what a failing answer leaves alone.

  \<^bold>\<open>Client.\<close>  \<open>Client\<close> has the tables of \<open>TrueNASClient\<close> and its synchronous pieces: registering a call,
  routing one message, detaching a connection, job polling, draining a queue.  \<open>ClientSteps\<close> makes a
  state machine of them.  A task is one public operation, in the state of the \<open>await\<close> it is suspended
  at; a reader is the read loop of one connection.  An event runs one of them from its \<open>await\<close> to the
  next, as \<open>asyncio\<close> does: \<open>_lock\<close> is held across the awaits inside its \<open>async with\<close>, a section
  without one is one event, and any waiting task may get a free lock.  What the network and the
  scheduler do is in the events: the messages received, whether opening, sending or logging in
  succeeds, timeouts, cancellations, a lost connection, an unexpected exception in the reader.
  \<open>ClientRun\<close> has the step relation as a function, to evaluate runs.  \<open>ClientLaws\<close> and \<open>ClientCalls\<close> hold
  the invariants of the lock, the connection and the calls; \<open>ClientProps\<close> the locale of an invariant
  relative to what the environment may do, and what a caller can rely on; \<open>ClientTrace\<close> runs with the
  log of the requests answered in them; \<open>ClientPrivate\<close> and \<open>ClientOption\<close> the private-methods option, from
  the client's own notes to what was sent; \<open>ClientSubs\<close> and \<open>ClientQueues\<close> the subscriptions, from the reply that registers a
  queue to its terminator; \<open>ClientSockets\<close> who closes a socket, and the one a
  crashed reader leaves behind; \<open>ClientSession\<close> an abstract session that
  the machine refines; \<open>ClientJobs\<close> the job wait and the reading of a queue.

  \<^bold>\<open>Readers.\<close>  \<open>SystemApi\<close> has the parsers, the netdata series and the readers of \<open>system.py\<close>; \<open>SystemLaws\<close> shows
  that readings are in range and that no failed graph is hidden behind another or left out.

  \<^bold>\<open>Bounds.\<close>  No definition runs on fuel: recursion is structural or has its measure, and the job wait is a
  function of the answers so far, \<open>None\<close> while it still polls.

  \<^bold>\<open>Not modelled.\<close>  Logging (except the state that decides whether a transition is logged), the TLS
  context, delays and the clock (a timeout is an event), what \<open>json.loads\<close> itself accepts, the
  WebSocket library, recursion limits, and a dictionary with \<open>NaN\<close> keys.  The \<open>except\<close> clause for
  transport errors around the awaited future is left out: only the library's own errors are ever
  set on it.  A connection is a number that is never reused, and a future is named by the id of its
  call.  The export modules, the example script and the tests hold no logic of the library.
\<close>

end
